(* ===== verification/Prelude.thy ===== *)
theory Prelude
  imports Main "HOL-Library.Word"
begin

text \<open>
  Shared vocabulary of the development: the machine integers of the target (a 64-bit
  little-endian machine with two's complement and a signed plain \<open>char\<close>, as on x86-64),
  byte strings, the C idioms the components use (\<open>memcpy\<close> into a buffer, little-endian and
  big-endian loads and stores, rotations), and the collections of rewrite rules the component
  proofs draw on.
\<close>

unbundle bit_operations_syntax

type_synonym u8 = "8 word"
type_synonym u16 = "16 word"
type_synonym u32 = "32 word"
type_synonym u64 = "64 word"
type_synonym bytes = "u8 list"

named_theorems table_facts \<open>facts about the constant tables of the source\<close>
named_theorems byte_simps \<open>loads, stores and byte extraction\<close>
named_theorems mix_eq \<open>cancellation of mixing steps that lose no information\<close>


subsection \<open>Conversions of a plain (signed) char\<close>

definition char_u32 :: "u8 \<Rightarrow> u32" where
  "char_u32 c = signed c"

definition char_u64 :: "u8 \<Rightarrow> u64" where
  "char_u64 c = signed c"


subsection \<open>Loads, stores and rotations\<close>

definition le32 :: "u8 \<Rightarrow> u8 \<Rightarrow> u8 \<Rightarrow> u8 \<Rightarrow> u32" where
  "le32 a b c d = unsigned a OR push_bit 8 (unsigned b) OR push_bit 16 (unsigned c) OR push_bit 24 (unsigned d)"

definition be32 :: "u8 \<Rightarrow> u8 \<Rightarrow> u8 \<Rightarrow> u8 \<Rightarrow> u32" where
  "be32 a b c d = le32 d c b a"

definition byte_of :: "nat \<Rightarrow> u32 \<Rightarrow> u8" where
  "byte_of i w = unsigned (drop_bit (8 * i) w)"

definition rotl32 :: "nat \<Rightarrow> u32 \<Rightarrow> u32" where
  "rotl32 k x = push_bit k x OR drop_bit (32 - k) x"

definition memcpy_at :: "'a list \<Rightarrow> nat \<Rightarrow> 'a list \<Rightarrow> nat \<Rightarrow> 'a list" where
  "memcpy_at buf off src n = take off buf @ take n src @ drop (off + n) buf"

lemma byte_bit_bound: "bit (w::u8) n \<Longrightarrow> n < 8"
  using bit_imp_le_length [of w n] by simp

lemma byte_and_ff: "(x :: u8) AND 0xff = x"
proof -
  have "(0xff :: u8) = - 1" by simp
  then show ?thesis by (simp only: and.right_neutral)
qed

lemma bit_le32:
  "bit (le32 a b c d) n \<longleftrightarrow>
     (if n < 8 then bit a n else if n < 16 then bit b (n - 8)
      else if n < 24 then bit c (n - 16) else n < 32 \<and> bit d (n - 24))"
  by (auto simp: le32_def bit_simps not_less dest: byte_bit_bound)

lemma bit_byte_of: "bit (byte_of i w) n \<longleftrightarrow> n < 8 \<and> bit w (8 * i + n)"
  by (auto simp: byte_of_def bit_simps)

lemma byte_of_le32 [byte_simps, simp]:
  "byte_of 0 (le32 a b c d) = a"
  "byte_of (Suc 0) (le32 a b c d) = b"
  "byte_of 2 (le32 a b c d) = c"
  "byte_of 3 (le32 a b c d) = d"
  by (rule bit_word_eqI, auto simp: bit_byte_of bit_le32 dest: byte_bit_bound)+

lemma le32_byte_of [byte_simps, simp]:
  "le32 (byte_of 0 w) (byte_of (Suc 0) w) (byte_of 2 w) (byte_of 3 w) = w"
  by (rule bit_word_eqI) (auto simp: bit_byte_of bit_le32)

lemma le32_eq_iff: "le32 a b c d = le32 a' b' c' d' \<longleftrightarrow> a = a' \<and> b = b' \<and> c = c' \<and> d = d'"
  by (metis byte_of_le32)

lemma le32_xor: "le32 a b c d XOR le32 a' b' c' d' = le32 (a XOR a') (b XOR b') (c XOR c') (d XOR d')"
  by (rule bit_word_eqI) (auto simp: bit_le32 bit_simps)

lemma le32_mask [byte_simps]:
  "le32 a b c d AND 0xff = le32 a 0 0 0"
  "le32 a b c d AND 0xffff = le32 a b 0 0"
  "le32 a b c d AND 0xffffff = le32 a b c 0"
proof -
  have m: "(0xff::u32) = mask 8" "(0xffff::u32) = mask 16" "(0xffffff::u32) = mask 24"
    by (simp_all add: mask_eq_exp_minus_1)
  show "le32 a b c d AND 0xff = le32 a 0 0 0"
    and "le32 a b c d AND 0xffff = le32 a b 0 0"
    and "le32 a b c d AND 0xffffff = le32 a b c 0"
    unfolding m by (rule bit_word_eqI, auto simp: bit_le32 bit_simps)+
qed

text \<open>A little-endian load is the sum of the shifted bytes, since no two of them overlap.\<close>

lemma le32_sum:
  "le32 a b c d = unsigned a + push_bit 8 (unsigned b) + push_bit 16 (unsigned c) + push_bit 24 (unsigned d)"
proof -
  have 1: "(unsigned a :: u32) AND push_bit 8 (unsigned b) = 0"
    by (rule bit_word_eqI) (auto simp: bit_simps dest: byte_bit_bound)
  have 2: "((unsigned a :: u32) OR push_bit 8 (unsigned b)) AND push_bit 16 (unsigned c) = 0"
    by (rule bit_word_eqI) (auto simp: bit_simps dest: byte_bit_bound)
  have 3: "((unsigned a :: u32) OR push_bit 8 (unsigned b) OR push_bit 16 (unsigned c)) AND push_bit 24 (unsigned d) = 0"
    by (rule bit_word_eqI) (auto simp: bit_simps dest: byte_bit_bound)
  show ?thesis
    unfolding le32_def
    by (simp add: disjunctive_add_eq_or [OF 1] disjunctive_add_eq_or [OF 2]
        disjunctive_add_eq_or [OF 3] or.assoc)
qed

lemma length_memcpy_at [simp]:
  "off + n \<le> length buf \<Longrightarrow> n \<le> length src \<Longrightarrow> length (memcpy_at buf off src n) = length buf"
  by (simp add: memcpy_at_def)

lemma take_memcpy_at [simp]:
  "off \<le> length buf \<Longrightarrow> n \<le> length src \<Longrightarrow>
     take (off + n) (memcpy_at buf off src n) = take off buf @ take n src"
  by (simp add: memcpy_at_def)

lemma memcpy_at_full:
  "off + n = length buf \<Longrightarrow> memcpy_at buf off src n = take off buf @ take n src"
  by (simp add: memcpy_at_def)


subsection \<open>Mixing steps that lose no information\<close>

text \<open>
  The hash functions are built from three kinds of steps on a 32-bit state: multiplication by
  an odd constant, exclusive or with a shifted copy of itself, and rotation. Each is injective,
  so a hash function made of them only loses information where it folds in its input.
\<close>

lemma inj_mult_inverse:
  fixes m :: "'a::len word"
  assumes "m * n = 1"
  shows "inj (\<lambda>x. x * m)"
proof (rule injI)
  fix x y assume "x * m = y * m"
  then have "x * m * n = y * m * n" by simp
  with assms show "x = y" by (simp add: mult.assoc)
qed

lemma inj_xor_drop_bit:
  fixes k :: nat
  assumes "0 < k"
  shows "inj (\<lambda>x::'a::len word. x XOR drop_bit k x)"
proof (rule injI)
  fix x y :: "'a word"
  assume eq: "x XOR drop_bit k x = y XOR drop_bit k y"
  have step: "bit x n = bit y n" if IH: "bit x (k + n) = bit y (k + n)" for n
  proof -
    from eq have "bit (x XOR drop_bit k x) n = bit (y XOR drop_bit k y) n" by simp
    with IH show ?thesis by (auto simp: bit_simps)
  qed
  have "bit x n = bit y n" for n
  proof (induction "LENGTH('a) - n" arbitrary: n rule: less_induct)
    case less
    show ?case
    proof (cases "n < LENGTH('a)")
      case True
      with assms have "LENGTH('a) - (k + n) < LENGTH('a) - n" by arith
      then have "bit x (k + n) = bit y (k + n)" by (rule less)
      then show ?thesis by (rule step)
    next
      case False
      then show ?thesis by (auto dest: bit_imp_le_length)
    qed
  qed
  then show "x = y" by (intro bit_word_eqI)
qed

lemma xor_drop_bit_eq_iff [mix_eq]:
  "0 < k \<Longrightarrow> x XOR drop_bit k x = y XOR drop_bit k y \<longleftrightarrow> x = y" for x y :: "'a::len word"
  using inj_xor_drop_bit [of k] by (auto dest: injD)

lemma mult_eq_iff_inverse:
  "m * n = 1 \<Longrightarrow> x * m = y * m \<longleftrightarrow> x = y" for m n x y :: "'a::len word"
  using inj_mult_inverse [of m n] by (auto dest: injD)

lemma xor_left_cancel [mix_eq]: "a XOR b = a XOR c \<longleftrightarrow> b = c" for a b c :: "'a::len word"
  by (metis xor.left_neutral xor.assoc xor_self_eq)

lemma xor_right_cancel [mix_eq]: "b XOR a = c XOR a \<longleftrightarrow> b = c" for a b c :: "'a::len word"
  by (metis xor_left_cancel xor.commute)

lemma add_push_bit: "v + push_bit k v = v * (1 + 2 ^ k)" for v :: "'a::len word"
  by (simp add: push_bit_eq_mult algebra_simps)

lemma bit_rotl32:
  "0 < k \<Longrightarrow> k < 32 \<Longrightarrow>
     bit (rotl32 k x) n \<longleftrightarrow> (if n < k then bit x (n + (32 - k)) else n < 32 \<and> bit x (n - k))"
  by (auto simp: rotl32_def bit_simps add.commute dest: bit_imp_le_length)

lemma rotl32_eq_iff [mix_eq]: "0 < k \<Longrightarrow> k < 32 \<Longrightarrow> rotl32 k x = rotl32 k y \<longleftrightarrow> x = y"
proof
  assume k: "0 < k" "k < 32" and eq: "rotl32 k x = rotl32 k y"
  show "x = y"
  proof (rule bit_word_eqI)
    fix n assume "n < LENGTH(32)"
    then have n: "n < 32" by simp
    have "bit (rotl32 k x) ((n + k) mod 32) = bit (rotl32 k y) ((n + k) mod 32)"
      using eq by simp
    moreover have "(n + k) mod 32 = (if n + k < 32 then n + k else n + k - 32)"
      using n k by (simp add: le_mod_geq not_less)
    ultimately show "bit x n = bit y n"
      using n k by (auto simp: bit_rotl32 split: if_splits)
  qed
qed simp


subsection \<open>Cutting a list into blocks\<close>

function chunks :: "nat \<Rightarrow> 'a list \<Rightarrow> 'a list list" where
  "chunks k xs = (if k = 0 \<or> length xs < k then [] else take k xs # chunks k (drop k xs))"
  by pat_completeness auto
termination by (relation "measure (\<lambda>(k, xs). length xs)") auto

declare chunks.simps [simp del]

lemma chunks_short [simp]: "length xs < k \<Longrightarrow> chunks k xs = []"
  by (simp add: chunks.simps)

lemma chunks_first: "length xs = k \<Longrightarrow> 0 < k \<Longrightarrow> chunks k (xs @ ys) = xs # chunks k ys"
  by (subst chunks.simps) simp

lemma chunks_append:
  "k dvd length xs \<Longrightarrow> 0 < k \<Longrightarrow> chunks k (xs @ ys) = chunks k xs @ chunks k ys"
proof (induction k xs rule: chunks.induct)
  case (1 k xs)
  show ?case
  proof (cases "xs = []")
    case False
    with "1.prems" have le: "k \<le> length xs" by (auto dest: dvd_imp_le)
    with "1.prems" have "k dvd length (drop k xs)" by (simp add: dvd_diff_nat)
    with 1 le have "chunks k (drop k xs @ ys) = chunks k (drop k xs) @ chunks k ys" by simp
    with le "1.prems" show ?thesis
      by (subst (1 2) chunks.simps) simp
  qed (use "1.prems" in simp)
qed

lemma chunks_full: "0 < k \<Longrightarrow> chunks k (take (length xs div k * k) xs) = chunks k xs"
proof -
  assume k: "0 < k"
  let ?n = "length xs div k * k"
  have "chunks k (take ?n xs @ drop ?n xs) = chunks k (take ?n xs) @ chunks k (drop ?n xs)"
    using k by (intro chunks_append) (simp_all add: min_absorb2)
  moreover have "chunks k (drop ?n xs) = []"
    using k by (simp add: minus_div_mult_eq_mod)
  ultimately show ?thesis by simp
qed

lemma length_chunks: "0 < k \<Longrightarrow> length (chunks k xs) = length xs div k"
proof (induction k xs rule: chunks.induct)
  case (1 k xs)
  then show ?case
    by (subst chunks.simps) (auto simp: not_less le_div_geq)
qed

lemma length_in_chunks: "b \<in> set (chunks k xs) \<Longrightarrow> length b = k"
proof (induction k xs rule: chunks.induct)
  case (1 k xs)
  then show ?case by (subst (asm) (2) chunks.simps) (auto split: if_splits)
qed

lemma concat_chunks: "k dvd length xs \<Longrightarrow> 0 < k \<Longrightarrow> concat (chunks k xs) = xs"
proof (induction k xs rule: chunks.induct)
  case (1 k xs)
  show ?case
  proof (cases "xs = []")
    case False
    with "1.prems" have le: "k \<le> length xs" by (auto dest: dvd_imp_le)
    with "1.prems" have "k dvd length (drop k xs)" by (simp add: dvd_diff_nat)
    with 1 le have "concat (chunks k (drop k xs)) = drop k xs" by simp
    with le "1.prems" show ?thesis by (subst chunks.simps) simp
  qed (use "1.prems" in simp)
qed


subsection \<open>Bounds of machine integers\<close>

lemma unat_bounds:
  "unat (a :: u8) < 256" "unat (b :: u16) < 65536" "unat (c :: u32) < 4294967296"
  "unat (d :: u64) < 18446744073709551616"
  using unsigned_less [of a, where ?'a = nat] unsigned_less [of b, where ?'a = nat]
    unsigned_less [of c, where ?'a = nat] unsigned_less [of d, where ?'a = nat]
  by simp_all

lemma unat_widen:
  "unat (unsigned (a :: u8) :: u32) = unat a" "unat (unsigned (b :: u16) :: u32) = unat b"
  "unat (unsigned (a :: u8) :: u64) = unat a" "unat (unsigned (b :: u16) :: u64) = unat b"
  "unat (unsigned (c :: u32) :: u64) = unat c"
  using unat_bounds(1) [of a] unat_bounds(2) [of b] unat_bounds(3) [of c]
  by (simp_all add: unsigned_ucast_eq take_bit_eq_mod)

end
