(* ===== verification/Hash_Steps.thy ===== *)
theory Hash_Steps
  imports Prelude
begin

text \<open>
  The interface the byte- and block-oriented hash functions of \<open>libhashkit\<close> share: a step that
  folds one unit of input (a byte, a 32-bit block) into the running state. Its laws are that the
  step is injective in the state for a fixed input unit and injective in the input unit for a
  fixed state. What follows for a client is that two inputs that agree in all units but one are
  never hashed to the same state. The hash theories interpret the locales on the steps of the
  code.
\<close>

locale injective_step =
  fixes step :: "'b \<Rightarrow> 's \<Rightarrow> 's"
  assumes state_inj: "step b s = step b t \<Longrightarrow> s = t"
    and input_inj: "step b s = step c s \<Longrightarrow> b = c"
begin

lemma fold_state_inj: "fold step xs s = fold step xs t \<Longrightarrow> s = t"
  by (induction xs arbitrary: s t) (auto dest: state_inj)

lemma fold_one_unit: "fold step (xs @ b # ys) s = fold step (xs @ c # ys) s \<longleftrightarrow> b = c"
  by (auto dest: fold_state_inj input_inj)

end

text \<open>A final mixing step that is itself injective keeps the distinction.\<close>

locale injective_hash = injective_step step for step :: "'b \<Rightarrow> 's \<Rightarrow> 's" +
  fixes finish :: "'s \<Rightarrow> 'r"
  assumes finish_inj: "finish s = finish t \<Longrightarrow> s = t"
begin

lemma hash_one_unit:
  "finish (fold step (xs @ b # ys) s) = finish (fold step (xs @ c # ys) s) \<longleftrightarrow> b = c"
  using fold_one_unit finish_inj by metis

end


subsection \<open>Keys as 32-bit blocks and a tail\<close>

text \<open>
  A \<open>memcpy\<close> of at most four bytes into a zeroed \<open>uint32_t\<close> is \<open>le_tail\<close>; the full
  blocks of a key are \<open>le_words\<close> and the bytes behind them \<open>tail4\<close>.
\<close>

fun le_tail :: "bytes \<Rightarrow> u32" where
  "le_tail [] = 0"
| "le_tail [a] = le32 a 0 0 0"
| "le_tail [a, b] = le32 a b 0 0"
| "le_tail [a, b, c] = le32 a b c 0"
| "le_tail (a # b # c # d # _) = le32 a b c d"

fun le_words :: "bytes \<Rightarrow> u32 list" where
  "le_words (a # b # c # d # xs) = le32 a b c d # le_words xs"
| "le_words xs = []"

fun tail4 :: "bytes \<Rightarrow> bytes" where
  "tail4 (a # b # c # d # xs) = tail4 xs"
| "tail4 xs = xs"

lemma length_le_words: "length (le_words xs) = length xs div 4"
  by (induction xs rule: le_words.induct) simp_all

lemma drop_4_Cons: "drop (m + 4) (a # b # c # d # xs) = drop m xs"
  by (simp add: numeral_eq_Suc)

lemma nth_4_Cons: "(a # b # c # d # xs) ! (m + 4) = xs ! m"
  by (simp add: numeral_eq_Suc)

lemma tail4_drop: "tail4 xs = drop (length xs div 4 * 4) xs"
proof (induction xs rule: tail4.induct)
  case (1 a b c d xs)
  have "length (a # b # c # d # xs) div 4 * 4 = length xs div 4 * 4 + 4"
    by (simp add: div_add_self1 del: div_mult_self1_is_m)
  with 1 show ?case by (simp only: tail4.simps drop_4_Cons)
qed simp_all

lemma length_tail4: "length (tail4 xs) = length xs mod 4"
  by (induction xs rule: tail4.induct) simp_all

lemma le_words_nth:
  "j < length xs div 4 \<Longrightarrow>
     le_words xs ! j = le32 (xs ! (4 * j)) (xs ! (4 * j + 1)) (xs ! (4 * j + 2)) (xs ! (4 * j + 3))"
proof (induction xs arbitrary: j rule: le_words.induct)
  case (1 a b c d xs)
  show ?case
  proof (cases j)
    case 0
    then show ?thesis by (simp add: numeral_3_eq_3 numeral_2_eq_2)
  next
    case (Suc k)
    have shift: "(a # b # c # d # xs) ! (4 * j + r) = xs ! (4 * k + r)" for r
      unfolding Suc using nth_4_Cons [of a b c d xs "4 * k + r"] by (simp add: ac_simps)
    from 1 Suc show ?thesis
      using shift [of 0] shift [of 1] shift [of 2] shift [of 3] by simp
  qed
qed simp_all

text \<open>Changing one byte of a key changes exactly one block, or the tail.\<close>

lemma one_byte_blocks:
  obtains (block) us v w vs where
      "le_words (xs @ a # ys) = us @ v # vs" "le_words (xs @ b # ys) = us @ w # vs"
      "v = w \<longleftrightarrow> a = b" "tail4 (xs @ a # ys) = tail4 (xs @ b # ys)"
  | (tail) "le_words (xs @ a # ys) = le_words (xs @ b # ys)"
      "tail4 (xs @ a # ys) \<noteq> []" "tail4 (xs @ b # ys) \<noteq> []"
      "le_tail (tail4 (xs @ a # ys)) = le_tail (tail4 (xs @ b # ys)) \<longleftrightarrow> a = b"
proof -
  let ?k = "xs @ a # ys" and ?l = "xs @ b # ys" and ?n = "length xs" and ?m = "length (xs @ a # ys) div 4"
  have nth: "?k ! i = (if i = ?n then a else ?l ! i)" and nth_b: "?l ! ?n = b" for i
    by (auto simp: nth_append nth_Cons')
  have other: "le_words ?k ! j = le_words ?l ! j" if "j < ?m" "j \<noteq> ?n div 4" for j
  proof -
    have "4 * j + r \<noteq> ?n" if "r < 4" for r
      using \<open>j \<noteq> ?n div 4\<close> that by auto
    from this [of 0] this [of 1] this [of 2] this [of 3] \<open>j < ?m\<close>
    show ?thesis by (simp add: le_words_nth nth)
  qed
  show thesis
  proof (cases "?n div 4 < ?m")
    case True
    let ?j = "?n div 4"
    have split: "le_words k = take ?j (le_words k) @ le_words k ! ?j # drop (Suc ?j) (le_words k)"
      if "length k div 4 = ?m" for k
      using True that by (simp add: length_le_words id_take_nth_drop)
    have r: "?n mod 4 < 4" and n: "?n = 4 * ?j + ?n mod 4" by simp_all
    have "le_words ?k ! ?j = le_words ?l ! ?j \<longleftrightarrow>
        (\<forall>r \<in> {0, 1, 2, 3}. ?k ! (4 * ?j + r) = ?l ! (4 * ?j + r))"
      using True by (simp add: le_words_nth le32_eq_iff)
    also have "\<dots> \<longleftrightarrow> a = b"
    proof
      assume all: "\<forall>r \<in> {0, 1, 2, 3}. ?k ! (4 * ?j + r) = ?l ! (4 * ?j + r)"
      from r have "?n mod 4 \<in> {0, 1, 2, 3}" by (simp; arith)
      with all have "?k ! ?n = ?l ! ?n" by (metis n)
      then show "a = b" by simp
    qed simp
    finally have "le_words ?k ! ?j = le_words ?l ! ?j \<longleftrightarrow> a = b" .
    moreover have "take ?j (le_words ?k) = take ?j (le_words ?l)"
      "drop (Suc ?j) (le_words ?k) = drop (Suc ?j) (le_words ?l)"
      using True by (auto intro!: nth_equalityI other simp: length_le_words)
    moreover have "?n < ?m * 4" using True n r by linarith
    then have "tail4 ?k = tail4 ?l"
      by (simp add: tail4_drop drop_Cons')
    ultimately show thesis
      using split [of ?k] split [of ?l] by (intro block) simp_all
  next
    case False
    then have "?m * 4 \<le> ?n" by (simp add: div_le_mono leI less_eq_div_iff_mult_less_eq)
    then have t: "tail4 ?k = drop (?m * 4) xs @ a # ys" "tail4 ?l = drop (?m * 4) xs @ b # ys"
      by (simp_all add: tail4_drop)
    have "length (tail4 ?k) < 4" by (simp add: length_tail4)
    with t have "le_tail (tail4 ?k) = le_tail (tail4 ?l) \<longleftrightarrow> a = b"
      by (cases "drop (?m * 4) xs" rule: le_tail.cases; cases ys rule: le_tail.cases)
        (simp_all only: append.simps le_tail.simps le32_eq_iff list.size, simp_all)
    moreover have "le_words ?k = le_words ?l"
      using False by (auto intro!: nth_equalityI other simp: length_le_words)
    ultimately show thesis using t by (intro tail) simp_all
  qed
qed

locale block_hash = injective_step step for step :: "u32 \<Rightarrow> u32 \<Rightarrow> u32" +
  fixes tailmix :: "bytes \<Rightarrow> u32 \<Rightarrow> u32" and finish :: "u32 \<Rightarrow> u32"
  assumes tail_state_inj: "tailmix t s = tailmix t s' \<Longrightarrow> s = s'"
    and tail_input_inj: "t \<noteq> [] \<Longrightarrow> t' \<noteq> [] \<Longrightarrow> tailmix t s = tailmix t' s \<Longrightarrow> le_tail t = le_tail t'"
    and finish_inj: "finish s = finish s' \<Longrightarrow> s = s'"
begin

lemma one_byte:
  "finish (tailmix (tail4 (xs @ a # ys)) (fold step (le_words (xs @ a # ys)) s)) =
   finish (tailmix (tail4 (xs @ b # ys)) (fold step (le_words (xs @ b # ys)) s)) \<longleftrightarrow> a = b"
  (is "?l \<longleftrightarrow> _")
proof
  assume ?l
  then have eq: "tailmix (tail4 (xs @ a # ys)) (fold step (le_words (xs @ a # ys)) s) =
      tailmix (tail4 (xs @ b # ys)) (fold step (le_words (xs @ b # ys)) s)"
    by (rule finish_inj)
  show "a = b"
  proof (cases rule: one_byte_blocks [of xs a ys b])
    case (block us v w vs)
    with eq have "fold step (us @ v # vs) s = fold step (us @ w # vs) s"
      by (metis tail_state_inj)
    with block show ?thesis by (simp only: fold_one_unit)
  next
    case tail
    with eq show ?thesis by (metis tail_input_inj)
  qed
qed simp

end


subsection \<open>Plain characters\<close>

lemma low_byte_char_u32: "unsigned (char_u32 a) = a"
proof (rule bit_word_eqI)
  fix n assume "n < LENGTH(8)"
  then have "min 7 n = n" by simp
  with \<open>n < LENGTH(8)\<close> show "bit (unsigned (char_u32 a) :: u8) n = bit a n"
    by (simp add: char_u32_def bit_simps)
qed

lemma char_u32_inj: "char_u32 a = char_u32 b \<Longrightarrow> a = b"
  by (metis low_byte_char_u32)

text \<open>The bytes of a key that is a piece of memory: an address and a length.\<close>

primrec mem_bytes :: "(nat \<Rightarrow> u8) \<Rightarrow> nat \<Rightarrow> nat \<Rightarrow> bytes" where
  "mem_bytes m k 0 = []"
| "mem_bytes m k (Suc n) = m k # mem_bytes m (Suc k) n"

lemma length_mem_bytes [simp]: "length (mem_bytes m k n) = n"
  by (induction n arbitrary: k) simp_all

lemma mem_bytes_eq_Nil [simp]: "mem_bytes m k n = [] \<longleftrightarrow> n = 0"
  by (cases n) simp_all

lemma drop_mem_bytes: "drop i (mem_bytes m k n) = mem_bytes m (k + i) (n - i)"
proof (induction n arbitrary: i k)
  case (Suc n)
  then show ?case by (cases i) simp_all
qed simp

lemma nth_mem_bytes [simp]: "i < n \<Longrightarrow> mem_bytes m k n ! i = m (k + i)"
  by (induction n arbitrary: i k) (auto simp: nth_Cons split: nat.split)

lemma le_tail_mem_bytes:
  "le_tail (mem_bytes m k n) =
     (if n = 0 then 0 else if n = 1 then le32 (m k) 0 0 0
      else if n = 2 then le32 (m k) (m (k + 1)) 0 0
      else if n = 3 then le32 (m k) (m (k + 1)) (m (k + 2)) 0
      else le32 (m k) (m (k + 1)) (m (k + 2)) (m (k + 3)))"
proof -
  consider "n = 0" | "n = Suc 0" | "n = Suc (Suc 0)" | "n = Suc (Suc (Suc 0))"
    | n' where "n = Suc (Suc (Suc (Suc n')))" by (metis nat.exhaust)
  then show ?thesis by cases (simp_all add: numeral_2_eq_2 numeral_3_eq_3)
qed

lemma le_tail_mem_bytes_4:
  "n \<ge> 4 \<Longrightarrow> le_tail (mem_bytes m k n) = le32 (m k) (m (k + 1)) (m (k + 2)) (m (k + 3))"
  by (simp add: le_tail_mem_bytes)

end
