(* ===== verification/Hash_Bytewise.thy ===== *)
theory Hash_Bytewise
  imports Hash_Steps
begin

text \<open>
  The hash functions of \<open>libhashkit\<close> that consume their key one byte at a time: Jenkins'
  one-at-a-time hash (\<open>one_at_a_time.cc\<close>, the default) and the FNV-1 and FNV-1a family
  (\<open>fnv_32.cc\<close>, \<open>fnv_64.cc\<close>). A key with its length is the list of its bytes; the \<open>context\<close> argument, which all of them ignore, is left out. A byte of the key is
  a plain \<open>char\<close>, so its conversion to an unsigned integer sign-extends (\<^const>\<open>char_u32\<close>).
\<close>


subsection \<open>One at a time\<close>

definition one_at_a_time_step :: "u8 \<Rightarrow> u32 \<Rightarrow> u32" where
  "one_at_a_time_step c v0 =
     (let v1 = v0 + char_u32 c;
          v2 = v1 + push_bit 10 v1
      in v2 XOR drop_bit 6 v2)"

definition one_at_a_time_finish :: "u32 \<Rightarrow> u32" where
  "one_at_a_time_finish v0 =
     (let v1 = v0 + push_bit 3 v0;
          v2 = v1 XOR drop_bit 11 v1
      in v2 + push_bit 15 v2)"

definition hashkit_one_at_a_time :: "bytes \<Rightarrow> u32" where
  "hashkit_one_at_a_time key = one_at_a_time_finish (fold one_at_a_time_step key 0)"

lemma one_at_a_time_mult_eq [mix_eq]:
  "v + push_bit 10 v = w + push_bit 10 w \<longleftrightarrow> v = w"
  "v + push_bit 3 v = w + push_bit 3 w \<longleftrightarrow> v = w"
  "v + push_bit 15 v = w + push_bit 15 w \<longleftrightarrow> v = w" for v w :: u32
  unfolding add_push_bit
  by (rule mult_eq_iff_inverse [where n = "0xc00ffc01"], simp)
    (rule mult_eq_iff_inverse [where n = "0x38e38e39"], simp,
     rule mult_eq_iff_inverse [where n = "0x3fff8001"], simp)

interpretation oaat: injective_hash one_at_a_time_step one_at_a_time_finish
  by unfold_locales
    (auto simp: one_at_a_time_step_def one_at_a_time_finish_def Let_def mix_eq
      simp del: push_bit_xor dest: char_u32_inj)


subsection \<open>FNV\<close>

definition FNV_32_INIT :: u32 where "FNV_32_INIT = 2166136261"
definition FNV_32_PRIME :: u32 where "FNV_32_PRIME = 16777619"

definition fnv1_32_step :: "u8 \<Rightarrow> u32 \<Rightarrow> u32" where
  "fnv1_32_step c hash = (hash * FNV_32_PRIME) XOR char_u32 c"

definition hashkit_fnv1_32 :: "bytes \<Rightarrow> u32" where
  "hashkit_fnv1_32 key = fold fnv1_32_step key FNV_32_INIT"

definition fnv1a_32_step :: "u8 \<Rightarrow> u32 \<Rightarrow> u32" where
  "fnv1a_32_step c hash = (hash XOR char_u32 c) * FNV_32_PRIME"

definition hashkit_fnv1a_32 :: "bytes \<Rightarrow> u32" where
  "hashkit_fnv1a_32 key = fold fnv1a_32_step key FNV_32_INIT"

definition FNV_64_INIT :: u64 where "FNV_64_INIT = 0xcbf29ce484222325"
definition FNV_64_PRIME :: u64 where "FNV_64_PRIME = 0x100000001b3"

definition fnv1_64_step :: "u8 \<Rightarrow> u64 \<Rightarrow> u64" where
  "fnv1_64_step c hash = (hash * FNV_64_PRIME) XOR char_u64 c"

definition hashkit_fnv1_64 :: "bool \<Rightarrow> bytes \<Rightarrow> u32" where
  "hashkit_fnv1_64 have_fnv64 key =
     (if have_fnv64 then unsigned (fold fnv1_64_step key FNV_64_INIT) else 0)"

definition fnv1a_64_step :: "u8 \<Rightarrow> u32 \<Rightarrow> u32" where
  "fnv1a_64_step c hash = (hash XOR char_u32 c) * unsigned FNV_64_PRIME"

definition hashkit_fnv1a_64 :: "bool \<Rightarrow> bytes \<Rightarrow> u32" where
  "hashkit_fnv1a_64 have_fnv64 key =
     (if have_fnv64 then fold fnv1a_64_step key (unsigned FNV_64_INIT) else 0)"

lemma fnv_prime_eq [mix_eq]:
  "v * FNV_32_PRIME = w * FNV_32_PRIME \<longleftrightarrow> v = w"
  "v * unsigned FNV_64_PRIME = w * unsigned FNV_64_PRIME \<longleftrightarrow> v = w" for v w :: u32
  by (rule mult_eq_iff_inverse [where n = "0x359c449b"], simp add: FNV_32_PRIME_def)
    (rule mult_eq_iff_inverse [where n = "0xaff6957b"], simp add: FNV_64_PRIME_def)

interpretation fnv1_32: injective_step fnv1_32_step
  by unfold_locales (auto simp: fnv1_32_step_def mix_eq dest: char_u32_inj)

interpretation fnv1a_32: injective_step fnv1a_32_step
  by unfold_locales (auto simp: fnv1a_32_step_def mix_eq dest: char_u32_inj)

interpretation fnv1a_64: injective_step fnv1a_64_step
  by unfold_locales (auto simp: fnv1a_64_step_def mix_eq dest: char_u32_inj)

text \<open>The 64-bit FNV-1a hash, of which the code keeps the low half throughout.\<close>

definition fnv1a_64_ref :: "bytes \<Rightarrow> u64" where
  "fnv1a_64_ref key = fold (\<lambda>c hash. (hash XOR char_u64 c) * FNV_64_PRIME) key FNV_64_INIT"

lemma low_half_mult: "(unsigned (a * b) :: u32) = unsigned a * unsigned b" for a b :: u64
proof -
  have "take_bit 32 (uint (a * b)) = take_bit 32 (uint a * uint b)"
    by (simp add: uint_word_ariths take_bit_eq_mod mod_mod_cancel)
  then have "take_bit 32 (uint (a * b)) = take_bit 32 (take_bit 32 (uint a) * take_bit 32 (uint b))"
    by (simp add: take_bit_eq_mod mod_mult_eq)
  then show ?thesis
    by (intro word_uint_eqI) (simp add: uint_word_ariths unsigned_ucast_eq take_bit_eq_mod)
qed

lemma low_half_char: "(unsigned (char_u64 c) :: u32) = char_u32 c"
  by (rule bit_word_eqI) (auto simp: char_u64_def char_u32_def bit_simps)

lemma low_half_xor: "(unsigned (a XOR b) :: u32) = unsigned a XOR unsigned b" for a b :: u64
  by (rule bit_word_eqI) (auto simp: bit_simps)

lemma fnv1a_64_truncates:
  "(unsigned (fold (\<lambda>c hash. (hash XOR char_u64 c) * FNV_64_PRIME) key h) :: u32) =
     fold fnv1a_64_step key (unsigned h)"
  by (induction key arbitrary: h)
    (simp_all add: fnv1a_64_step_def low_half_mult low_half_xor low_half_char)

text \<open>
  C18: Two keys that differ in exactly one byte never collide under the one-at-a-time hash, the two
  32-bit FNV hashes and the FNV-1a hash with the 64-bit prime, wherever the byte stands and
  whatever surrounds it.
\<close>

theorem bytewise_one_byte_change:
  "(hashkit_one_at_a_time (xs @ b # ys) = hashkit_one_at_a_time (xs @ c # ys) \<longleftrightarrow> b = c) \<and>
   (hashkit_fnv1_32 (xs @ b # ys) = hashkit_fnv1_32 (xs @ c # ys) \<longleftrightarrow> b = c) \<and>
   (hashkit_fnv1a_32 (xs @ b # ys) = hashkit_fnv1a_32 (xs @ c # ys) \<longleftrightarrow> b = c) \<and>
   (hashkit_fnv1a_64 True (xs @ b # ys) = hashkit_fnv1a_64 True (xs @ c # ys) \<longleftrightarrow> b = c)"
  unfolding hashkit_one_at_a_time_def hashkit_fnv1_32_def hashkit_fnv1a_32_def hashkit_fnv1a_64_def if_True
  by (intro conjI oaat.hash_one_unit fnv1_32.fold_one_unit fnv1a_32.fold_one_unit fnv1a_64.fold_one_unit)

text \<open>
  Although it keeps its state in 32 bits all along, the FNV-1a hash with the 64-bit constants
  returns the low half of the FNV-1a hash computed in 64 bits.
\<close>

lemma fnv1a_64_low_half: "hashkit_fnv1a_64 True key = unsigned (fnv1a_64_ref key)"
  by (simp add: hashkit_fnv1a_64_def fnv1a_64_ref_def fnv1a_64_truncates)

end
