(* ===== verification/Hash_CRC32.thy ===== *)
theory Hash_CRC32
  imports Hash_Steps
begin

text \<open>
  CRC-32 (\<open>crc32.cc\<close>): the table the code looks bytes up in, the loop over the key, and the
  truncation of the result to 15 bits. The reference is the bit-by-bit division by the reflected
  polynomial \<open>0xedb88320\<close>.
\<close>

definition crc32tab :: "u32 list" where
  "crc32tab = [
     0x00000000, 0x77073096, 0xee0e612c, 0x990951ba, 0x076dc419, 0x706af48f, 0xe963a535, 0x9e6495a3,
     0x0edb8832, 0x79dcb8a4, 0xe0d5e91e, 0x97d2d988, 0x09b64c2b, 0x7eb17cbd, 0xe7b82d07, 0x90bf1d91,
     0x1db71064, 0x6ab020f2, 0xf3b97148, 0x84be41de, 0x1adad47d, 0x6ddde4eb, 0xf4d4b551, 0x83d385c7,
     0x136c9856, 0x646ba8c0, 0xfd62f97a, 0x8a65c9ec, 0x14015c4f, 0x63066cd9, 0xfa0f3d63, 0x8d080df5,
     0x3b6e20c8, 0x4c69105e, 0xd56041e4, 0xa2677172, 0x3c03e4d1, 0x4b04d447, 0xd20d85fd, 0xa50ab56b,
     0x35b5a8fa, 0x42b2986c, 0xdbbbc9d6, 0xacbcf940, 0x32d86ce3, 0x45df5c75, 0xdcd60dcf, 0xabd13d59,
     0x26d930ac, 0x51de003a, 0xc8d75180, 0xbfd06116, 0x21b4f4b5, 0x56b3c423, 0xcfba9599, 0xb8bda50f,
     0x2802b89e, 0x5f058808, 0xc60cd9b2, 0xb10be924, 0x2f6f7c87, 0x58684c11, 0xc1611dab, 0xb6662d3d,
     0x76dc4190, 0x01db7106, 0x98d220bc, 0xefd5102a, 0x71b18589, 0x06b6b51f, 0x9fbfe4a5, 0xe8b8d433,
     0x7807c9a2, 0x0f00f934, 0x9609a88e, 0xe10e9818, 0x7f6a0dbb, 0x086d3d2d, 0x91646c97, 0xe6635c01,
     0x6b6b51f4, 0x1c6c6162, 0x856530d8, 0xf262004e, 0x6c0695ed, 0x1b01a57b, 0x8208f4c1, 0xf50fc457,
     0x65b0d9c6, 0x12b7e950, 0x8bbeb8ea, 0xfcb9887c, 0x62dd1ddf, 0x15da2d49, 0x8cd37cf3, 0xfbd44c65,
     0x4db26158, 0x3ab551ce, 0xa3bc0074, 0xd4bb30e2, 0x4adfa541, 0x3dd895d7, 0xa4d1c46d, 0xd3d6f4fb,
     0x4369e96a, 0x346ed9fc, 0xad678846, 0xda60b8d0, 0x44042d73, 0x33031de5, 0xaa0a4c5f, 0xdd0d7cc9,
     0x5005713c, 0x270241aa, 0xbe0b1010, 0xc90c2086, 0x5768b525, 0x206f85b3, 0xb966d409, 0xce61e49f,
     0x5edef90e, 0x29d9c998, 0xb0d09822, 0xc7d7a8b4, 0x59b33d17, 0x2eb40d81, 0xb7bd5c3b, 0xc0ba6cad,
     0xedb88320, 0x9abfb3b6, 0x03b6e20c, 0x74b1d29a, 0xead54739, 0x9dd277af, 0x04db2615, 0x73dc1683,
     0xe3630b12, 0x94643b84, 0x0d6d6a3e, 0x7a6a5aa8, 0xe40ecf0b, 0x9309ff9d, 0x0a00ae27, 0x7d079eb1,
     0xf00f9344, 0x8708a3d2, 0x1e01f268, 0x6906c2fe, 0xf762575d, 0x806567cb, 0x196c3671, 0x6e6b06e7,
     0xfed41b76, 0x89d32be0, 0x10da7a5a, 0x67dd4acc, 0xf9b9df6f, 0x8ebeeff9, 0x17b7be43, 0x60b08ed5,
     0xd6d6a3e8, 0xa1d1937e, 0x38d8c2c4, 0x4fdff252, 0xd1bb67f1, 0xa6bc5767, 0x3fb506dd, 0x48b2364b,
     0xd80d2bda, 0xaf0a1b4c, 0x36034af6, 0x41047a60, 0xdf60efc3, 0xa867df55, 0x316e8eef, 0x4669be79,
     0xcb61b38c, 0xbc66831a, 0x256fd2a0, 0x5268e236, 0xcc0c7795, 0xbb0b4703, 0x220216b9, 0x5505262f,
     0xc5ba3bbe, 0xb2bd0b28, 0x2bb45a92, 0x5cb36a04, 0xc2d7ffa7, 0xb5d0cf31, 0x2cd99e8b, 0x5bdeae1d,
     0x9b64c2b0, 0xec63f226, 0x756aa39c, 0x026d930a, 0x9c0906a9, 0xeb0e363f, 0x72076785, 0x05005713,
     0x95bf4a82, 0xe2b87a14, 0x7bb12bae, 0x0cb61b38, 0x92d28e9b, 0xe5d5be0d, 0x7cdcefb7, 0x0bdbdf21,
     0x86d3d2d4, 0xf1d4e242, 0x68ddb3f8, 0x1fda836e, 0x81be16cd, 0xf6b9265b, 0x6fb077e1, 0x18b74777,
     0x88085ae6, 0xff0f6a70, 0x66063bca, 0x11010b5c, 0x8f659eff, 0xf862ae69, 0x616bffd3, 0x166ccf45,
     0xa00ae278, 0xd70dd2ee, 0x4e048354, 0x3903b3c2, 0xa7672661, 0xd06016f7, 0x4969474d, 0x3e6e77db,
     0xaed16a4a, 0xd9d65adc, 0x40df0b66, 0x37d83bf0, 0xa9bcae53, 0xdebb9ec5, 0x47b2cf7f, 0x30b5ffe9,
     0xbdbdf21c, 0xcabac28a, 0x53b39330, 0x24b4a3a6, 0xbad03605, 0xcdd70693, 0x54de5729, 0x23d967bf,
     0xb3667a2e, 0xc4614ab8, 0x5d681b02, 0x2a6f2b94, 0xb40bbe37, 0xc30c8ea1, 0x5a05df1b, 0x2d02ef8d]"

definition crc32_step :: "u8 \<Rightarrow> u32 \<Rightarrow> u32" where
  "crc32_step c crc =
     drop_bit 8 crc XOR crc32tab ! unat ((unsigned crc XOR char_u64 c) AND 0xff :: u64)"

definition hashkit_crc32 :: "bytes \<Rightarrow> u32" where
  "hashkit_crc32 key = drop_bit 16 (NOT (fold crc32_step key (- 1))) AND 0x7fff"


subsection \<open>Reference: division by the generator polynomial, bit by bit\<close>

definition crc32_bit :: "u32 \<Rightarrow> u32" where
  "crc32_bit crc = (if bit crc 0 then drop_bit 1 crc XOR 0xedb88320 else drop_bit 1 crc)"

primrec crc32_bits :: "nat \<Rightarrow> u32 \<Rightarrow> u32" where
  "crc32_bits 0 crc = crc"
| "crc32_bits (Suc n) crc = crc32_bits n (crc32_bit crc)"

definition crc32_ref_step :: "u8 \<Rightarrow> u32 \<Rightarrow> u32" where
  "crc32_ref_step c crc = crc32_bits 8 (crc XOR unsigned c)"

definition crc32_ref :: "bytes \<Rightarrow> u32" where
  "crc32_ref key = NOT (fold crc32_ref_step key (- 1))"

lemma crc32_bits_8:
  "crc32_bits 8 c = crc32_bit (crc32_bit (crc32_bit (crc32_bit (crc32_bit (crc32_bit
     (crc32_bit (crc32_bit c)))))))"
  by (simp add: numeral_eq_Suc)

lemma crc32_bit_numeral:
  "crc32_bit 0 = 0"
  "crc32_bit 1 = 0xedb88320"
  "crc32_bit (numeral (num.Bit0 w)) = drop_bit 1 (numeral (num.Bit0 w))"
  "crc32_bit (numeral (num.Bit1 w)) = drop_bit 1 (numeral (num.Bit1 w)) XOR 0xedb88320"
  by (simp_all add: crc32_bit_def bit_0)

lemma crc32tab_eq [table_facts]: "crc32tab = map (\<lambda>i. crc32_bits 8 (word_of_nat i)) [0..<256]"
  by (simp add: crc32tab_def upt_rec crc32_bits_8 crc32_bit_numeral)

lemma crc32_bit_xor: "crc32_bit (a XOR b) = crc32_bit a XOR crc32_bit b"
  by (rule bit_word_eqI) (auto simp: crc32_bit_def bit_simps)

lemma crc32_bits_xor: "crc32_bits n (a XOR b) = crc32_bits n a XOR crc32_bits n b"
  by (induction n arbitrary: a b) (simp_all add: crc32_bit_xor)

lemma crc32_bits_no_low:
  "(\<And>k. k < n \<Longrightarrow> \<not> bit z k) \<Longrightarrow> crc32_bits n z = drop_bit n z"
proof (induction n arbitrary: z)
  case (Suc n)
  then have "crc32_bit z = drop_bit 1 z" by (simp add: crc32_bit_def)
  moreover have "\<not> bit (drop_bit 1 z) k" if "k < n" for k
    using Suc.prems [of "Suc k"] that by (simp add: bit_simps)
  ultimately have "crc32_bits (Suc n) z = drop_bit n (drop_bit 1 z)"
    using Suc.IH by simp
  then show ?case by simp
qed simp

lemma crc32_bits_8_split: "crc32_bits 8 x = drop_bit 8 x XOR crc32_bits 8 (take_bit 8 x)"
proof -
  have x: "x = (NOT (mask 8) AND x) XOR take_bit 8 x"
    by (rule bit_word_eqI) (auto simp: bit_simps)
  have "crc32_bits 8 (NOT (mask 8) AND x) = drop_bit 8 (NOT (mask 8) AND x)"
    by (rule crc32_bits_no_low) (simp add: bit_simps)
  also have "\<dots> = drop_bit 8 x"
    by (rule bit_word_eqI) (auto simp: bit_simps dest: bit_imp_le_length)
  finally show ?thesis
    by (subst x) (simp add: crc32_bits_xor)
qed

lemma crc32_index:
  "unat ((unsigned crc XOR char_u64 c) AND 0xff :: u64) = unat (take_bit 8 (crc XOR unsigned c :: u32))"
proof -
  have "(unsigned crc XOR char_u64 c) AND 0xff = (unsigned (take_bit 8 (crc XOR unsigned c)) :: u64)"
  proof (rule bit_word_eqI)
    fix n
    have m: "(0xff::u64) = mask 8" by (simp add: mask_eq_exp_minus_1)
    show "bit ((unsigned crc XOR char_u64 c) AND 0xff :: u64) n =
      bit (unsigned (take_bit 8 (crc XOR unsigned c)) :: u64) n"
    proof (cases "n < 8")
      case True
      then have "min 7 n = n" by simp
      with True show ?thesis unfolding m by (auto simp: char_u64_def bit_simps)
    next
      case False
      then show ?thesis unfolding m by (simp add: bit_simps)
    qed
  qed
  then show ?thesis
    using unsigned_less [of "take_bit 8 (crc XOR unsigned c)", where 'a = nat]
    by (simp add: unsigned_ucast_eq take_bit_nat_eq_self_iff)
qed

lemma crc32_step_eq: "crc32_step c crc = crc32_ref_step c crc"
proof -
  have lt: "unat (take_bit 8 (crc XOR unsigned c)) < 2 ^ 8"
    by (simp only: unsigned_take_bit_eq take_bit_nat_less_exp)
  have "crc32_step c crc = drop_bit 8 crc XOR crc32_bits 8 (take_bit 8 (crc XOR unsigned c))"
    using lt by (simp add: crc32_step_def crc32_index crc32tab_eq)
  moreover have "drop_bit 8 (unsigned c :: u32) = 0"
    by (rule bit_word_eqI) (auto simp: bit_simps dest: byte_bit_bound)
  ultimately show ?thesis
    by (simp add: crc32_ref_step_def crc32_bits_8_split [of "crc XOR unsigned c"])
qed

text \<open>
  C17: The table-driven CRC computes the CRC-32 of the key as it is defined bit by bit with the
  reflected polynomial \<open>0xedb88320\<close>; the hash is bits 16 to 30 of it, so it is below \<open>2 ^ 15\<close>.
\<close>

theorem hashkit_crc32_ref:
  "hashkit_crc32 key = drop_bit 16 (crc32_ref key) AND 0x7fff \<and> hashkit_crc32 key < 0x8000"
proof -
  have "crc32_step = crc32_ref_step" by (intro ext) (rule crc32_step_eq)
  then have eq: "hashkit_crc32 key = drop_bit 16 (crc32_ref key) AND 0x7fff"
    by (simp add: hashkit_crc32_def crc32_ref_def)
  have "(0x7fff :: u32) = mask 15" by (simp add: mask_eq_exp_minus_1)
  then have "hashkit_crc32 key \<le> 0x7fff" unfolding eq by (simp add: word_and_le1)
  then have "hashkit_crc32 key < 0x8000" by (rule le_less_trans) simp
  with eq show ?thesis ..
qed

end
