(* ===== verification/Hash_Blockwise.thy ===== *)
theory Hash_Blockwise
  imports Hash_Steps "HOL-Library.Signed_Division"
begin

text \<open>
  The hash functions of \<open>libhashkit\<close> that consume their key four bytes at a time: Hsieh's
  SuperFastHash (\<open>hsieh.cc\<close>), MurmurHash2 (\<open>murmur.cc\<close>) and MurmurHash3
  (\<open>murmur3.cc\<close>, \<open>murmur3_api.cc\<close>), with the feature macros \<open>HAVE_HSIEH_HASH\<close> and
  \<open>HAVE_MURMUR_HASH\<close> as boolean arguments. A \<open>memcpy\<close> of at most four bytes into a zeroed
  \<open>uint32_t\<close> is \<open>le_tail\<close>. \<open>MurmurHash3_x86_32\<close> takes its length as an \<open>int\<close>, so its key is a
  piece of memory: an address and a 32-bit word that is read as a signed number.
\<close>

subsection \<open>Hsieh\<close>

definition get16bits :: "u8 \<Rightarrow> u8 \<Rightarrow> u32" where
  "get16bits d0 d1 = push_bit 8 (unsigned d1) + unsigned d0"

fun hsieh_loop :: "bytes \<Rightarrow> u32 \<Rightarrow> bytes \<times> u32" where
  "hsieh_loop (a # b # c # d # key) hash =
     (let h1 = hash + get16bits a b;
          tmp = push_bit 11 (get16bits c d) XOR h1;
          h2 = push_bit 16 h1 XOR tmp
      in hsieh_loop key (h2 + drop_bit 11 h2))"
| "hsieh_loop key hash = (key, hash)"

fun hsieh_end :: "bytes \<Rightarrow> u32 \<Rightarrow> u32" where
  "hsieh_end [a, b, c] hash =
     (let h1 = hash + get16bits a b;
          h2 = h1 XOR push_bit 16 h1;
          h3 = h2 XOR push_bit 18 (char_u32 c)
      in h3 + drop_bit 11 h3)"
| "hsieh_end [a, b] hash =
     (let h1 = hash + get16bits a b;
          h2 = h1 XOR push_bit 11 h1
      in h2 + drop_bit 17 h2)"
| "hsieh_end [a] hash =
     (let h1 = hash + unsigned a;
          h2 = h1 XOR push_bit 10 h1
      in h2 + drop_bit 1 h2)"
| "hsieh_end _ hash = hash"

definition hsieh_avalanche :: "u32 \<Rightarrow> u32" where
  "hsieh_avalanche h0 =
     (let h1 = h0 XOR push_bit 3 h0;
          h2 = h1 + drop_bit 5 h1;
          h3 = h2 XOR push_bit 4 h2;
          h4 = h3 + drop_bit 17 h3;
          h5 = h4 XOR push_bit 25 h4
      in h5 + drop_bit 6 h5)"

definition hashkit_hsieh :: "bool \<Rightarrow> bytes \<Rightarrow> u32" where
  "hashkit_hsieh have_hsieh key =
     (if have_hsieh
      then (if key = [] then 0
            else (let (rest, hash) = hsieh_loop key 0 in hsieh_avalanche (hsieh_end rest hash)))
      else 0)"

lemma hsieh_loop_rest: "fst (hsieh_loop key hash) = tail4 key"
  by (induction key hash rule: hsieh_loop.induct) (simp_all add: Let_def)


subsection \<open>Murmur\<close>

definition murmur_m :: u32 where "murmur_m = 0x5bd1e995"

definition murmur_block :: "u32 \<Rightarrow> u32 \<Rightarrow> u32" where
  "murmur_block k0 h0 =
     (let k1 = k0 * murmur_m;
          k2 = k1 XOR drop_bit 24 k1;
          k3 = k2 * murmur_m
      in (h0 * murmur_m) XOR k3)"

fun murmur_loop :: "bytes \<Rightarrow> u32 \<Rightarrow> bytes \<times> u32" where
  "murmur_loop (a # b # c # d # data) h = murmur_loop data (murmur_block (le32 a b c d) h)"
| "murmur_loop data h = (data, h)"

definition murmur_tail :: "bytes \<Rightarrow> u32 \<Rightarrow> u32" where
  "murmur_tail data h = (if data \<noteq> [] then (h XOR le_tail data) * murmur_m else h)"

definition murmur_finish :: "u32 \<Rightarrow> u32" where
  "murmur_finish h0 =
     (let h1 = h0 XOR drop_bit 13 h0;
          h2 = h1 * murmur_m
      in h2 XOR drop_bit 15 h2)"

definition hashkit_murmur :: "bool \<Rightarrow> bytes \<Rightarrow> u32" where
  "hashkit_murmur have_murmur key =
     (if have_murmur
      then (let len = word_of_nat (length key);
                seed = 0xdeadbeef * len;
                (data, h) = murmur_loop key (seed XOR len)
            in murmur_finish (murmur_tail data h))
      else 0)"


subsection \<open>Murmur3\<close>

definition murmur3_c1 :: u32 where "murmur3_c1 = 0xcc9e2d51"
definition murmur3_c2 :: u32 where "murmur3_c2 = 0x1b873593"

text \<open>Pointers are 64 bits wide; an offset of type \<open>int\<close> is added to them with its sign.\<close>

definition ptr_add :: "nat \<Rightarrow> int \<Rightarrow> nat" where
  "ptr_add p offset = nat ((int p + offset) mod 2 ^ 64)"

definition read_mem :: "(nat \<Rightarrow> u8) \<Rightarrow> nat \<Rightarrow> nat \<Rightarrow> bytes" where
  "read_mem mem p n = map (\<lambda>j. mem (ptr_add p (int j))) [0..<n]"

definition getblock :: "(nat \<Rightarrow> u8) \<Rightarrow> nat \<Rightarrow> u32 \<Rightarrow> u32" where
  "getblock mem blocks i = le_tail (read_mem mem (ptr_add blocks (sint i * 4)) 4)"

definition fmix32 :: "u32 \<Rightarrow> u32" where
  "fmix32 h0 =
     (let h1 = h0 XOR drop_bit 16 h0;
          h2 = h1 * 0x85ebca6b;
          h3 = h2 XOR drop_bit 13 h2;
          h4 = h3 * 0xc2b2ae35
      in h4 XOR drop_bit 16 h4)"

definition murmur3_scramble :: "u32 \<Rightarrow> u32" where
  "murmur3_scramble k = rotl32 15 (k * murmur3_c1) * murmur3_c2"

definition murmur3_block :: "u32 \<Rightarrow> u32 \<Rightarrow> u32" where
  "murmur3_block k1 h1 = rotl32 13 (h1 XOR murmur3_scramble k1) * 5 + 0xe6546b64"

text \<open>
  The loop \<open>for (i = -nblocks; i; i++)\<close> over an \<open>int\<close>, with \<open>blocks\<close> the address of the tail. The
  length of a key of \<open>2 ^ 31\<close> bytes or more is negative as an \<open>int\<close> (or too small), and the loop then
  counts up from a positive number: it reads on behind the key and the increment overflows, which
  C leaves undefined and the word wraps around. The theorems are about shorter keys.
\<close>

function murmur3_body :: "(nat \<Rightarrow> u8) \<Rightarrow> nat \<Rightarrow> u32 \<Rightarrow> u32 \<Rightarrow> u32" where
  "murmur3_body mem blocks i h1 =
     (if i = 0 then h1 else murmur3_body mem blocks (i + 1) (murmur3_block (getblock mem blocks i) h1))"
  by pat_completeness auto
termination
proof (relation "measure (\<lambda>(_, _, i, _). unat (- i))", simp)
  fix i h1 :: u32 and mem :: "nat \<Rightarrow> u8" and blocks :: nat
  assume "i \<noteq> 0"
  then have "unat (- i) = Suc (unat (- i - 1))" by (simp add: unat_minus_one Suc_pred' unat_gt_0)
  then show "((mem, blocks, i + 1, murmur3_block (getblock mem blocks i) h1), (mem, blocks, i, h1))
      \<in> measure (\<lambda>(_, _, i, _). unat (- i))" by simp
qed

declare murmur3_body.simps [simp del]

definition MurmurHash3_x86_32 :: "(nat \<Rightarrow> u8) \<Rightarrow> nat \<Rightarrow> u32 \<Rightarrow> u32 \<Rightarrow> u32" where
  "MurmurHash3_x86_32 mem key len seed =
     (let nblocks = sint len sdiv 4;
          blocks = ptr_add key (nblocks * 4);
          h1 = murmur3_body mem blocks (word_of_int (- nblocks)) seed;
          h2 = h1 XOR murmur3_scramble (le_tail (read_mem mem blocks (unat (len AND 3))))
      in fmix32 (h2 XOR len))"

definition hashkit_murmur3 :: "(nat \<Rightarrow> u8) \<Rightarrow> nat \<Rightarrow> nat \<Rightarrow> u32" where
  "hashkit_murmur3 mem key len =
     MurmurHash3_x86_32 mem key (word_of_nat len) (0xdeadbeef * word_of_nat len)"


subsection \<open>Correctness\<close>

lemma murmur_loop_eq: "murmur_loop data h = (tail4 data, fold murmur_block (le_words data) h)"
  by (induction data h rule: murmur_loop.induct) simp_all

lemma mult_murmur_m_eq_iff [mix_eq]: "x * murmur_m = y * murmur_m \<longleftrightarrow> x = y"
  unfolding murmur_m_def by (rule mult_eq_iff_inverse [where n = "0xe59b19bd"]) simp

lemma mult_c1_eq_iff [mix_eq]: "x * murmur3_c1 = y * murmur3_c1 \<longleftrightarrow> x = y"
  unfolding murmur3_c1_def by (rule mult_eq_iff_inverse [where n = "0xdee13bb1"]) simp

lemma mult_c2_eq_iff [mix_eq]: "x * murmur3_c2 = y * murmur3_c2 \<longleftrightarrow> x = y"
  unfolding murmur3_c2_def by (rule mult_eq_iff_inverse [where n = "0x56ed309b"]) simp

lemma mult_5_eq_iff [mix_eq]: "x * 5 = y * 5 \<longleftrightarrow> x = (y :: u32)"
  by (rule mult_eq_iff_inverse [where n = "0xcccccccd"]) simp

lemma fmix32_eq_iff [mix_eq]: "fmix32 x = fmix32 y \<longleftrightarrow> x = y"
proof -
  have "a * 0x85ebca6b = b * 0x85ebca6b \<longleftrightarrow> a = b" for a b :: u32
    by (rule mult_eq_iff_inverse [where n = "0xa5cb9243"]) simp
  moreover have "a * 0xc2b2ae35 = b * 0xc2b2ae35 \<longleftrightarrow> a = b" for a b :: u32
    by (rule mult_eq_iff_inverse [where n = "0x7ed1b41d"]) simp
  ultimately show ?thesis by (simp add: fmix32_def Let_def mix_eq)
qed

interpretation murmur: block_hash murmur_block murmur_tail murmur_finish
  by unfold_locales
    (simp_all add: murmur_block_def murmur_tail_def murmur_finish_def Let_def mix_eq split: if_splits)

lemma hashkit_murmur_eq:
  "hashkit_murmur True key =
     murmur_finish (murmur_tail (tail4 key) (fold murmur_block (le_words key)
       ((0xdeadbeef * word_of_nat (length key)) XOR word_of_nat (length key))))"
  by (simp add: hashkit_murmur_def murmur_loop_eq Let_def)

lemma murmur3_scramble_eq_iff [mix_eq]: "murmur3_scramble x = murmur3_scramble y \<longleftrightarrow> x = y"
  by (simp add: murmur3_scramble_def mix_eq)

definition murmur3_tail :: "bytes \<Rightarrow> u32 \<Rightarrow> u32" where
  "murmur3_tail t h = h XOR murmur3_scramble (le_tail t)"

definition murmur3_finish :: "u32 \<Rightarrow> u32 \<Rightarrow> u32" where
  "murmur3_finish len h = fmix32 (h XOR len)"

interpretation murmur3: block_hash murmur3_block murmur3_tail "murmur3_finish len" for len
  by unfold_locales
    (simp_all add: murmur3_block_def murmur3_tail_def murmur3_finish_def mix_eq)

lemma ptr_add_in_range: "0 \<le> int p + offset \<Longrightarrow> int p + offset < 2 ^ 64 \<Longrightarrow> ptr_add p offset = nat (int p + offset)"
  by (simp add: ptr_add_def)

lemma sint_word_of_int_small: "- (2 ^ 31) \<le> k \<Longrightarrow> k < 2 ^ 31 \<Longrightarrow> sint (word_of_int k :: u32) = k"
  by (simp add: signed_of_int signed_take_bit_int_eq_self)

lemma sint_of_nat_small: "n < 2 ^ 31 \<Longrightarrow> sint (word_of_nat n :: u32) = int n"
  using sint_word_of_int_small [of "int n"] by simp

lemma sint_of_minus_nat: "n < 2 ^ 31 \<Longrightarrow> sint (- word_of_nat n :: u32) = - int n"
  using sint_word_of_int_small [of "- int n"] by simp

lemma and_3_mod_4: "unat (word_of_nat n AND 3 :: u32) = n mod 4"
proof -
  have "word_of_nat n AND 3 = (take_bit 2 (word_of_nat n) :: u32)" by (simp add: take_bit_eq_mask mask_numeral)
  then show ?thesis by (simp add: take_bit_eq_mod unat_mod unsigned_of_nat mod_mod_cancel)
qed

lemma read_mem_eq:
  assumes "p + n \<le> 2 ^ 64"
  shows "read_mem mem p n = mem_bytes mem p n"
proof (rule nth_equalityI)
  fix j assume "j < length (read_mem mem p n)"
  with assms show "read_mem mem p n ! j = mem_bytes mem p n ! j"
    by (simp add: read_mem_def ptr_add_in_range nat_add_distrib nat_int_add)
qed (simp add: read_mem_def)

text \<open>The block in front of the end of the blocks by \<open>n\<close> is a block of the key.\<close>

lemma getblock_eq:
  assumes "n < 2 ^ 31" and "key + n < 2 ^ 64" and "j < n div 4"
  shows "getblock mem (key + n div 4 * 4) (- word_of_nat (n div 4 - j)) = le_words (mem_bytes mem key n) ! j"
proof -
  let ?d = "n div 4 - j"
  have "?d < 2 ^ 31" using assms(1) by simp
  then have "sint (- word_of_nat ?d :: u32) = - int ?d"
    by (rule sint_of_minus_nat)
  then have "ptr_add (key + n div 4 * 4) (sint (- word_of_nat ?d :: u32) * 4) = key + 4 * j"
    using assms by (simp add: ptr_add_in_range)
  moreover have "key + 4 * j + 4 \<le> 2 ^ 64" "4 * j + 4 \<le> n" using assms by linarith+
  ultimately show ?thesis
    using assms(3) by (simp add: getblock_def read_mem_eq le_words_nth le_tail_mem_bytes_4 add.assoc)
qed

lemma murmur3_body_fold:
  assumes "n < 2 ^ 31" and "key + n < 2 ^ 64"
  shows "d \<le> n div 4 \<Longrightarrow> murmur3_body mem (key + n div 4 * 4) (- word_of_nat d) h =
    fold murmur3_block (drop (n div 4 - d) (le_words (mem_bytes mem key n))) h"
proof (induction d arbitrary: h)
  case 0
  then show ?case by (simp add: length_le_words murmur3_body.simps)
next
  case (Suc d)
  let ?ws = "le_words (mem_bytes mem key n)" and ?i = "n div 4 - Suc d"
  from Suc.prems have i: "?i < n div 4" and rest: "n div 4 - ?i = Suc d" by simp_all
  have "- word_of_nat (Suc d) \<noteq> (0 :: u32)"
    using assms(1) Suc.prems by (simp add: word_of_nat_eq_0_iff nat_dvd_not_less del: of_nat_Suc)
  moreover have "- word_of_nat (Suc d) + 1 = (- word_of_nat d :: u32)" by simp
  ultimately have "murmur3_body mem (key + n div 4 * 4) (- word_of_nat (Suc d)) h =
      murmur3_body mem (key + n div 4 * 4) (- word_of_nat d) (murmur3_block (?ws ! ?i) h)"
    using getblock_eq [OF assms i, unfolded rest] by (subst murmur3_body.simps) (simp only: if_False)
  moreover have "drop ?i ?ws = ?ws ! ?i # drop (n div 4 - d) ?ws"
    using i Suc.prems by (subst Cons_nth_drop_Suc [symmetric]) (simp_all add: length_le_words Suc_diff_Suc)
  ultimately show ?case using Suc by simp
qed

lemma hashkit_murmur3_eq:
  fixes mem :: "nat \<Rightarrow> u8"
  assumes "n < 2 ^ 31" and "key + n < 2 ^ 64"
  defines "data \<equiv> mem_bytes mem key n"
  shows "hashkit_murmur3 mem key n =
    murmur3_finish (word_of_nat n)
      (murmur3_tail (tail4 data) (fold murmur3_block (le_words data) (0xdeadbeef * word_of_nat n)))"
proof -
  have len: "sint (word_of_nat n :: u32) = int n" using assms(1) by (simp add: sint_of_nat_small)
  have blocks: "int n sdiv 4 = int (n div 4)" by (simp add: signed_divide_int_def zdiv_int sgn_if)
  have ptr: "ptr_add key (int (n div 4) * 4) = key + n div 4 * 4"
    using assms(2) by (simp add: ptr_add_in_range)
  have "unat (word_of_nat n AND 3 :: u32) = n mod 4"
    by (rule and_3_mod_4)
  moreover have "key + n div 4 * 4 + n mod 4 \<le> 2 ^ 64" using assms(2) by simp
  ultimately have "read_mem mem (key + n div 4 * 4) (unat (word_of_nat n AND 3 :: u32)) = tail4 data"
    by (simp add: read_mem_eq data_def tail4_drop drop_mem_bytes minus_div_mult_eq_mod)
  with murmur3_body_fold [OF assms(1,2) order_refl, of mem "0xdeadbeef * word_of_nat n"] show ?thesis
    by (simp add: hashkit_murmur3_def MurmurHash3_x86_32_def Let_def len blocks ptr murmur3_finish_def murmur3_tail_def data_def)
qed

text \<open>
  C19: Two keys that differ in exactly one byte never collide under MurmurHash2, nor, when they are
  shorter than \<open>2 ^ 31\<close> bytes so that their length is an \<open>int\<close>, under MurmurHash3, whether the byte lies
  in a full block or in the tail and wherever the keys are stored in the address space.
\<close>

theorem murmur_one_byte_change:
  "(hashkit_murmur True (xs @ a # ys) = hashkit_murmur True (xs @ b # ys) \<longleftrightarrow> a = b) \<and>
   (mem_bytes mem p n = xs @ a # ys \<and> mem_bytes mem' p' n = xs @ b # ys \<and>
      n < 2 ^ 31 \<and> p + n < 2 ^ 64 \<and> p' + n < 2 ^ 64 \<longrightarrow>
    (hashkit_murmur3 mem p n = hashkit_murmur3 mem' p' n \<longleftrightarrow> a = b))"
proof (intro conjI impI)
  show "hashkit_murmur True (xs @ a # ys) = hashkit_murmur True (xs @ b # ys) \<longleftrightarrow> a = b"
    by (simp add: hashkit_murmur_eq murmur.one_byte)
next
  assume asm: "mem_bytes mem p n = xs @ a # ys \<and> mem_bytes mem' p' n = xs @ b # ys \<and>
    n < 2 ^ 31 \<and> p + n < 2 ^ 64 \<and> p' + n < 2 ^ 64"
  then have "n < 2 ^ 31" "p + n < 2 ^ 64" "p' + n < 2 ^ 64" by blast+
  from hashkit_murmur3_eq [OF this(1,2), of mem] hashkit_murmur3_eq [OF this(1,3), of mem'] asm
  show "hashkit_murmur3 mem p n = hashkit_murmur3 mem' p' n \<longleftrightarrow> a = b"
    by (simp only: murmur3.one_byte)
qed

theorem murmur_one_byte_change_witness:
  "hashkit_murmur3 ((!) [1, 2, 3, 4, 5]) 0 5 \<noteq> hashkit_murmur3 ((!) [9, 9, 1, 2, 3, 4, 6]) 2 5"
proof -
  let ?m = "(!) [1, 2, 3, 4, 5 :: u8]" and ?m' = "(!) [9, 9, 1, 2, 3, 4, 6 :: u8]"
  have "mem_bytes ?m 0 5 = [1, 2, 3, 4] @ 5 # []" "mem_bytes ?m' 2 5 = [1, 2, 3, 4] @ 6 # []"
    by (simp_all add: numeral_eq_Suc)
  with murmur_one_byte_change [of "[1, 2, 3, 4]" 5 "[]" 6 ?m 0 5 ?m' 2] show ?thesis by simp
qed

end
