(* ===== verification/Hash_Jenkins.thy ===== *)
theory Hash_Jenkins
  imports Hash_Steps
begin

text \<open>
  Bob Jenkins' \<open>lookup3\<close> as \<open>jenkins.cc\<close> has it: the key is a piece of memory (an address and a
  length), read in 32-bit, 16-bit or 8-bit units according to the alignment of the address. The
  memory is a function from addresses to bytes, so the reads of the aligned branch that go beyond
  the end of the key are reads of whatever the memory holds there. The three branches are shown
  to compute one function of the bytes of the key alone.
\<close>

definition rd8 :: "(nat \<Rightarrow> u8) \<Rightarrow> nat \<Rightarrow> nat \<Rightarrow> u32" where
  "rd8 m k i = unsigned (m (k + i))"

definition rd16 :: "(nat \<Rightarrow> u8) \<Rightarrow> nat \<Rightarrow> nat \<Rightarrow> u16" where
  "rd16 m k i = unsigned (m (k + 2 * i)) OR push_bit 8 (unsigned (m (k + (2 * i + 1))))"

definition rd32 :: "(nat \<Rightarrow> u8) \<Rightarrow> nat \<Rightarrow> nat \<Rightarrow> u32" where
  "rd32 m k i = le32 (m (k + 4 * i)) (m (k + (4 * i + 1))) (m (k + (4 * i + 2))) (m (k + (4 * i + 3)))"

definition JENKINS_INITVAL :: u32 where "JENKINS_INITVAL = 13"

type_synonym abc = "u32 \<times> u32 \<times> u32"

fun jenkins_mix :: "abc \<Rightarrow> abc" where
  "jenkins_mix (a0, b0, c0) =
     (let a1 = a0 - c0; a2 = a1 XOR rotl32 4 c0; c1 = c0 + b0;
          b1 = b0 - a2; b2 = b1 XOR rotl32 6 a2; a3 = a2 + c1;
          c2 = c1 - b2; c3 = c2 XOR rotl32 8 b2; b3 = b2 + a3;
          a4 = a3 - c3; a5 = a4 XOR rotl32 16 c3; c4 = c3 + b3;
          b4 = b3 - a5; b5 = b4 XOR rotl32 19 a5; a6 = a5 + c4;
          c5 = c4 - b5; c6 = c5 XOR rotl32 4 b5; b6 = b5 + a6
      in (a6, b6, c6))"

fun jenkins_final :: "abc \<Rightarrow> u32" where
  "jenkins_final (a0, b0, c0) =
     (let c1 = c0 XOR b0; c2 = c1 - rotl32 14 b0; a1 = a0 XOR c2;
          a2 = a1 - rotl32 11 c2; b1 = b0 XOR a2; b2 = b1 - rotl32 25 a2;
          c3 = c2 XOR b2; c4 = c3 - rotl32 16 b2; a3 = a2 XOR c4;
          a4 = a3 - rotl32 4 c4; b3 = b2 XOR a4; b4 = b3 - rotl32 14 a4;
          c5 = c4 XOR b4; c6 = c5 - rotl32 24 b4
      in c6)"

declare jenkins_mix.simps [simp del]
declare jenkins_final.simps [simp del]

text \<open>
  Each branch is a loop over the blocks of twelve bytes, which returns the address and the length
  that are left, and a \<open>switch\<close> over the last block; \<^const>\<open>None\<close> is its early \<open>return c\<close>.
\<close>

fun jenkins_loop32 :: "(nat \<Rightarrow> u8) \<Rightarrow> nat \<Rightarrow> nat \<Rightarrow> abc \<Rightarrow> nat \<times> nat \<times> abc" where
  "jenkins_loop32 m k n (a, b, c) =
     (if n > 12
      then jenkins_loop32 m (k + 12) (n - 12)
             (jenkins_mix (a + rd32 m k 0, b + rd32 m k 1, c + rd32 m k 2))
      else (k, n, (a, b, c)))"

fun jenkins_loop16 :: "(nat \<Rightarrow> u8) \<Rightarrow> nat \<Rightarrow> nat \<Rightarrow> abc \<Rightarrow> nat \<times> nat \<times> abc" where
  "jenkins_loop16 m k n (a, b, c) =
     (if n > 12
      then jenkins_loop16 m (k + 12) (n - 12)
             (jenkins_mix
               (a + (unsigned (rd16 m k 0) + push_bit 16 (unsigned (rd16 m k 1))),
                b + (unsigned (rd16 m k 2) + push_bit 16 (unsigned (rd16 m k 3))),
                c + (unsigned (rd16 m k 4) + push_bit 16 (unsigned (rd16 m k 5)))))
      else (k, n, (a, b, c)))"

fun jenkins_loop8 :: "(nat \<Rightarrow> u8) \<Rightarrow> nat \<Rightarrow> nat \<Rightarrow> abc \<Rightarrow> nat \<times> nat \<times> abc" where
  "jenkins_loop8 m k n (a, b, c) =
     (if n > 12
      then jenkins_loop8 m (k + 12) (n - 12)
             (jenkins_mix
               (a + rd8 m k 0 + push_bit 8 (rd8 m k 1) + push_bit 16 (rd8 m k 2) + push_bit 24 (rd8 m k 3),
                b + rd8 m k 4 + push_bit 8 (rd8 m k 5) + push_bit 16 (rd8 m k 6) + push_bit 24 (rd8 m k 7),
                c + rd8 m k 8 + push_bit 8 (rd8 m k 9) + push_bit 16 (rd8 m k 10) + push_bit 24 (rd8 m k 11)))
      else (k, n, (a, b, c)))"

declare jenkins_loop32.simps [simp del]
declare jenkins_loop16.simps [simp del]
declare jenkins_loop8.simps [simp del]

fun jenkins_last32 :: "(nat \<Rightarrow> u8) \<Rightarrow> nat \<Rightarrow> nat \<Rightarrow> abc \<Rightarrow> abc option" where
  "jenkins_last32 m k n (a, b, c) =
     (let w0 = rd32 m k 0; w1 = rd32 m k 1; w2 = rd32 m k 2 in
      if n = 12 then Some (a + w0, b + w1, c + w2)
      else if n = 11 then Some (a + w0, b + w1, c + (w2 AND 0xffffff))
      else if n = 10 then Some (a + w0, b + w1, c + (w2 AND 0xffff))
      else if n = 9 then Some (a + w0, b + w1, c + (w2 AND 0xff))
      else if n = 8 then Some (a + w0, b + w1, c)
      else if n = 7 then Some (a + w0, b + (w1 AND 0xffffff), c)
      else if n = 6 then Some (a + w0, b + (w1 AND 0xffff), c)
      else if n = 5 then Some (a + w0, b + (w1 AND 0xff), c)
      else if n = 4 then Some (a + w0, b, c)
      else if n = 3 then Some (a + (w0 AND 0xffffff), b, c)
      else if n = 2 then Some (a + (w0 AND 0xffff), b, c)
      else if n = 1 then Some (a + (w0 AND 0xff), b, c)
      else None)"

fun jenkins_last16 :: "(nat \<Rightarrow> u8) \<Rightarrow> nat \<Rightarrow> nat \<Rightarrow> abc \<Rightarrow> abc option" where
  "jenkins_last16 m k n (a, b, c) =
     (let h = (\<lambda>i. unsigned (rd16 m k i) :: u32);
          w = (\<lambda>i. h i + push_bit 16 (h (i + 1))) in
      if n = 12 then Some (a + w 0, b + w 2, c + w 4)
      else if n = 11 then Some (a + w 0, b + w 2, c + push_bit 16 (rd8 m k 10) + h 4)
      else if n = 10 then Some (a + w 0, b + w 2, c + h 4)
      else if n = 9 then Some (a + w 0, b + w 2, c + rd8 m k 8)
      else if n = 8 then Some (a + w 0, b + w 2, c)
      else if n = 7 then Some (a + w 0, b + push_bit 16 (rd8 m k 6) + h 2, c)
      else if n = 6 then Some (a + w 0, b + h 2, c)
      else if n = 5 then Some (a + w 0, b + rd8 m k 4, c)
      else if n = 4 then Some (a + w 0, b, c)
      else if n = 3 then Some (a + push_bit 16 (rd8 m k 2) + h 0, b, c)
      else if n = 2 then Some (a + h 0, b, c)
      else if n = 1 then Some (a + rd8 m k 0, b, c)
      else None)"

text \<open>
  The third \<open>switch\<close> falls through from every case to the next: byte \<open>i\<close> is added when the length
  is at least \<open>Suc i\<close>, the highest one first.
\<close>

fun jenkins_last8 :: "(nat \<Rightarrow> u8) \<Rightarrow> nat \<Rightarrow> nat \<Rightarrow> abc \<Rightarrow> abc option" where
  "jenkins_last8 m k n (a, b, c) =
     (let add = (\<lambda>i s x. if n \<ge> Suc i then x + push_bit s (rd8 m k i) else x) in
      if n = 0 \<or> n > 12 then None
      else Some (add 0 0 (add 1 8 (add 2 16 (add 3 24 a))),
                 add 4 0 (add 5 8 (add 6 16 (add 7 24 b))),
                 add 8 0 (add 9 8 (add 10 16 (add 11 24 c)))))"

fun jenkins_return :: "abc \<Rightarrow> abc option \<Rightarrow> u32" where
  "jenkins_return (a, b, c) None = c"
| "jenkins_return _ (Some abc) = jenkins_final abc"

definition hashkit_jenkins :: "(nat \<Rightarrow> u8) \<Rightarrow> nat \<Rightarrow> nat \<Rightarrow> u32" where
  "hashkit_jenkins m key len =
     (let i = 0xdeadbeef + word_of_nat len + JENKINS_INITVAL in
      if key mod 4 = 0 then
        let (k, n, abc) = jenkins_loop32 m key len (i, i, i)
        in jenkins_return abc (jenkins_last32 m k n abc)
      else if key mod 2 = 0 then
        let (k, n, abc) = jenkins_loop16 m key len (i, i, i)
        in jenkins_return abc (jenkins_last16 m k n abc)
      else
        let (k, n, abc) = jenkins_loop8 m key len (i, i, i)
        in jenkins_return abc (jenkins_last8 m k n abc))"


subsection \<open>The reference: a function of the bytes of the key\<close>

fun jenkins_add :: "bytes \<Rightarrow> abc \<Rightarrow> abc" where
  "jenkins_add xs (a, b, c) = (a + le_tail xs, b + le_tail (drop 4 xs), c + le_tail (drop 8 xs))"

function jenkins_ref_state :: "bytes \<Rightarrow> abc \<Rightarrow> u32" where
  "jenkins_ref_state xs abc =
     (if length xs > 12 then jenkins_ref_state (drop 12 xs) (jenkins_mix (jenkins_add xs abc))
      else if xs = [] then snd (snd abc)
      else jenkins_final (jenkins_add xs abc))"
  by pat_completeness auto
termination by (relation "measure (\<lambda>(xs, _). length xs)") auto

declare jenkins_ref_state.simps [simp del]

definition jenkins_ref :: "bytes \<Rightarrow> u32" where
  "jenkins_ref key =
     (let i = 0xdeadbeef + word_of_nat (length key) + JENKINS_INITVAL
      in jenkins_ref_state key (i, i, i))"

lemma rd16_bytes:
  "(unsigned (rd16 m k i) :: u32) = unsigned (m (k + 2 * i)) + push_bit 8 (unsigned (m (k + (2 * i + 1))))"
proof -
  have "(unsigned (rd16 m k i) :: u32) = le32 (m (k + 2 * i)) (m (k + (2 * i + 1))) 0 0"
    by (rule bit_word_eqI)
      (auto simp: rd16_def bit_simps bit_le32 not_less dest: byte_bit_bound)
  then show ?thesis by (simp add: le32_sum)
qed

lemma jenkins_add_mem_bytes:
  "n \<ge> 12 \<Longrightarrow> jenkins_add (mem_bytes m k n) (a, b, c) = (a + rd32 m k 0, b + rd32 m k 1, c + rd32 m k 2)"
  by (simp add: rd32_def drop_mem_bytes le_tail_mem_bytes_4 ac_simps)

lemma rd32_units:
  "rd32 m k 0 = unsigned (rd16 m k 0) + push_bit 16 (unsigned (rd16 m k 1))"
  "rd32 m k 1 = unsigned (rd16 m k 2) + push_bit 16 (unsigned (rd16 m k 3))"
  "rd32 m k 2 = unsigned (rd16 m k 4) + push_bit 16 (unsigned (rd16 m k 5))"
  "rd32 m k 0 = rd8 m k 0 + push_bit 8 (rd8 m k 1) + push_bit 16 (rd8 m k 2) + push_bit 24 (rd8 m k 3)"
  "rd32 m k 1 = rd8 m k 4 + push_bit 8 (rd8 m k 5) + push_bit 16 (rd8 m k 6) + push_bit 24 (rd8 m k 7)"
  "rd32 m k 2 = rd8 m k 8 + push_bit 8 (rd8 m k 9) + push_bit 16 (rd8 m k 10) + push_bit 24 (rd8 m k 11)"
  by (simp_all add: rd32_def rd8_def rd16_bytes le32_sum push_bit_add ac_simps del: One_nat_def add_2_eq_Suc add_2_eq_Suc')

text \<open>The last block ends in its first, second or third word, or is whole.\<close>

lemma last_block_cases:
  "n \<le> 12 \<Longrightarrow> (n = 0 \<or> n = 1 \<or> n = 2 \<or> n = 3) \<or> (n = 4 \<or> n = 5 \<or> n = 6 \<or> n = 7) \<or>
     (n = 8 \<or> n = 9 \<or> n = 10 \<or> n = 11) \<or> n = (12 :: nat)"
  by arith

lemma jenkins_last32_eq:
  assumes "n \<le> 12"
  shows "jenkins_last32 m k n abc = (if n = 0 then None else Some (jenkins_add (mem_bytes m k n) abc))"
proof -
  obtain a b c where abc: "abc = (a, b, c)" by (cases abc)
  from last_block_cases [OF assms] show ?thesis
    unfolding abc
    by (elim disjE) (simp_all add: Let_def rd32_def drop_mem_bytes le_tail_mem_bytes le32_mask add_ac del: One_nat_def add_2_eq_Suc add_2_eq_Suc')
qed

lemma jenkins_last16_eq:
  assumes "n \<le> 12"
  shows "jenkins_last16 m k n abc = (if n = 0 then None else Some (jenkins_add (mem_bytes m k n) abc))"
proof -
  obtain a b c where abc: "abc = (a, b, c)" by (cases abc)
  from last_block_cases [OF assms] show ?thesis
    unfolding abc
    by (elim disjE)
      (simp_all add: Let_def rd8_def rd16_bytes drop_mem_bytes le_tail_mem_bytes le32_sum push_bit_add ac_simps del: One_nat_def add_2_eq_Suc add_2_eq_Suc')
qed

lemma jenkins_last8_eq:
  assumes "n \<le> 12"
  shows "jenkins_last8 m k n abc = (if n = 0 then None else Some (jenkins_add (mem_bytes m k n) abc))"
proof -
  obtain a b c where abc: "abc = (a, b, c)" by (cases abc)
  from last_block_cases [OF assms] show ?thesis
    unfolding abc
    by (elim disjE)
      (simp_all add: Let_def rd8_def drop_mem_bytes le_tail_mem_bytes le32_sum push_bit_add ac_simps del: One_nat_def add_2_eq_Suc add_2_eq_Suc')
qed

lemma jenkins_loops_eq:
  "jenkins_loop16 m k n abc = jenkins_loop32 m k n abc"
  "jenkins_loop8 m k n abc = jenkins_loop32 m k n abc"
proof -
  show "jenkins_loop16 m k n abc = jenkins_loop32 m k n abc"
    by (induction m k n abc rule: jenkins_loop32.induct)
      (subst jenkins_loop16.simps, subst jenkins_loop32.simps, simp add: rd32_units(1-3) del: One_nat_def add_2_eq_Suc add_2_eq_Suc')
  show "jenkins_loop8 m k n abc = jenkins_loop32 m k n abc"
    by (induction m k n abc rule: jenkins_loop32.induct)
      (subst jenkins_loop8.simps, subst jenkins_loop32.simps, simp add: rd32_units(4-6) add.assoc del: One_nat_def add_2_eq_Suc add_2_eq_Suc')
qed

lemma jenkins_loop32_ref:
  "jenkins_loop32 m k n abc = (k', n', abc') \<Longrightarrow>
     n' \<le> 12 \<and> jenkins_ref_state (mem_bytes m k n) abc = jenkins_ref_state (mem_bytes m k' n') abc'"
proof (induction m k n abc rule: jenkins_loop32.induct)
  case (1 m k n a b c)
  show ?case
  proof (cases "n > 12")
    case True
    with 1 show ?thesis
      by (subst jenkins_ref_state.simps)
        (simp add: jenkins_loop32.simps [of _ _ n] jenkins_add_mem_bytes drop_mem_bytes del: jenkins_add.simps)
  next
    case False
    with 1 show ?thesis by (simp add: jenkins_loop32.simps)
  qed
qed

lemma jenkins_return_ref:
  assumes "n \<le> 12"
  shows "jenkins_return abc (if n = 0 then None else Some (jenkins_add (mem_bytes m k n) abc)) =
    jenkins_ref_state (mem_bytes m k n) abc"
  using assms by (cases abc) (simp add: jenkins_ref_state.simps del: jenkins_add.simps)

text \<open>The whole function is the reference, whatever the alignment and the memory around the key.\<close>

lemma hashkit_jenkins_ref: "hashkit_jenkins m key len = jenkins_ref (mem_bytes m key len)"
proof -
  let ?i = "0xdeadbeef + word_of_nat len + JENKINS_INITVAL"
  obtain k n abc where loop: "jenkins_loop32 m key len (?i, ?i, ?i) = (k, n, abc)"
    by (metis prod_cases3)
  from jenkins_loop32_ref [OF this] have n: "n \<le> 12"
    and ref: "jenkins_ref_state (mem_bytes m key len) (?i, ?i, ?i) = jenkins_ref_state (mem_bytes m k n) abc"
    by simp_all
  show ?thesis
    unfolding hashkit_jenkins_def jenkins_ref_def Let_def jenkins_loops_eq loop length_mem_bytes ref
    by (simp add: n jenkins_last32_eq jenkins_last16_eq jenkins_last8_eq jenkins_return_ref
        del: jenkins_last32.simps jenkins_last16.simps jenkins_last8.simps jenkins_add.simps)
qed

text \<open>
  C16: Whatever the alignment of the key, and whatever the memory holds behind it, the hash is the
  reference function of the bytes of the key: the 32-bit, 16-bit and 8-bit branches agree, and the
  words the aligned branch reads beyond the end of the key do not influence the result.
\<close>

theorem hashkit_jenkins_alignment:
  "hashkit_jenkins m key len = jenkins_ref (mem_bytes m key len)"
  by (rule hashkit_jenkins_ref)

end
