(* ===== verification/Hash_MD5.thy ===== *)
theory Hash_MD5
  imports Prelude
begin

text \<open>
  The MD5 implementation of \<open>md5.cc\<close>: the context with its four state words, the 64-bit bit
  count kept in two words and the 64-byte buffer, the streaming \<open>MD5Update\<close>, \<open>MD5Final\<close> and the
  32-bit hash \<open>hashkit_md5\<close> taken from the digest. The streaming code is shown to refine
  appending to a message, and the digest to be that of the padded message cut into blocks.
\<close>

subsection \<open>Context and tables\<close>

type_synonym md5_state = "u32 \<times> u32 \<times> u32 \<times> u32"

record MD5_CTX =
  state :: md5_state
  count0 :: u32
  count1 :: u32
  buffer :: bytes

definition PADDING :: bytes where
  "PADDING = 0x80 # replicate 63 0"

datatype md5_round = FF | GG | HH | II

datatype md5_reg = RA | RB | RC | RD

fun md5_fun :: "md5_round \<Rightarrow> u32 \<Rightarrow> u32 \<Rightarrow> u32 \<Rightarrow> u32" where
  "md5_fun FF x y z = (x AND y) OR (NOT x AND z)"
| "md5_fun GG x y z = (x AND z) OR (y AND NOT z)"
| "md5_fun HH x y z = x XOR y XOR z"
| "md5_fun II x y z = y XOR (x OR NOT z)"

text \<open>
  One macro call \<open>FF(a, b, c, d, x, s, ac)\<close> and so on; the register it assigns tells the order of
  the other three.
\<close>

definition md5_macro :: "md5_round \<Rightarrow> u32 \<Rightarrow> u32 \<Rightarrow> u32 \<Rightarrow> u32 \<Rightarrow> u32 \<Rightarrow> nat \<Rightarrow> u32 \<Rightarrow> u32" where
  "md5_macro f a b c d x s ac = rotl32 s (a + (md5_fun f b c d + x + ac)) + b"

type_synonym md5_op = "md5_round \<times> md5_reg \<times> nat \<times> nat \<times> u32"

fun md5_op :: "u32 list \<Rightarrow> md5_op \<Rightarrow> md5_state \<Rightarrow> md5_state" where
  "md5_op x (f, RA, k, s, ac) (a, b, c, d) = (md5_macro f a b c d (x ! k) s ac, b, c, d)"
| "md5_op x (f, RD, k, s, ac) (a, b, c, d) = (a, b, c, md5_macro f d a b c (x ! k) s ac)"
| "md5_op x (f, RC, k, s, ac) (a, b, c, d) = (a, b, md5_macro f c d a b (x ! k) s ac, d)"
| "md5_op x (f, RB, k, s, ac) (a, b, c, d) = (a, md5_macro f b c d a (x ! k) s ac, c, d)"

definition md5_ops :: "md5_op list" where
  "md5_ops =
    [(FF, RA, 0, 7, 0xd76aa478), (FF, RD, 1, 12, 0xe8c7b756),
     (FF, RC, 2, 17, 0x242070db), (FF, RB, 3, 22, 0xc1bdceee),
     (FF, RA, 4, 7, 0xf57c0faf), (FF, RD, 5, 12, 0x4787c62a),
     (FF, RC, 6, 17, 0xa8304613), (FF, RB, 7, 22, 0xfd469501),
     (FF, RA, 8, 7, 0x698098d8), (FF, RD, 9, 12, 0x8b44f7af),
     (FF, RC, 10, 17, 0xffff5bb1), (FF, RB, 11, 22, 0x895cd7be),
     (FF, RA, 12, 7, 0x6b901122), (FF, RD, 13, 12, 0xfd987193),
     (FF, RC, 14, 17, 0xa679438e), (FF, RB, 15, 22, 0x49b40821),
     (GG, RA, 1, 5, 0xf61e2562), (GG, RD, 6, 9, 0xc040b340),
     (GG, RC, 11, 14, 0x265e5a51), (GG, RB, 0, 20, 0xe9b6c7aa),
     (GG, RA, 5, 5, 0xd62f105d), (GG, RD, 10, 9, 0x2441453),
     (GG, RC, 15, 14, 0xd8a1e681), (GG, RB, 4, 20, 0xe7d3fbc8),
     (GG, RA, 9, 5, 0x21e1cde6), (GG, RD, 14, 9, 0xc33707d6),
     (GG, RC, 3, 14, 0xf4d50d87), (GG, RB, 8, 20, 0x455a14ed),
     (GG, RA, 13, 5, 0xa9e3e905), (GG, RD, 2, 9, 0xfcefa3f8),
     (GG, RC, 7, 14, 0x676f02d9), (GG, RB, 12, 20, 0x8d2a4c8a),
     (HH, RA, 5, 4, 0xfffa3942), (HH, RD, 8, 11, 0x8771f681),
     (HH, RC, 11, 16, 0x6d9d6122), (HH, RB, 14, 23, 0xfde5380c),
     (HH, RA, 1, 4, 0xa4beea44), (HH, RD, 4, 11, 0x4bdecfa9),
     (HH, RC, 7, 16, 0xf6bb4b60), (HH, RB, 10, 23, 0xbebfbc70),
     (HH, RA, 13, 4, 0x289b7ec6), (HH, RD, 0, 11, 0xeaa127fa),
     (HH, RC, 3, 16, 0xd4ef3085), (HH, RB, 6, 23, 0x4881d05),
     (HH, RA, 9, 4, 0xd9d4d039), (HH, RD, 12, 11, 0xe6db99e5),
     (HH, RC, 15, 16, 0x1fa27cf8), (HH, RB, 2, 23, 0xc4ac5665),
     (II, RA, 0, 6, 0xf4292244), (II, RD, 7, 10, 0x432aff97),
     (II, RC, 14, 15, 0xab9423a7), (II, RB, 5, 21, 0xfc93a039),
     (II, RA, 12, 6, 0x655b59c3), (II, RD, 3, 10, 0x8f0ccc92),
     (II, RC, 10, 15, 0xffeff47d), (II, RB, 1, 21, 0x85845dd1),
     (II, RA, 8, 6, 0x6fa87e4f), (II, RD, 15, 10, 0xfe2ce6e0),
     (II, RC, 6, 15, 0xa3014314), (II, RB, 13, 21, 0x4e0811a1),
     (II, RA, 4, 6, 0xf7537e82), (II, RD, 11, 10, 0xbd3af235),
     (II, RC, 2, 15, 0x2ad7d2bb), (II, RB, 9, 21, 0xeb86d391)]"


subsection \<open>Encoding\<close>

primrec Encode :: "u32 list \<Rightarrow> bytes" where
  "Encode [] = []"
| "Encode (w # ws) = byte_of 0 w # byte_of 1 w # byte_of 2 w # byte_of 3 w # Encode ws"

fun Decode :: "bytes \<Rightarrow> u32 list" where
  "Decode (a # b # c # d # xs) = le32 a b c d # Decode xs"
| "Decode _ = []"

definition MD5Transform :: "md5_state \<Rightarrow> bytes \<Rightarrow> md5_state" where
  "MD5Transform st block =
     (let x = Decode (take 64 block);
          (a, b, c, d) = fold (md5_op x) md5_ops st;
          (s0, s1, s2, s3) = st
      in (s0 + a, s1 + b, s2 + c, s3 + d))"


subsection \<open>Init, update, final\<close>

definition MD5Init :: "MD5_CTX \<Rightarrow> MD5_CTX" where
  "MD5Init ctx = ctx\<lparr>count0 := 0, count1 := 0,
     state := (0x67452301, 0xefcdab89, 0x98badcfe, 0x10325476)\<rparr>"

text \<open>
  The loop \<open>for (i = partLen; i + 63 < inputLen; i += 64)\<close>. The conjunct \<open>i \<le> i + 63\<close> says that
  \<open>i + 63\<close> has not wrapped around; \<open>md5_guard\<close> below shows that it never does in the calls the
  file makes, where the loop variable is a multiple of 64 or the input is short.
\<close>

function md5_update_loop :: "bytes \<Rightarrow> u32 \<Rightarrow> u32 \<Rightarrow> md5_state \<Rightarrow> md5_state \<times> u32" where
  "md5_update_loop input inputLen i st =
     (if i + 63 < inputLen \<and> i \<le> i + 63
      then md5_update_loop input inputLen (i + 64) (MD5Transform st (drop (unat i) input))
      else (st, i))"
  by pat_completeness auto
termination
proof (relation "measure (\<lambda>(_, n, i, _). unat n - unat i)", simp)
  fix inputLen i :: u32
  assume asm: "i + 63 < inputLen \<and> i \<le> i + 63"
  have "unat (i + 63) = unat i + 63"
    using asm by (simp add: unat_plus_simple)
  moreover have "unat (i + 63) < unat inputLen" using asm by (simp add: word_less_nat_alt)
  moreover have "unat inputLen < 2 ^ 32" using unsigned_less [of inputLen] by simp
  ultimately have "unat i < unat inputLen" "unat i + 64 < 2 ^ 32 + 1" by simp_all
  moreover have "unat (i + 64) = (unat i + 64) mod 2 ^ 32" by (simp add: unat_word_ariths)
  ultimately show "((input, inputLen, i + 64, st'), (input, inputLen, i, st)) \<in>
      measure (\<lambda>(_, n, i, _). unat n - unat i)" for input st st'
    using \<open>unat (i + 63) < unat inputLen\<close> \<open>unat (i + 63) = unat i + 63\<close> \<open>unat inputLen < 2 ^ 32\<close>
    by simp
qed

declare md5_update_loop.simps [simp del]

definition MD5Update :: "MD5_CTX \<Rightarrow> bytes \<Rightarrow> u32 \<Rightarrow> MD5_CTX" where
  "MD5Update ctx input inputLen =
     (let idx = drop_bit 3 (count0 ctx) AND 0x3f;
          bits = push_bit 3 inputLen;
          c0 = count0 ctx + bits;
          c1 = (if c0 < bits then count1 ctx + 1 else count1 ctx) + drop_bit 29 inputLen;
          partLen = 64 - idx;
          ctx = ctx\<lparr>count0 := c0, count1 := c1\<rparr>
      in if inputLen \<ge> partLen then
           let buf = memcpy_at (buffer ctx) (unat idx) input (unat partLen);
               (st, i) = md5_update_loop input inputLen partLen (MD5Transform (state ctx) buf)
           in ctx\<lparr>state := st, buffer := memcpy_at buf 0 (drop (unat i) input) (unat (inputLen - i))\<rparr>
         else
           ctx\<lparr>buffer := memcpy_at (buffer ctx) (unat idx) input (unat inputLen)\<rparr>)"

definition md5_state_list :: "md5_state \<Rightarrow> u32 list" where
  "md5_state_list st = (case st of (a, b, c, d) \<Rightarrow> [a, b, c, d])"

definition MD5Final :: "MD5_CTX \<Rightarrow> bytes \<times> MD5_CTX" where
  "MD5Final ctx =
     (let bits = Encode [count0 ctx, count1 ctx];
          idx = drop_bit 3 (count0 ctx) AND 0x3f;
          padLen = (if idx < 56 then 56 - idx else 120 - idx);
          ctx = MD5Update ctx PADDING padLen;
          ctx = MD5Update ctx bits 8
      in (Encode (md5_state_list (state ctx)),
          \<lparr>state = (0, 0, 0, 0), count0 = 0, count1 = 0, buffer = replicate 64 0\<rparr>))"

text \<open>The context is an uninitialised local variable of \<open>md5_signature\<close>: its value is an argument.\<close>

definition md5_signature :: "MD5_CTX \<Rightarrow> bytes \<Rightarrow> u32 \<Rightarrow> bytes" where
  "md5_signature my_md5 key len = fst (MD5Final (MD5Update (MD5Init my_md5) key len))"

definition hashkit_md5 :: "MD5_CTX \<Rightarrow> bytes \<Rightarrow> u32" where
  "hashkit_md5 my_md5 key =
     (let results = md5_signature my_md5 key (word_of_nat (length key))
      in push_bit 24 (unsigned (results ! 3 AND 0xff)) OR push_bit 16 (unsigned (results ! 2 AND 0xff))
         OR push_bit 8 (unsigned (results ! 1 AND 0xff)) OR unsigned (results ! 0 AND 0xff))"


subsection \<open>Encode and Decode\<close>

lemma Decode_Encode [simp]: "Decode (Encode ws) = ws"
  by (induction ws) simp_all

lemma Encode_Decode: "4 dvd length xs \<Longrightarrow> Encode (Decode xs) = xs"
proof (induction xs rule: Decode.induct)
  case (1 a b c d xs)
  have "4 dvd Suc (Suc (Suc (Suc n))) \<longleftrightarrow> 4 dvd n" for n :: nat by presburger
  with 1 show ?case by simp
qed (simp_all, presburger+)

lemma length_Encode [simp]: "length (Encode ws) = 4 * length ws"
  by (induction ws) simp_all


subsection \<open>The reference: a padded message cut into blocks\<close>

definition md5_init :: md5_state where
  "md5_init = (0x67452301, 0xefcdab89, 0x98badcfe, 0x10325476)"

definition md5_fold :: "md5_state \<Rightarrow> bytes \<Rightarrow> md5_state" where
  "md5_fold st xs = fold (\<lambda>b s. MD5Transform s b) (chunks 64 xs) st"

definition md5_pad :: "bytes \<Rightarrow> bytes" where
  "md5_pad msg = 0x80 # replicate ((119 - length msg mod 64) mod 64) 0 @
     Encode [word_of_nat (8 * length msg), word_of_nat (8 * length msg div 2 ^ 32)]"

definition md5_ref :: "bytes \<Rightarrow> bytes" where
  "md5_ref msg = Encode (md5_state_list (md5_fold md5_init (msg @ md5_pad msg)))"

lemma MD5Transform_take [simp]: "MD5Transform st (take 64 xs) = MD5Transform st xs"
  by (simp add: MD5Transform_def)

lemma md5_fold_short [simp]: "length xs < 64 \<Longrightarrow> md5_fold st xs = st"
  by (simp add: md5_fold_def)

lemma md5_fold_append: "64 dvd length xs \<Longrightarrow> md5_fold st (xs @ ys) = md5_fold (md5_fold st xs) ys"
  by (simp add: md5_fold_def chunks_append)

lemma md5_fold_block: "length b = 64 \<Longrightarrow> md5_fold st (b @ ys) = md5_fold (MD5Transform st b) ys"
  by (simp add: md5_fold_def chunks_first)

lemma md5_fold_full: "md5_fold st (take (length xs div 64 * 64) xs) = md5_fold st xs"
  by (simp add: md5_fold_def chunks_full)

lemma md5_fold_tail:
  "md5_fold st (xs @ ys) = md5_fold (md5_fold st xs) (drop (length xs div 64 * 64) xs @ ys)"
proof -
  let ?n = "length xs div 64 * 64"
  have "md5_fold st (take ?n xs @ drop ?n xs @ ys) = md5_fold (md5_fold st (take ?n xs)) (drop ?n xs @ ys)"
    by (rule md5_fold_append) (simp add: min_absorb2)
  then show ?thesis by (simp only: md5_fold_full append_assoc [symmetric] append_take_drop_id)
qed


subsection \<open>The update loop\<close>

lemma md5_guard:
  assumes "unat i \<le> unat n" and "64 dvd unat i \<or> unat n + 64 < 2 ^ 32"
  shows "(i + 63 < n \<and> i \<le> i + 63) = (unat i + 64 \<le> unat (n :: u32))"
    and "i + 63 < n \<longleftrightarrow> i + 63 < n \<and> i \<le> i + 63"
proof -
  have n: "unat n < 4294967296" using unsigned_less [of n] by simp
  have mult: "64 dvd x \<Longrightarrow> x < 4294967296 \<Longrightarrow> x + 63 < 4294967296" for x :: nat
    by (auto elim!: dvdE)
  have "unat i < 4294967296" using n assms(1) by simp
  with assms have "unat i + 63 < 4294967296" using mult [of "unat i"] by (elim disjE) simp_all
  then have "unat (i + 63) = unat i + 63" by (simp add: unat_word_ariths)
  then show "(i + 63 < n \<and> i \<le> i + 63) = (unat i + 64 \<le> unat n)"
    and "i + 63 < n \<longleftrightarrow> i + 63 < n \<and> i \<le> i + 63"
    by (auto simp: word_less_nat_alt word_le_nat_alt)
qed

lemma md5_update_loop_eq:
  assumes "unat i \<le> unat n" and "unat n \<le> length input" and "64 dvd unat i \<or> unat n + 64 < 2 ^ 32"
  shows "\<exists>i'. md5_update_loop input n i st =
      (md5_fold st (take (unat n - unat i) (drop (unat i) input)), i') \<and>
    unat i' = unat i + (unat n - unat i) div 64 * 64"
  using assms
proof (induction input n i st rule: md5_update_loop.induct)
  case (1 input n i st)
  note guard = md5_guard(1) [OF "1.prems"(1,3)]
  let ?rest = "take (unat n - unat i) (drop (unat i) input)"
  show ?case
  proof (cases "unat i + 64 \<le> unat n")
    case True
    have "unat n < 2 ^ 32" using unsigned_less [of n] by simp
    with True have i64: "unat (i + 64) = unat i + 64" by (simp add: unat_word_ariths)
    let ?b = "take 64 (drop (unat i) input)"
    let ?next = "take (unat n - unat (i + 64)) (drop (unat (i + 64)) input)"
    have "?rest = ?b @ ?next"
      using True i64 take_add [of 64 "unat n - (unat i + 64)" "drop (unat i) input"]
      by (simp add: add.commute)
    with True "1.prems"(2) have fold: "md5_fold st ?rest = md5_fold (MD5Transform st ?b) ?next"
      by (simp add: md5_fold_block)
    have "unat (i + 64) \<le> unat n" "64 dvd unat (i + 64) \<or> unat n + 64 < 2 ^ 32"
      using True "1.prems"(3) by (auto simp: i64)
    with "1.IH" guard True "1.prems"(2) obtain i' where
      "md5_update_loop input n (i + 64) (MD5Transform st (drop (unat i) input)) =
         (md5_fold (MD5Transform st (drop (unat i) input)) ?next, i')"
      "unat i' = unat (i + 64) + (unat n - unat (i + 64)) div 64 * 64"
      by blast
    moreover have "unat i + 64 + (unat n - (unat i + 64)) div 64 * 64 =
        unat i + (unat n - unat i) div 64 * 64"
      using True by (simp add: le_div_geq)
    ultimately show ?thesis
      using guard True fold by (subst md5_update_loop.simps) (simp add: i64)
  next
    case False
    with guard have "md5_update_loop input n i st = (st, i)"
      by (subst md5_update_loop.simps) (simp only: if_False)
    with False show ?thesis by (simp add: "1.prems" not_le)
  qed
qed


subsection \<open>Updating refines appending\<close>

definition md5_absorbed :: "MD5_CTX \<Rightarrow> bytes \<Rightarrow> bool" where
  "md5_absorbed ctx m \<longleftrightarrow>
     state ctx = md5_fold md5_init m \<and> length (buffer ctx) = 64 \<and>
     take (length m mod 64) (buffer ctx) = drop (length m div 64 * 64) m \<and>
     count0 ctx = word_of_nat (8 * length m) \<and> count1 ctx = word_of_nat (8 * length m div 2 ^ 32)"

lemma div_add_carry:
  fixes a b c :: nat
  assumes "0 < c"
  shows "(a + b) div c = a div c + b div c + (if (a + b) mod c < b mod c then 1 else 0)"
proof (cases "a mod c + b mod c < c")
  case True
  then have "(a + b) mod c = a mod c + b mod c" by (metis mod_add_eq mod_less)
  with True show ?thesis by (simp add: div_add1_eq [of a b c])
next
  case False
  let ?s = "a mod c + b mod c"
  have lt: "a mod c < c" "b mod c < c" using assms by simp_all
  then have small: "?s - c < c" by linarith
  have "?s div c = 1" "?s mod c = ?s - c"
    using False small by (simp_all add: le_div_geq le_mod_geq)
  moreover from this lt False have "?s mod c < b mod c" by linarith
  ultimately show ?thesis by (simp add: div_add1_eq [of a b c] mod_add_eq)
qed

lemma unat_u32_of_nat: "unat (word_of_nat n :: u32) = n mod 4294967296"
  by (simp add: unsigned_of_nat take_bit_eq_mod)

lemma unat_idx: "unat (drop_bit 3 w AND 0x3f) = unat (w :: u32) div 8 mod 64"
proof -
  have "(0x3f :: u32) = mask 6" by (simp add: mask_eq_exp_minus_1)
  then have "drop_bit 3 w AND 0x3f = take_bit 6 (drop_bit 3 w)" by (simp only: take_bit_eq_mask)
  then have "unat (drop_bit 3 w AND 0x3f) = take_bit 6 (unat (drop_bit 3 w))"
    by (simp only: unsigned_take_bit_eq)
  moreover have "unat (drop_bit 3 w) = unat w div 8" by (simp add: drop_bit_eq_div unat_div)
  ultimately show ?thesis by (simp add: take_bit_eq_mod)
qed

lemma md5_idx: "unat (drop_bit 3 (word_of_nat (8 * n) :: u32) AND 0x3f) = n mod 64"
proof -
  have "8 * n mod (8 * 536870912) div 8 mod 64 = n mod 64"
    unfolding mult_mod_right [symmetric] by (simp add: mod_mod_cancel)
  then have "8 * n mod 4294967296 div 8 mod 64 = n mod 64" by simp
  then show ?thesis by (simp only: unat_idx unat_u32_of_nat)
qed

lemma md5_count:
  fixes k :: u32 and n :: nat
  defines "bits \<equiv> push_bit 3 k"
  defines "c0 \<equiv> word_of_nat (8 * n) + bits"
  shows "c0 = word_of_nat (8 * (n + unat k))"
    and "(if c0 < bits then word_of_nat (8 * n div 2 ^ 32) + 1 else word_of_nat (8 * n div 2 ^ 32)) +
        drop_bit 29 k = (word_of_nat (8 * (n + unat k) div 2 ^ 32) :: u32)"
proof -
  have bits: "bits = word_of_nat (8 * unat k)"
    by (simp add: bits_def push_bit_eq_mult)
  show c0: "c0 = word_of_nat (8 * (n + unat k))"
    by (simp add: c0_def bits algebra_simps)
  have "drop_bit 29 k = word_of_nat (unat k div 2 ^ 29)"
    using word_arith_nat_div [of k "2 ^ 29"] by (simp add: drop_bit_eq_div)
  moreover have "c0 < bits \<longleftrightarrow> 8 * (n + unat k) mod 4294967296 < 8 * unat k mod 4294967296"
    unfolding c0 bits by (simp only: word_less_nat_alt unat_u32_of_nat)
  moreover have "8 * (n + x) div 4294967296 = 8 * n div 4294967296 + x div 536870912 +
      (if 8 * (n + x) mod 4294967296 < 8 * x mod 4294967296 then 1 else 0)" for x :: nat
    using div_add_carry [of 4294967296 "8 * n" "8 * x"] div_mult_mult1 [of 8 x 536870912]
    by (simp add: distrib_left)
  ultimately show "(if c0 < bits then word_of_nat (8 * n div 2 ^ 32) + 1 else word_of_nat (8 * n div 2 ^ 32)) +
        drop_bit 29 k = (word_of_nat (8 * (n + unat k) div 2 ^ 32) :: u32)"
    by simp
qed

lemma md5_absorbed_counts:
  assumes "md5_absorbed ctx m" and "unat n \<le> length input"
  shows "count0 (MD5Update ctx input n) = word_of_nat (8 * length (m @ take (unat n) input))"
    and "count1 (MD5Update ctx input n) = word_of_nat (8 * length (m @ take (unat n) input) div 2 ^ 32)"
proof -
  have upd: "count0 (MD5Update ctx input n) = count0 ctx + push_bit 3 n"
    "count1 (MD5Update ctx input n) =
      (if count0 ctx + push_bit 3 n < push_bit 3 n then count1 ctx + 1 else count1 ctx) + drop_bit 29 n"
    by (simp_all add: MD5Update_def Let_def split: prod.split)
  have len: "length (m @ take (unat n) input) = length m + unat n" using assms(2) by simp
  from assms(1) have cnt: "count0 ctx = word_of_nat (8 * length m)"
    "count1 ctx = word_of_nat (8 * length m div 2 ^ 32)" unfolding md5_absorbed_def by simp_all
  show "count0 (MD5Update ctx input n) = word_of_nat (8 * length (m @ take (unat n) input))"
    unfolding upd cnt len by (rule md5_count(1))
  show "count1 (MD5Update ctx input n) = word_of_nat (8 * length (m @ take (unat n) input) div 2 ^ 32)"
    unfolding upd cnt len by (rule md5_count(2))
qed

lemma md5_absorbedI:
  assumes "md5_absorbed ctx m" and len: "unat n \<le> length input"
    and "state (MD5Update ctx input n) = md5_fold md5_init (m @ take (unat n) input)"
    and "length (buffer (MD5Update ctx input n)) = 64"
    and "take ((length m + unat n) mod 64) (buffer (MD5Update ctx input n)) =
      drop ((length m + unat n) div 64 * 64) (m @ take (unat n) input)"
  shows "md5_absorbed (MD5Update ctx input n) (m @ take (unat n) input)"
  using assms(3-5) md5_absorbed_counts [OF assms(1,2)]
  unfolding md5_absorbed_def length_append length_take min_absorb2 [OF len] by blast

lemma take_memcpy_at_0: "n \<le> length src \<Longrightarrow> take n (memcpy_at buf 0 src n) = take n src"
  by (simp add: memcpy_at_def)

lemma add_within_block:
  fixes a b k :: nat
  assumes "a mod k + b < k"
  shows "(a + b) mod k = a mod k + b" and "(a + b) div k = a div k"
proof -
  have eq: "a + b = (a mod k + b) + a div k * k" by simp
  show "(a + b) mod k = a mod k + b" by (subst eq, subst mod_mult_self1) (use assms in simp)
  show "(a + b) div k = a div k" by (subst eq, subst div_mult_self1) (use assms in auto)
qed

lemma add_over_block:
  fixes a b k :: nat
  assumes "k - a mod k \<le> b" and "0 < k"
  shows "(a + b) mod k = (b - (k - a mod k)) mod k"
    and "(a + b) div k = a div k + 1 + (b - (k - a mod k)) div k"
proof -
  have "a mod k < k" using assms(2) by simp
  then have eq: "a + b = (b - (k - a mod k)) + (a div k + 1) * k"
    using assms(1) div_mult_mod_eq [of a k] unfolding add_mult_distrib mult_1 by linarith
  show "(a + b) mod k = (b - (k - a mod k)) mod k" by (subst eq) (rule mod_mult_self1)
  show "(a + b) div k = a div k + 1 + (b - (k - a mod k)) div k"
    by (subst eq, subst div_mult_self1) (use assms(2) in simp_all)
qed

lemma MD5Update_absorbed:
  assumes ctx: "md5_absorbed ctx m" and len: "unat n \<le> length input"
    and nowrap: "length m mod 64 = 0 \<or> unat n + 64 < 2 ^ 32"
  shows "md5_absorbed (MD5Update ctx input n) (m @ take (unat n) input)"
proof -
  let ?L = "length m" and ?r = "length m mod 64" and ?tail = "drop (length m div 64 * 64) m"
    and ?in = "take (unat n) input"
  define idx :: u32 where "idx = drop_bit 3 (count0 ctx) AND 0x3f"
  from ctx have st: "state ctx = md5_fold md5_init m" and buf: "length (buffer ctx) = 64"
    "take ?r (buffer ctx) = ?tail" and cnt: "count0 ctx = word_of_nat (8 * ?L)"
    by (simp_all add: md5_absorbed_def)
  have r: "?r < 64" by simp
  have idx: "unat idx = ?r" by (simp only: idx_def cnt md5_idx)
  with r have "idx \<le> 64" by (simp add: word_le_nat_alt)
  then have part: "unat (64 - idx) = 64 - ?r" by (simp add: unat_sub idx)
  have tail: "length ?tail = ?r" by (simp add: minus_div_mult_eq_mod)
  have L: "?L = ?L div 64 * 64 + ?r" by simp
  have inlen: "length ?in = unat n" using len by simp
  show ?thesis
  proof (cases "64 - idx \<le> n")
    case False
    let ?ctx = "MD5Update ctx input n"
    from False have lt: "?r + unat n < 64" using r by (simp add: word_le_nat_alt part)
    note mod = add_within_block(1) [OF lt] and div = add_within_block(2) [OF lt]
    have "buffer ?ctx = memcpy_at (buffer ctx) ?r input (unat n)" "state ?ctx = state ctx"
      using False idx by (simp_all add: MD5Update_def Let_def idx_def)
    moreover from this have "take (?r + unat n) (buffer ?ctx) = ?tail @ ?in"
      using buf len lt by simp
    moreover have "length (buffer ?ctx) = 64"
      using \<open>buffer ?ctx = _\<close> buf len lt by simp
    moreover have "md5_fold md5_init (m @ ?in) = md5_fold md5_init m"
      using lt tail inlen by (subst md5_fold_tail) simp
    moreover have "drop (?L div 64 * 64) (m @ ?in) = ?tail @ ?in" by simp
    ultimately show ?thesis by (intro md5_absorbedI [OF ctx len]) (simp_all only: mod div st)
  next
    case True
    let ?ctx = "MD5Update ctx input n" and ?p = "64 - ?r"
    let ?buf = "?tail @ take ?p input"
    from True have ge: "?p \<le> unat n" by (simp add: word_le_nat_alt part)
    with len r buf have mem: "memcpy_at (buffer ctx) (unat idx) input (unat (64 - idx)) = ?buf"
      by (simp add: idx part memcpy_at_full)
    have buflen: "length ?buf = 64" using tail ge len r by simp
    have "64 dvd unat (64 - idx) \<or> unat n + 64 < 2 ^ 32"
      using nowrap by (auto simp: part)
    with ge len obtain i' where
      loop: "md5_update_loop input n (64 - idx) (MD5Transform (state ctx) ?buf) =
        (md5_fold (MD5Transform (state ctx) ?buf) (take (unat n - ?p) (drop ?p input)), i')"
      and i': "unat i' = ?p + (unat n - ?p) div 64 * 64"
      using md5_update_loop_eq [of "64 - idx" n input "MD5Transform (state ctx) ?buf"]
      by (auto simp: part)
    have i'_le: "unat i' \<le> unat n"
      using ge i' div_mult_mod_eq [of "unat n - ?p" 64] by linarith
    then have rest: "unat (n - i') = unat n - unat i'" by (simp add: unat_sub word_le_nat_alt)
    have state: "state ?ctx = md5_fold (MD5Transform (state ctx) ?buf) (take (unat n - ?p) (drop ?p input))"
      and buffer: "buffer ?ctx = memcpy_at ?buf 0 (drop (unat i') input) (unat n - unat i')"
      using True loop mem rest by (simp_all add: MD5Update_def Let_def idx_def [symmetric])
    have cut: "?in = take ?p input @ take (unat n - ?p) (drop ?p input)"
      using ge take_add [of ?p "unat n - ?p" input] by simp
    have "md5_fold md5_init (m @ ?in) = md5_fold (state ctx) (?buf @ take (unat n - ?p) (drop ?p input))"
      unfolding st by (subst md5_fold_tail) (simp only: cut append_assoc)
    then have "state ?ctx = md5_fold md5_init (m @ ?in)"
      using state buflen by (simp only: md5_fold_block)
    moreover have small: "unat n - unat i' = (unat n - ?p) mod 64"
      using i' by (simp add: minus_div_mult_eq_mod diff_diff_eq [symmetric])
    moreover from small have "unat n - unat i' < 64" by (simp only: mod_less_divisor zero_less_numeral)
    with buflen len have "length (buffer ?ctx) = 64"
      by (simp only: buffer length_memcpy_at add_0 less_imp_le length_drop diff_le_mono)
    moreover have "drop ((?L + unat n) div 64 * 64) (m @ ?in) = take ((unat n - ?p) mod 64) (drop (unat i') input)"
    proof -
      have sum: "l = q + r \<Longrightarrow> r < 64 \<Longrightarrow> q + 64 + t = l + (64 - r + t)" for l q r t :: nat
        by simp
      have pos: "(?L + unat n) div 64 * 64 = ?L + unat i'"
        unfolding add_over_block(2) [OF ge zero_less_numeral] i' add_mult_distrib mult_1 by (rule sum [OF L r])
      then show ?thesis unfolding small [symmetric] pos by (simp add: drop_take)
    qed
    moreover have "take ((unat n - ?p) mod 64) (buffer ?ctx) = take ((unat n - ?p) mod 64) (drop (unat i') input)"
      unfolding buffer small [symmetric] using len
      by (intro take_memcpy_at_0) (simp add: diff_le_mono)
    moreover note add_over_block(1) [OF ge zero_less_numeral]
    ultimately show ?thesis by (intro md5_absorbedI [OF ctx len]) (simp_all only:)
  qed
qed


subsection \<open>The digest\<close>

lemma MD5Init_absorbed: "length (buffer ctx) = 64 \<Longrightarrow> md5_absorbed (MD5Init ctx) []"
  by (simp add: md5_absorbed_def MD5Init_def md5_init_def)

lemma md5_padLen: "r < 64 \<Longrightarrow> (if r < 56 then 56 - r else 120 - r) = Suc ((119 - r) mod 64)" for r :: nat
  by (cases "r < 56") (simp_all add: le_mod_geq)

lemma MD5Final_ref:
  assumes "md5_absorbed ctx m"
  shows "fst (MD5Final ctx) = md5_ref m"
proof -
  define idx :: u32 where "idx = drop_bit 3 (count0 ctx) AND 0x3f"
  define padLen where "padLen = (if idx < 56 then 56 - idx else 120 - idx)"
  let ?bits = "Encode [count0 ctx, count1 ctx]" and ?r = "length m mod 64"
  have idx: "unat idx = ?r" using assms by (simp only: idx_def md5_absorbed_def md5_idx)
  have pad: "unat padLen = (if ?r < 56 then 56 - ?r else 120 - ?r)"
    using idx mod_less_divisor [of 64 "length m"]
    by (auto simp: padLen_def word_less_nat_alt unat_sub word_le_nat_alt)
  then have zeros: "unat padLen = Suc ((119 - ?r) mod 64)" by (simp only: md5_padLen mod_less_divisor zero_less_numeral)
  then have "unat padLen \<le> 64" by (simp add: Suc_leI)
  define ctx1 where "ctx1 = MD5Update ctx PADDING padLen"
  have "md5_absorbed ctx1 (m @ take (unat padLen) PADDING)"
    unfolding ctx1_def using assms \<open>unat padLen \<le> 64\<close>
    by (intro MD5Update_absorbed) (simp_all add: PADDING_def)
  moreover have "take (unat padLen) PADDING = 0x80 # replicate ((119 - ?r) mod 64) 0"
    using zeros mod_less_divisor [of 64 "119 - ?r"] by (simp add: PADDING_def min_absorb1)
  ultimately have "md5_absorbed (MD5Update ctx1 ?bits 8) ((m @ 0x80 # replicate ((119 - ?r) mod 64) 0) @ take (unat (8 :: u32)) ?bits)"
    by (intro MD5Update_absorbed) simp_all
  moreover have "take (unat (8 :: u32)) ?bits = ?bits" by simp
  ultimately have "state (MD5Update ctx1 ?bits 8) = md5_fold md5_init (m @ md5_pad m)"
    using assms by (simp add: md5_absorbed_def md5_pad_def)
  then show ?thesis
    unfolding MD5Final_def Let_def md5_ref_def ctx1_def padLen_def idx_def by (simp only: fst_conv)
qed

lemma md5_signature_ref:
  assumes "length (buffer my_md5) = 64" and "length key < 2 ^ 32"
  shows "md5_signature my_md5 key (word_of_nat (length key)) = md5_ref key"
proof -
  have len: "unat (word_of_nat (length key) :: u32) = length key"
    using assms(2) by (simp add: unat_u32_of_nat)
  have "md5_absorbed (MD5Update (MD5Init my_md5) key (word_of_nat (length key)))
      ([] @ take (unat (word_of_nat (length key) :: u32)) key)"
    using MD5Init_absorbed [OF assms(1)] by (rule MD5Update_absorbed) (simp_all add: len)
  then show ?thesis by (simp add: md5_signature_def MD5Final_ref len)
qed

lemma hashkit_md5_ref:
  assumes "length (buffer my_md5) = 64" and "length key < 2 ^ 32"
  shows "hashkit_md5 my_md5 key = fst (md5_fold md5_init (key @ md5_pad key))"
proof -
  obtain a b c d where st: "md5_fold md5_init (key @ md5_pad key) = (a, b, c, d)"
    by (metis prod_cases4)
  have "hashkit_md5 my_md5 key = le32 (byte_of 0 a) (byte_of 1 a) (byte_of 2 a) (byte_of 3 a)"
    using md5_signature_ref [OF assms]
    by (simp add: hashkit_md5_def md5_ref_def st md5_state_list_def Let_def byte_and_ff le32_def ac_simps)
  then show ?thesis by (simp add: st)
qed


subsection \<open>The schedule of the 64 steps\<close>

text \<open>
  The schedule RFC 1321 states by formulas: the round function, the register, the message word
  and the shift of step \<open>i\<close>.
\<close>

definition md5_step_schedule :: "nat \<Rightarrow> md5_round \<times> md5_reg \<times> nat \<times> nat" where
  "md5_step_schedule i =
     ([FF, GG, HH, II] ! (i div 16), [RA, RD, RC, RB] ! (i mod 4),
      [i, 5 * i + 1, 3 * i + 5, 7 * i] ! (i div 16) mod 16,
      [[7, 12, 17, 22], [5, 9, 14, 20], [4, 11, 16, 23], [6, 10, 15, 21]] ! (i div 16) ! (i mod 4))"

lemma md5_ops_schedule:
  "map (\<lambda>(f, r, k, s, _). (f, r, k, s)) md5_ops = map md5_step_schedule [0..<64]"
  by (simp add: md5_ops_def md5_step_schedule_def upt_rec)

subsection \<open>Properties\<close>

text \<open>
  C15: Feeding a context refines appending to the message it has absorbed: the state words are
  those of the full blocks of the message, the buffer holds its tail and the two count words hold
  its length in bits modulo \<open>2 ^ 64\<close>, whether the input completes a block or not.
\<close>

theorem MD5Update_refines_append:
  assumes "md5_absorbed ctx m" and "unat n \<le> length input"
    and "length m mod 64 = 0 \<or> unat n + 64 < 2 ^ 32"
  shows "md5_absorbed (MD5Update ctx input n) (m @ take (unat n) input)"
  using assms by (rule MD5Update_absorbed)

definition blank_MD5_CTX :: MD5_CTX where
  "blank_MD5_CTX = \<lparr>state = (0, 0, 0, 0), count0 = 0, count1 = 0, buffer = replicate 64 0\<rparr>"

theorem MD5Update_refines_append_witness:
  "md5_absorbed (MD5Update (MD5Init blank_MD5_CTX) [1, 2, 3] 3) ([] @ take (unat (3 :: u32)) [1, 2, 3])"
  by (rule MD5Update_refines_append)
    (simp_all add: MD5Init_absorbed blank_MD5_CTX_def)

text \<open>
  C9: For every key shorter than \<open>2 ^ 32\<close> bytes and whatever the uninitialised context holds, the
  signature is the MD5 digest of the key: the key followed by a one bit, zeros and its length,
  cut into blocks of 64 bytes; the hash is the first word of it.
\<close>

theorem md5_signature_spec:
  assumes "length (buffer my_md5) = 64" and "length key < 2 ^ 32"
  shows "md5_signature my_md5 key (word_of_nat (length key)) = md5_ref key \<and>
    hashkit_md5 my_md5 key = fst (md5_fold md5_init (key @ md5_pad key))"
  using assms by (simp add: md5_signature_ref hashkit_md5_ref)

theorem md5_signature_spec_witness:
  "md5_signature blank_MD5_CTX [0x61, 0x62] (word_of_nat (length [0x61, 0x62 :: u8])) = md5_ref [0x61, 0x62] \<and>
   hashkit_md5 blank_MD5_CTX [0x61, 0x62] = fst (md5_fold md5_init ([0x61, 0x62] @ md5_pad [0x61, 0x62]))"
  by (rule md5_signature_spec) (simp_all add: blank_MD5_CTX_def)

text \<open>
  The 64 unrolled steps of the transformation follow the schedule of RFC 1321: round function,
  register, message word and shift of step \<open>i\<close> are those the formulas give.
\<close>

lemma md5_ops_rfc_schedule:
  "map (\<lambda>(f, r, k, s, _). (f, r, k, s)) md5_ops = map md5_step_schedule [0..<64]"
  by (rule md5_ops_schedule)

end
