(* ===== verification/Rijndael.thy ===== *)
theory Rijndael
  imports Rijndael_Tables
begin

text \<open>
  The AES implementation bundled as \<open>rijndael.cc\<close>, in the configuration that is built (without
  \<open>FULL_UNROLL\<close>): the key schedules, the table-driven rounds, encryption and decryption of one
  block. Words are big endian; a round key is addressed by its offset in the key array. Decryption
  is shown to invert encryption for the schedules the code computes from one key.
\<close>

type_synonym rstate = "u32 \<times> u32 \<times> u32 \<times> u32"

definition GETU32 :: "bytes \<Rightarrow> nat \<Rightarrow> u32" where
  "GETU32 pt i =
     push_bit 24 (unsigned (pt ! i)) XOR push_bit 16 (unsigned (pt ! (i + 1)))
     XOR push_bit 8 (unsigned (pt ! (i + 2))) XOR unsigned (pt ! (i + 3))"

definition PUTU32 :: "u32 \<Rightarrow> bytes" where
  "PUTU32 st = [unsigned (drop_bit 24 st), unsigned (drop_bit 16 st), unsigned (drop_bit 8 st), unsigned st]"

text \<open>The four index expressions \<open>s >> 24\<close>, \<open>(s >> 16) & 0xff\<close>, \<open>(s >> 8) & 0xff\<close>, \<open>s & 0xff\<close>.\<close>

definition b3 :: "u32 \<Rightarrow> nat" where "b3 s = unat (drop_bit 24 s)"
definition b2 :: "u32 \<Rightarrow> nat" where "b2 s = unat (drop_bit 16 s AND 0xff)"
definition b1 :: "u32 \<Rightarrow> nat" where "b1 s = unat (drop_bit 8 s AND 0xff)"
definition b0 :: "u32 \<Rightarrow> nat" where "b0 s = unat (s AND 0xff)"


subsection \<open>Key schedules\<close>

definition rot_sub_word :: "u32 \<Rightarrow> u32" where
  "rot_sub_word temp =
     (Te4 ! b2 temp AND 0xff000000) XOR (Te4 ! b1 temp AND 0x00ff0000)
     XOR (Te4 ! b0 temp AND 0x0000ff00) XOR (Te4 ! b3 temp AND 0x000000ff)"

definition sub_word :: "u32 \<Rightarrow> u32" where
  "sub_word temp =
     (Te4 ! b3 temp AND 0xff000000) XOR (Te4 ! b2 temp AND 0x00ff0000)
     XOR (Te4 ! b1 temp AND 0x0000ff00) XOR (Te4 ! b0 temp AND 0x000000ff)"

text \<open>
  The three expansion loops; the first argument counts the iterations that are left, so that
  \<open>i\<close> of the code is the number of iterations minus it, and \<open>k\<close> is the offset by which \<open>rk\<close> has
  been advanced.
\<close>

primrec expand128 :: "nat \<Rightarrow> nat \<Rightarrow> u32 list \<Rightarrow> u32 list" where
  "expand128 0 k rk = rk"
| "expand128 (Suc n) k rk =
     (let i = 9 - n;
          rk = rk[k + 4 := rk ! k XOR rot_sub_word (rk ! (k + 3)) XOR rcon ! i];
          rk = rk[k + 5 := rk ! (k + 1) XOR rk ! (k + 4)];
          rk = rk[k + 6 := rk ! (k + 2) XOR rk ! (k + 5)];
          rk = rk[k + 7 := rk ! (k + 3) XOR rk ! (k + 6)]
      in expand128 n (k + 4) rk)"

primrec expand192 :: "nat \<Rightarrow> nat \<Rightarrow> u32 list \<Rightarrow> u32 list" where
  "expand192 0 k rk = rk"
| "expand192 (Suc n) k rk =
     (let i = 7 - n;
          rk = rk[k + 6 := rk ! k XOR rot_sub_word (rk ! (k + 5)) XOR rcon ! i];
          rk = rk[k + 7 := rk ! (k + 1) XOR rk ! (k + 6)];
          rk = rk[k + 8 := rk ! (k + 2) XOR rk ! (k + 7)];
          rk = rk[k + 9 := rk ! (k + 3) XOR rk ! (k + 8)]
      in if n = 0 then rk
         else let rk = rk[k + 10 := rk ! (k + 4) XOR rk ! (k + 9)];
                  rk = rk[k + 11 := rk ! (k + 5) XOR rk ! (k + 10)]
              in expand192 n (k + 6) rk)"

primrec expand256 :: "nat \<Rightarrow> nat \<Rightarrow> u32 list \<Rightarrow> u32 list" where
  "expand256 0 k rk = rk"
| "expand256 (Suc n) k rk =
     (let i = 6 - n;
          rk = rk[k + 8 := rk ! k XOR rot_sub_word (rk ! (k + 7)) XOR rcon ! i];
          rk = rk[k + 9 := rk ! (k + 1) XOR rk ! (k + 8)];
          rk = rk[k + 10 := rk ! (k + 2) XOR rk ! (k + 9)];
          rk = rk[k + 11 := rk ! (k + 3) XOR rk ! (k + 10)]
      in if n = 0 then rk
         else let rk = rk[k + 12 := rk ! (k + 4) XOR sub_word (rk ! (k + 11))];
                  rk = rk[k + 13 := rk ! (k + 5) XOR rk ! (k + 12)];
                  rk = rk[k + 14 := rk ! (k + 6) XOR rk ! (k + 13)];
                  rk = rk[k + 15 := rk ! (k + 7) XOR rk ! (k + 14)]
              in expand256 n (k + 8) rk)"

definition rijndaelKeySetupEnc :: "u32 list \<Rightarrow> bytes \<Rightarrow> nat \<Rightarrow> u32 list \<times> nat" where
  "rijndaelKeySetupEnc rk cipherKey keyBits =
     (let rk = rk[0 := GETU32 cipherKey 0, 1 := GETU32 cipherKey 4,
                  2 := GETU32 cipherKey 8, 3 := GETU32 cipherKey 12]
      in if keyBits = 128 then (expand128 10 0 rk, 10)
      else let rk = rk[4 := GETU32 cipherKey 16, 5 := GETU32 cipherKey 20]
      in if keyBits = 192 then (expand192 8 0 rk, 12)
      else let rk = rk[6 := GETU32 cipherKey 24, 7 := GETU32 cipherKey 28]
      in if keyBits = 256 then (expand256 7 0 rk, 14)
      else (rk, 0))"

definition swap4 :: "u32 list \<Rightarrow> nat \<Rightarrow> nat \<Rightarrow> u32 list" where
  "swap4 rk i j =
     (let rk = rk[i := rk ! j, j := rk ! i];
          rk = rk[i + 1 := rk ! (j + 1), j + 1 := rk ! (i + 1)];
          rk = rk[i + 2 := rk ! (j + 2), j + 2 := rk ! (i + 2)]
      in rk[i + 3 := rk ! (j + 3), j + 3 := rk ! (i + 3)])"

fun invert_order :: "u32 list \<Rightarrow> nat \<Rightarrow> nat \<Rightarrow> u32 list" where
  "invert_order rk i j = (if i < j then invert_order (swap4 rk i j) (i + 4) (j - 4) else rk)"

declare invert_order.simps [simp del]

definition inv_mix_word :: "u32 \<Rightarrow> u32" where
  "inv_mix_word w =
     Td0 ! unat (Te4 ! b3 w AND 0xff) XOR Td1 ! unat (Te4 ! b2 w AND 0xff)
     XOR Td2 ! unat (Te4 ! b1 w AND 0xff) XOR Td3 ! unat (Te4 ! b0 w AND 0xff)"

text \<open>The loop \<open>for (i = 1; i < Nr; i++)\<close>, with the number of iterations that are left.\<close>

primrec inv_mix_keys :: "nat \<Rightarrow> nat \<Rightarrow> u32 list \<Rightarrow> u32 list" where
  "inv_mix_keys 0 k rk = rk"
| "inv_mix_keys (Suc n) k rk =
     (let k = k + 4;
          rk = rk[k := inv_mix_word (rk ! k)];
          rk = rk[k + 1 := inv_mix_word (rk ! (k + 1))];
          rk = rk[k + 2 := inv_mix_word (rk ! (k + 2))];
          rk = rk[k + 3 := inv_mix_word (rk ! (k + 3))]
      in inv_mix_keys n k rk)"

definition rijndaelKeySetupDec :: "u32 list \<Rightarrow> bytes \<Rightarrow> nat \<Rightarrow> u32 list \<times> nat" where
  "rijndaelKeySetupDec rk cipherKey keyBits =
     (let (rk, Nr) = rijndaelKeySetupEnc rk cipherKey keyBits;
          rk = invert_order rk 0 (4 * Nr)
      in (inv_mix_keys (Nr - 1) 0 rk, Nr))"



subsection \<open>Rounds\<close>

fun add_key :: "u32 list \<Rightarrow> nat \<Rightarrow> rstate \<Rightarrow> rstate" where
  "add_key rk k (s0, s1, s2, s3) =
     (s0 XOR rk ! k, s1 XOR rk ! (k + 1), s2 XOR rk ! (k + 2), s3 XOR rk ! (k + 3))"

definition get_block :: "bytes \<Rightarrow> rstate" where
  "get_block pt = (GETU32 pt 0, GETU32 pt 4, GETU32 pt 8, GETU32 pt 12)"

fun put_block :: "rstate \<Rightarrow> bytes" where
  "put_block (s0, s1, s2, s3) = PUTU32 s0 @ PUTU32 s1 @ PUTU32 s2 @ PUTU32 s3"


fun enc_round :: "u32 list \<Rightarrow> nat \<Rightarrow> rstate \<Rightarrow> rstate" where
  "enc_round rk k (s0, s1, s2, s3) =
     (Te0 ! b3 s0 XOR Te1 ! b2 s1 XOR Te2 ! b1 s2 XOR Te3 ! b0 s3 XOR rk ! k,
      Te0 ! b3 s1 XOR Te1 ! b2 s2 XOR Te2 ! b1 s3 XOR Te3 ! b0 s0 XOR rk ! (k + 1),
      Te0 ! b3 s2 XOR Te1 ! b2 s3 XOR Te2 ! b1 s0 XOR Te3 ! b0 s1 XOR rk ! (k + 2),
      Te0 ! b3 s3 XOR Te1 ! b2 s0 XOR Te2 ! b1 s1 XOR Te3 ! b0 s2 XOR rk ! (k + 3))"

fun enc_last :: "u32 list \<Rightarrow> nat \<Rightarrow> rstate \<Rightarrow> rstate" where
  "enc_last rk k (t0, t1, t2, t3) =
     ((Te4 ! b3 t0 AND 0xff000000) XOR (Te4 ! b2 t1 AND 0x00ff0000)
        XOR (Te4 ! b1 t2 AND 0x0000ff00) XOR (Te4 ! b0 t3 AND 0x000000ff) XOR rk ! k,
      (Te4 ! b3 t1 AND 0xff000000) XOR (Te4 ! b2 t2 AND 0x00ff0000)
        XOR (Te4 ! b1 t3 AND 0x0000ff00) XOR (Te4 ! b0 t0 AND 0x000000ff) XOR rk ! (k + 1),
      (Te4 ! b3 t2 AND 0xff000000) XOR (Te4 ! b2 t3 AND 0x00ff0000)
        XOR (Te4 ! b1 t0 AND 0x0000ff00) XOR (Te4 ! b0 t1 AND 0x000000ff) XOR rk ! (k + 2),
      (Te4 ! b3 t3 AND 0xff000000) XOR (Te4 ! b2 t0 AND 0x00ff0000)
        XOR (Te4 ! b1 t1 AND 0x0000ff00) XOR (Te4 ! b0 t2 AND 0x000000ff) XOR rk ! (k + 3))"

fun dec_round :: "u32 list \<Rightarrow> nat \<Rightarrow> rstate \<Rightarrow> rstate" where
  "dec_round rk k (s0, s1, s2, s3) =
     (Td0 ! b3 s0 XOR Td1 ! b2 s3 XOR Td2 ! b1 s2 XOR Td3 ! b0 s1 XOR rk ! k,
      Td0 ! b3 s1 XOR Td1 ! b2 s0 XOR Td2 ! b1 s3 XOR Td3 ! b0 s2 XOR rk ! (k + 1),
      Td0 ! b3 s2 XOR Td1 ! b2 s1 XOR Td2 ! b1 s0 XOR Td3 ! b0 s3 XOR rk ! (k + 2),
      Td0 ! b3 s3 XOR Td1 ! b2 s2 XOR Td2 ! b1 s1 XOR Td3 ! b0 s0 XOR rk ! (k + 3))"

fun dec_last :: "u32 list \<Rightarrow> nat \<Rightarrow> rstate \<Rightarrow> rstate" where
  "dec_last rk k (t0, t1, t2, t3) =
     ((Td4 ! b3 t0 AND 0xff000000) XOR (Td4 ! b2 t3 AND 0x00ff0000)
        XOR (Td4 ! b1 t2 AND 0x0000ff00) XOR (Td4 ! b0 t1 AND 0x000000ff) XOR rk ! k,
      (Td4 ! b3 t1 AND 0xff000000) XOR (Td4 ! b2 t0 AND 0x00ff0000)
        XOR (Td4 ! b1 t3 AND 0x0000ff00) XOR (Td4 ! b0 t2 AND 0x000000ff) XOR rk ! (k + 1),
      (Td4 ! b3 t2 AND 0xff000000) XOR (Td4 ! b2 t1 AND 0x00ff0000)
        XOR (Td4 ! b1 t0 AND 0x0000ff00) XOR (Td4 ! b0 t3 AND 0x000000ff) XOR rk ! (k + 2),
      (Td4 ! b3 t3 AND 0xff000000) XOR (Td4 ! b2 t2 AND 0x00ff0000)
        XOR (Td4 ! b1 t1 AND 0x0000ff00) XOR (Td4 ! b0 t0 AND 0x000000ff) XOR rk ! (k + 3))"

text \<open>
  The loop \<open>for (;;)\<close> of two rounds per iteration, left in the middle when \<open>--r == 0\<close>. It is
  entered with \<open>r = Nr >> 1\<close>, which is at least 5 for the round counts the key setups return.
\<close>

fun enc_loop :: "u32 list \<Rightarrow> nat \<Rightarrow> nat \<Rightarrow> rstate \<Rightarrow> rstate \<times> nat" where
  "enc_loop rk k r s =
     (let t = enc_round rk (k + 4) s
      in if r \<le> 1 then (t, k + 8)
         else enc_loop rk (k + 8) (r - 1) (enc_round rk (k + 8) t))"

fun dec_loop :: "u32 list \<Rightarrow> nat \<Rightarrow> nat \<Rightarrow> rstate \<Rightarrow> rstate \<times> nat" where
  "dec_loop rk k r s =
     (let t = dec_round rk (k + 4) s
      in if r \<le> 1 then (t, k + 8)
         else dec_loop rk (k + 8) (r - 1) (dec_round rk (k + 8) t))"

declare enc_loop.simps [simp del]
declare dec_loop.simps [simp del]

definition rijndaelEncrypt :: "u32 list \<Rightarrow> nat \<Rightarrow> bytes \<Rightarrow> bytes" where
  "rijndaelEncrypt rk Nr pt =
     (let s = add_key rk 0 (get_block pt);
          (t, k) = enc_loop rk 0 (Nr div 2) s
      in put_block (enc_last rk k t))"

definition rijndaelDecrypt :: "u32 list \<Rightarrow> nat \<Rightarrow> bytes \<Rightarrow> bytes" where
  "rijndaelDecrypt rk Nr ct =
     (let s = add_key rk 0 (get_block ct);
          (t, k) = dec_loop rk 0 (Nr div 2) s
      in put_block (dec_last rk k t))"


subsection \<open>Words as four bytes\<close>

lemma be32_cases: obtains a b c d where "w = be32 a b c d"
  using le32_byte_of [of w] unfolding be32_def by metis

lemma byte_of_be32 [simp]:
  "byte_of 3 (be32 a b c d) = a" "byte_of 2 (be32 a b c d) = b"
  "byte_of (Suc 0) (be32 a b c d) = c" "byte_of 0 (be32 a b c d) = d"
  by (simp_all add: be32_def)

lemma be32_xor: "be32 a b c d XOR be32 a' b' c' d' = be32 (a XOR a') (b XOR b') (c XOR c') (d XOR d')"
  by (simp add: be32_def le32_xor)

lemma index_be32 [simp]:
  "b3 (be32 a b c d) = unat a" "b2 (be32 a b c d) = unat b"
  "b1 (be32 a b c d) = unat c" "b0 (be32 a b c d) = unat d"
proof -
  have ff: "(0xff :: u32) = mask 8" by (simp add: mask_eq_exp_minus_1)
  have low: "w AND 0xff = unsigned (byte_of 0 w)" for w :: u32
    unfolding ff by (rule bit_word_eqI) (auto simp: byte_of_def bit_simps)
  have shift: "byte_of 0 (drop_bit (8 * n) w) = byte_of n w" for w n
    by (simp add: byte_of_def)
  have up: "unat (unsigned x :: u32) = unat x" for x :: u8
    by (simp add: unsigned_ucast_eq take_bit_nat_eq_self_iff less_trans [OF unat_byte_less])
  have top: "drop_bit 24 w = unsigned (byte_of 3 w)" for w :: u32
    by (rule bit_word_eqI) (auto simp: byte_of_def bit_simps dest: bit_imp_le_length)
  show "b3 (be32 a b c d) = unat a" unfolding b3_def top by (simp add: up)
  show "b2 (be32 a b c d) = unat b" unfolding b2_def low using shift [of 2] by (simp add: up)
  show "b1 (be32 a b c d) = unat c" unfolding b1_def low using shift [of 1] by (simp add: up)
  show "b0 (be32 a b c d) = unat d" unfolding b0_def low by (simp add: up)
qed

lemma GETU32_be32: "GETU32 pt i = be32 (pt ! i) (pt ! (i + 1)) (pt ! (i + 2)) (pt ! (i + 3))"
  by (rule bit_word_eqI)
    (auto simp: GETU32_def be32_def bit_le32 bit_simps not_less dest: byte_bit_bound)

lemma PUTU32_be32 [simp]: "PUTU32 (be32 a b c d) = [a, b, c, d]"
proof -
  have "PUTU32 w = [byte_of 3 w, byte_of 2 w, byte_of 1 w, byte_of 0 w]" for w
    by (simp add: PUTU32_def byte_of_def)
  then show ?thesis by simp
qed

lemma and_be32:
  "be32 a b c d AND 0xff000000 = be32 a 0 0 0" "be32 a b c d AND 0x00ff0000 = be32 0 b 0 0"
  "be32 a b c d AND 0x0000ff00 = be32 0 0 c 0" "be32 a b c d AND 0x000000ff = be32 0 0 0 d"
proof -
  have be: "be32 a b c d AND be32 a' b' c' d' = be32 (a AND a') (b AND b') (c AND c') (d AND d')" for a' b' c' d'
    by (rule bit_word_eqI) (auto simp: be32_def bit_le32 bit_simps)
  have m: "0xff000000 = be32 0xff 0 0 0" "0x00ff0000 = be32 0 0xff 0 0"
    "0x0000ff00 = be32 0 0 0xff 0" "0x000000ff = be32 0 0 0 0xff"
    by (simp_all add: be32_def le32_def)
  show "be32 a b c d AND 0xff000000 = be32 a 0 0 0" unfolding m be by (simp add: byte_and_ff)
  show "be32 a b c d AND 0x00ff0000 = be32 0 b 0 0" unfolding m be by (simp add: byte_and_ff)
  show "be32 a b c d AND 0x0000ff00 = be32 0 0 c 0" unfolding m be by (simp add: byte_and_ff)
  show "be32 a b c d AND 0x000000ff = be32 0 0 0 d" unfolding m be by (simp add: byte_and_ff)
qed


subsection \<open>MixColumns and its inverse\<close>

definition mix_word :: "u32 \<Rightarrow> u32" where
  "mix_word w =
     (let a = byte_of 3 w; b = byte_of 2 w; c = byte_of 1 w; d = byte_of 0 w
      in be32 (xtime a XOR mul3 b XOR c XOR d) (a XOR xtime b XOR mul3 c XOR d)
              (a XOR b XOR xtime c XOR mul3 d) (mul3 a XOR b XOR c XOR xtime d))"

lemma unat_low_be32: "unat (be32 s s s s AND 0xff) = unat s"
  using index_be32(4) [of s s s s] by (simp add: b0_def)

lemma inv_mix_word_be32:
  "inv_mix_word (be32 a b c d) =
     be32 (mulE a XOR mulB b XOR mulD c XOR mul9 d) (mul9 a XOR mulE b XOR mulB c XOR mulD d)
          (mulD a XOR mul9 b XOR mulE c XOR mulB d) (mulB a XOR mulD b XOR mul9 c XOR mulE d)"
  unfolding inv_mix_word_def index_be32 Te_nth unat_low_be32 Td_nth inv_sub_byte_sub_byte be32_xor
  by (simp only: xor.assoc)

lemmas mul_defs = mul3_def mul9_def mulB_def mulD_def mulE_def

lemma xor_cancel2 [simp]: "(a :: u8) XOR (a XOR b) = b"
  by (simp add: xor.assoc [symmetric])

lemma inv_mix_word_xor: "inv_mix_word (v XOR w) = inv_mix_word v XOR inv_mix_word w"
proof -
  obtain a b c d where v: "v = be32 a b c d" by (rule be32_cases)
  obtain a' b' c' d' where w: "w = be32 a' b' c' d'" by (rule be32_cases)
  show ?thesis unfolding v w be32_xor inv_mix_word_be32 mul_defs xtime_xor by (simp add: ac_simps)
qed

lemma inv_mix_mix: "inv_mix_word (mix_word w) = w"
proof -
  obtain a b c d where w: "w = be32 a b c d" by (rule be32_cases)
  show ?thesis
    unfolding w mix_word_def Let_def
    by (simp add: inv_mix_word_be32 mul_defs xtime_xor ac_simps)
qed


subsection \<open>Rounds as substitution, shift, mixing and key addition\<close>

fun map4 :: "(u32 \<Rightarrow> u32) \<Rightarrow> rstate \<Rightarrow> rstate" where
  "map4 f (s0, s1, s2, s3) = (f s0, f s1, f s2, f s3)"

fun xor4 :: "rstate \<Rightarrow> rstate \<Rightarrow> rstate" where
  "xor4 (s0, s1, s2, s3) (t0, t1, t2, t3) = (s0 XOR t0, s1 XOR t1, s2 XOR t2, s3 XOR t3)"

definition round_key :: "u32 list \<Rightarrow> nat \<Rightarrow> rstate" where
  "round_key rk k = (rk ! k, rk ! (k + 1), rk ! (k + 2), rk ! (k + 3))"

definition sub_column :: "u32 \<Rightarrow> u32 \<Rightarrow> u32 \<Rightarrow> u32 \<Rightarrow> u32" where
  "sub_column p q r s =
     be32 (sub_byte (byte_of 3 p)) (sub_byte (byte_of 2 q)) (sub_byte (byte_of 1 r)) (sub_byte (byte_of 0 s))"

definition inv_sub_column :: "u32 \<Rightarrow> u32 \<Rightarrow> u32 \<Rightarrow> u32 \<Rightarrow> u32" where
  "inv_sub_column p q r s =
     be32 (inv_sub_byte (byte_of 3 p)) (inv_sub_byte (byte_of 2 q))
       (inv_sub_byte (byte_of 1 r)) (inv_sub_byte (byte_of 0 s))"

fun sub_shift :: "rstate \<Rightarrow> rstate" where
  "sub_shift (s0, s1, s2, s3) =
     (sub_column s0 s1 s2 s3, sub_column s1 s2 s3 s0, sub_column s2 s3 s0 s1, sub_column s3 s0 s1 s2)"

fun inv_sub_shift :: "rstate \<Rightarrow> rstate" where
  "inv_sub_shift (s0, s1, s2, s3) =
     (inv_sub_column s0 s3 s2 s1, inv_sub_column s1 s0 s3 s2,
      inv_sub_column s2 s1 s0 s3, inv_sub_column s3 s2 s1 s0)"

lemma be32_bytes: "be32 (byte_of 3 w) (byte_of 2 w) (byte_of 1 w) (byte_of 0 w) = w"
  by (simp add: be32_def)

lemma inv_sub_shift_sub_shift: "inv_sub_shift (sub_shift s) = s"
  by (cases s) (simp add: sub_column_def inv_sub_column_def be32_bytes [simplified])

lemma enc_column:
  "Te0 ! b3 p XOR Te1 ! b2 q XOR Te2 ! b1 r XOR Te3 ! b0 s = mix_word (sub_column p q r s)"
proof -
  obtain a b c d where p: "p = be32 a b c d" by (rule be32_cases)
  obtain a1 b1 c1 d1 where q: "q = be32 a1 b1 c1 d1" by (rule be32_cases)
  obtain a2 b2 c2 d2 where r: "r = be32 a2 b2 c2 d2" by (rule be32_cases)
  obtain a3 b3 c3 d3 where s: "s = be32 a3 b3 c3 d3" by (rule be32_cases)
  show ?thesis
    unfolding p q r s index_be32 Te_nth be32_xor
    by (simp add: mix_word_def sub_column_def Let_def xor.assoc)
qed

lemma dec_column:
  "Td0 ! b3 p XOR Td1 ! b2 q XOR Td2 ! b1 r XOR Td3 ! b0 s = inv_mix_word (inv_sub_column p q r s)"
proof -
  obtain a b c d where p: "p = be32 a b c d" by (rule be32_cases)
  obtain a1 b1 c1 d1 where q: "q = be32 a1 b1 c1 d1" by (rule be32_cases)
  obtain a2 b2 c2 d2 where r: "r = be32 a2 b2 c2 d2" by (rule be32_cases)
  obtain a3 b3 c3 d3 where s: "s = be32 a3 b3 c3 d3" by (rule be32_cases)
  show ?thesis
    unfolding p q r s index_be32 Td_nth be32_xor
    by (simp add: inv_sub_column_def inv_mix_word_be32 xor.assoc)
qed

lemma enc_last_column:
  "(Te4 ! b3 p AND 0xff000000) XOR (Te4 ! b2 q AND 0x00ff0000) XOR (Te4 ! b1 r AND 0x0000ff00)
     XOR (Te4 ! b0 s AND 0x000000ff) = sub_column p q r s"
proof -
  obtain a b c d where p: "p = be32 a b c d" by (rule be32_cases)
  obtain a1 b1 c1 d1 where q: "q = be32 a1 b1 c1 d1" by (rule be32_cases)
  obtain a2 b2 c2 d2 where r: "r = be32 a2 b2 c2 d2" by (rule be32_cases)
  obtain a3 b3 c3 d3 where s: "s = be32 a3 b3 c3 d3" by (rule be32_cases)
  show ?thesis
    unfolding p q r s index_be32 Te_nth and_be32 be32_xor by (simp add: sub_column_def)
qed

lemma dec_last_column:
  "(Td4 ! b3 p AND 0xff000000) XOR (Td4 ! b2 q AND 0x00ff0000) XOR (Td4 ! b1 r AND 0x0000ff00)
     XOR (Td4 ! b0 s AND 0x000000ff) = inv_sub_column p q r s"
proof -
  obtain a b c d where p: "p = be32 a b c d" by (rule be32_cases)
  obtain a1 b1 c1 d1 where q: "q = be32 a1 b1 c1 d1" by (rule be32_cases)
  obtain a2 b2 c2 d2 where r: "r = be32 a2 b2 c2 d2" by (rule be32_cases)
  obtain a3 b3 c3 d3 where s: "s = be32 a3 b3 c3 d3" by (rule be32_cases)
  show ?thesis
    unfolding p q r s index_be32 Td_nth and_be32 be32_xor by (simp add: inv_sub_column_def)
qed

lemma add_key_xor4: "add_key rk k s = xor4 s (round_key rk k)"
  by (cases s) (simp add: round_key_def)

lemma enc_round_eq: "enc_round rk k s = xor4 (map4 mix_word (sub_shift s)) (round_key rk k)"
  by (cases s) (simp add: enc_column [symmetric] round_key_def xor.assoc)

lemma dec_round_eq: "dec_round rk k s = xor4 (map4 inv_mix_word (inv_sub_shift s)) (round_key rk k)"
  by (cases s) (simp add: dec_column [symmetric] round_key_def xor.assoc)

lemma enc_last_eq: "enc_last rk k s = xor4 (sub_shift s) (round_key rk k)"
  by (cases s) (simp add: enc_last_column [symmetric] round_key_def xor.assoc)

lemma dec_last_eq: "dec_last rk k s = xor4 (inv_sub_shift s) (round_key rk k)"
  by (cases s) (simp add: dec_last_column [symmetric] round_key_def xor.assoc)

lemma xor4_cancel [simp]: "xor4 (xor4 s k) k = s"
  by (cases s; cases k) (simp add: xor.assoc)

lemma map4_inv_mix_xor4: "map4 inv_mix_word (xor4 s t) = xor4 (map4 inv_mix_word s) (map4 inv_mix_word t)"
  by (cases s; cases t) (simp add: inv_mix_word_xor)

lemma map4_inv_mix_mix [simp]: "map4 inv_mix_word (map4 mix_word s) = s"
  by (cases s) (simp add: inv_mix_mix)

text \<open>One round of decryption with the transformed key undoes one round of encryption.\<close>

lemma dec_round_enc_round:
  assumes "round_key dk j = map4 inv_mix_word (round_key rk k)"
  shows "dec_round dk j (sub_shift (enc_round rk k s)) = sub_shift s"
  by (simp add: dec_round_eq enc_round_eq inv_sub_shift_sub_shift map4_inv_mix_xor4 assms)


subsection \<open>The loops\<close>

primrec enc_rounds :: "u32 list \<Rightarrow> nat \<Rightarrow> rstate \<Rightarrow> rstate" where
  "enc_rounds rk 0 s = s"
| "enc_rounds rk (Suc n) s = enc_round rk (4 * Suc n) (enc_rounds rk n s)"

primrec dec_rounds :: "u32 list \<Rightarrow> nat \<Rightarrow> rstate \<Rightarrow> rstate" where
  "dec_rounds rk 0 s = s"
| "dec_rounds rk (Suc n) s = dec_round rk (4 * Suc n) (dec_rounds rk n s)"

lemma enc_loop_rounds:
  "enc_loop rk (8 * i) (Suc r) (enc_rounds rk (2 * i) s) =
     (enc_rounds rk (2 * (i + r) + 1) s, 8 * (i + r + 1))"
proof (induction r arbitrary: i)
  case 0
  show ?case by (subst enc_loop.simps) (simp add: add.commute)
next
  case (Suc r)
  have "enc_round rk (8 * i + 8) (enc_round rk (8 * i + 4) (enc_rounds rk (2 * i) s)) =
      enc_rounds rk (2 * (i + 1)) s" by (simp add: add.commute)
  with Suc [of "i + 1"] show ?case by (subst enc_loop.simps) (simp add: Let_def add_ac)
qed

lemma dec_loop_rounds:
  "dec_loop rk (8 * i) (Suc r) (dec_rounds rk (2 * i) s) =
     (dec_rounds rk (2 * (i + r) + 1) s, 8 * (i + r + 1))"
proof (induction r arbitrary: i)
  case 0
  show ?case by (subst dec_loop.simps) (simp add: add.commute)
next
  case (Suc r)
  have "dec_round rk (8 * i + 8) (dec_round rk (8 * i + 4) (dec_rounds rk (2 * i) s)) =
      dec_rounds rk (2 * (i + 1)) s" by (simp add: add.commute)
  with Suc [of "i + 1"] show ?case by (subst dec_loop.simps) (simp add: Let_def add_ac)
qed

lemma dec_rounds_enc_rounds:
  assumes keys: "\<And>i. 0 < i \<Longrightarrow> i < n \<Longrightarrow> round_key dk (4 * i) = map4 inv_mix_word (round_key rk (4 * (n - i)))"
    and "m < n"
  shows "dec_rounds dk m (sub_shift (enc_rounds rk (n - 1) s)) = sub_shift (enc_rounds rk (n - 1 - m) s)"
  using \<open>m < n\<close>
proof (induction m)
  case (Suc m)
  then have n: "n - Suc m = Suc (n - 1 - Suc m)" "n - 1 - m = Suc (n - 1 - Suc m)" by simp_all
  with Suc have "dec_rounds dk (Suc m) (sub_shift (enc_rounds rk (n - 1) s)) =
      dec_round dk (4 * Suc m) (sub_shift (enc_round rk (4 * (n - Suc m)) (enc_rounds rk (n - 1 - Suc m) s)))"
    by simp
  also have "\<dots> = sub_shift (enc_rounds rk (n - 1 - Suc m) s)"
    using keys [of "Suc m"] Suc.prems by (intro dec_round_enc_round) simp
  finally show ?case .
qed simp


subsection \<open>Blocks\<close>

lemma length_16_cases:
  assumes "length xs = 16"
  obtains a0 a1 a2 a3 b0 b1 b2 b3 c0 c1 c2 c3 d0 d1 d2 d3
  where "xs = [a0, a1, a2, a3] @ [b0, b1, b2, b3] @ [c0, c1, c2, c3] @ [d0, d1, d2, d3]"
  using assms by (auto simp: numeral_eq_Suc length_Suc_conv)

lemma put_get_block: "length pt = 16 \<Longrightarrow> put_block (get_block pt) = pt"
  by (erule length_16_cases) (simp add: get_block_def GETU32_be32)

lemma get_put_block [simp]: "get_block (put_block s) = s"
proof -
  obtain s0 s1 s2 s3 where s: "s = (s0, s1, s2, s3)" by (cases s)
  obtain a b c d where s0: "s0 = be32 a b c d" by (rule be32_cases)
  obtain e f g h where s1: "s1 = be32 e f g h" by (rule be32_cases)
  obtain i j k l where s2: "s2 = be32 i j k l" by (rule be32_cases)
  obtain m n p q where s3: "s3 = be32 m n p q" by (rule be32_cases)
  show ?thesis unfolding s s0 s1 s2 s3 by (simp add: get_block_def GETU32_be32)
qed

lemma length_put_block [simp]: "length (put_block s) = 16"
  by (cases s) (simp add: PUTU32_def)

text \<open>The relation between the two key schedules that makes decryption the inverse.\<close>

definition inverse_schedule :: "u32 list \<Rightarrow> u32 list \<Rightarrow> nat \<Rightarrow> bool" where
  "inverse_schedule rk dk n \<longleftrightarrow>
     round_key dk 0 = round_key rk (4 * n) \<and> round_key dk (4 * n) = round_key rk 0 \<and>
     (\<forall>i. 0 < i \<longrightarrow> i < n \<longrightarrow> round_key dk (4 * i) = map4 inv_mix_word (round_key rk (4 * (n - i))))"

lemma Decrypt_Encrypt:
  assumes sched: "inverse_schedule rk dk n" and n: "even n" "0 < n" and pt: "length pt = 16"
  shows "rijndaelDecrypt dk n (rijndaelEncrypt rk n pt) = pt"
proof -
  obtain r where r: "n = 2 * Suc r" using n by (auto elim!: evenE intro: that[of "n div 2 - 1"])
  let ?s = "add_key rk 0 (get_block pt)" and ?last = "4 * n"
  have enc: "rijndaelEncrypt rk n pt = put_block (enc_last rk (4 * n) (enc_rounds rk (n - 1) ?s))"
    using enc_loop_rounds [of rk 0 r ?s] by (simp add: rijndaelEncrypt_def r)
  have dec: "rijndaelDecrypt dk n ct =
      put_block (dec_last dk (4 * n) (dec_rounds dk (n - 1) (add_key dk 0 (get_block ct))))" for ct
    using dec_loop_rounds [of dk 0 r "add_key dk 0 (get_block ct)"] by (simp add: rijndaelDecrypt_def r)
  have "add_key dk 0 (get_block (rijndaelEncrypt rk n pt)) = sub_shift (enc_rounds rk (n - 1) ?s)"
    using sched by (simp add: enc add_key_xor4 enc_last_eq inverse_schedule_def)
  moreover have "dec_rounds dk (n - 1) (sub_shift (enc_rounds rk (n - 1) ?s)) = sub_shift ?s"
    using dec_rounds_enc_rounds [of n dk rk "n - 1" ?s] sched n by (simp add: inverse_schedule_def)
  ultimately have "rijndaelDecrypt dk n (rijndaelEncrypt rk n pt) = put_block (dec_last dk (4 * n) (sub_shift ?s))"
    by (simp only: dec)
  also have "dec_last dk (4 * n) (sub_shift ?s) = get_block pt"
    using sched by (simp add: dec_last_eq inv_sub_shift_sub_shift inverse_schedule_def add_key_xor4)
  finally show ?thesis using pt by (simp add: put_get_block)
qed


subsection \<open>The key schedules are inverse to each other\<close>

lemma index_4:
  fixes b x c :: nat
  assumes "c < 4"
  shows "4 * b + c = 4 * x \<longleftrightarrow> b = x \<and> c = 0" "4 * b + c = 4 * x + 1 \<longleftrightarrow> b = x \<and> c = 1"
    "4 * b + c = 4 * x + 2 \<longleftrightarrow> b = x \<and> c = 2" "4 * b + c = 4 * x + 3 \<longleftrightarrow> b = x \<and> c = 3"
  using assms by presburger+

lemma less_4_cases: "c < 4 \<Longrightarrow> c = 0 \<or> c = 1 \<or> c = 2 \<or> c = (3 :: nat)"
  by arith

lemma round_key_eqI:
  assumes "\<And>c. c < 4 \<Longrightarrow> rk ! (4 * b + c) = rk' ! (4 * b' + c)"
  shows "round_key rk (4 * b) = round_key rk' (4 * b')"
  using assms [of 0] assms [of 1] assms [of 2] assms [of 3] by (simp add: round_key_def)

lemma length_swap4 [simp]: "length (swap4 rk i j) = length rk"
  by (simp add: swap4_def Let_def)

lemma length_invert_order [simp]: "length (invert_order rk i j) = length rk"
proof (induction rk i j rule: invert_order.induct)
  case (1 rk i j)
  then show ?case by (subst invert_order.simps) simp
qed

lemma nth_swap4:
  assumes "x < y" "4 * y + 3 < length rk" "c < 4"
  shows "swap4 rk (4 * x) (4 * y) ! (4 * b + c) =
    (if b = x then rk ! (4 * y + c) else if b = y then rk ! (4 * x + c) else rk ! (4 * b + c))"
  using less_4_cases [OF assms(3)] assms(1,2)
  by (elim disjE)
    (simp_all add: swap4_def Let_def nth_list_update index_4 index_4 [of 0, simplified])

lemma round_key_swap4:
  assumes "x < y" "4 * y + 3 < length rk"
  shows "round_key (swap4 rk (4 * x) (4 * y)) (4 * b) =
    round_key rk (4 * (if b = x then y else if b = y then x else b))"
  using assms by (intro round_key_eqI) (simp add: nth_swap4)

lemma round_key_invert_order:
  "4 * y + 3 < length rk \<Longrightarrow>
     round_key (invert_order rk (4 * x) (4 * y)) (4 * b) =
       round_key rk (4 * (if x \<le> b \<and> b \<le> y then x + y - b else b))"
proof (induction "y - x" arbitrary: x y rk rule: less_induct)
  case less
  show ?case
  proof (cases "x < y")
    case True
    have "invert_order rk (4 * x) (4 * y) = invert_order (swap4 rk (4 * x) (4 * y)) (4 * Suc x) (4 * (y - 1))"
      using True by (subst invert_order.simps) (simp add: diff_mult_distrib2 add.commute)
    moreover have "round_key (invert_order (swap4 rk (4 * x) (4 * y)) (4 * Suc x) (4 * (y - 1))) (4 * b) =
        round_key (swap4 rk (4 * x) (4 * y)) (4 * (if Suc x \<le> b \<and> b \<le> y - 1 then Suc x + (y - 1) - b else b))"
      using True less.prems by (intro less.hyps) auto
    ultimately show ?thesis
      using True less.prems by (auto simp: round_key_swap4)
  next
    case False
    then have "(if x \<le> b \<and> b \<le> y then x + y - b else b) = b" by auto
    with False show ?thesis by (subst invert_order.simps) simp
  qed
qed

lemma nth_mix_step:
  assumes "4 * k + 3 < length rk" "c < 4"
  shows "rk[4 * k := f (rk ! (4 * k)), 4 * k + 1 := f (rk ! (4 * k + 1)),
      4 * k + 2 := f (rk ! (4 * k + 2)), 4 * k + 3 := f (rk ! (4 * k + 3))] ! (4 * b + c) =
    (if b = k then f (rk ! (4 * b + c)) else rk ! (4 * b + c))"
  using less_4_cases [OF assms(2)] assms(1)
  by (elim disjE) (simp_all add: nth_list_update index_4 index_4 [of 0, simplified])

lemma inv_mix_keys_Suc:
  "inv_mix_keys (Suc n) (4 * k) rk = inv_mix_keys n (4 * Suc k)
     (rk[4 * Suc k := inv_mix_word (rk ! (4 * Suc k)), 4 * Suc k + 1 := inv_mix_word (rk ! (4 * Suc k + 1)),
       4 * Suc k + 2 := inv_mix_word (rk ! (4 * Suc k + 2)), 4 * Suc k + 3 := inv_mix_word (rk ! (4 * Suc k + 3))])"
  by (simp add: Let_def add_ac)

lemma length_inv_mix_keys [simp]: "length (inv_mix_keys n k rk) = length rk"
  by (induction n arbitrary: k rk) (simp_all add: Let_def)

lemma map4_round_key: "map4 f (round_key rk k) = (f (rk ! k), f (rk ! (k + 1)), f (rk ! (k + 2)), f (rk ! (k + 3)))"
  by (simp add: round_key_def)

lemma round_key_mix_step:
  assumes "4 * k + 3 < length rk"
  shows "round_key (rk[4 * k := f (rk ! (4 * k)), 4 * k + 1 := f (rk ! (4 * k + 1)),
      4 * k + 2 := f (rk ! (4 * k + 2)), 4 * k + 3 := f (rk ! (4 * k + 3))]) (4 * b) =
    (if b = k then map4 f (round_key rk (4 * b)) else round_key rk (4 * b))"
  using nth_mix_step [OF assms, of 0 f b] nth_mix_step [OF assms, of 1 f b]
    nth_mix_step [OF assms, of 2 f b] nth_mix_step [OF assms, of 3 f b]
  by (simp add: round_key_def)

lemma round_key_inv_mix_keys:
  "4 * (k + n) + 3 < length rk \<Longrightarrow>
     round_key (inv_mix_keys n (4 * k) rk) (4 * b) =
       (if k < b \<and> b \<le> k + n then map4 inv_mix_word (round_key rk (4 * b)) else round_key rk (4 * b))"
proof (induction n arbitrary: k rk)
  case (Suc n)
  then have "4 * Suc k + 3 < length rk" by simp
  note step = round_key_mix_step [OF this, of inv_mix_word b]
  show ?case
    unfolding inv_mix_keys_Suc using Suc.prems
    by (subst Suc.IH) (auto simp only: step length_list_update, auto)
qed auto

lemma length_expand [simp]:
  "length (expand128 n k rk) = length rk" "length (expand192 n k rk) = length rk"
  "length (expand256 n k rk) = length rk"
  by (induction n arbitrary: k rk) (simp_all add: Let_def)

lemma KeySetup_inverse:
  assumes "keyBits \<in> {128, 192, 256}" and "length rk = 60"
    and "rijndaelKeySetupEnc rk key keyBits = (ek, n)"
    and "rijndaelKeySetupDec rk key keyBits = (dk, n')"
  shows "n' = n" and "n \<in> {10, 12, 14}" and "inverse_schedule ek dk n"
proof -
  have n: "n \<in> {10, 12, 14}" and ek: "length ek = 60"
    using assms(1,2,3) by (auto simp: rijndaelKeySetupEnc_def Let_def split: if_splits)
  then show "n \<in> {10, 12, 14}" by simp
  have dk: "dk = inv_mix_keys (n - 1) 0 (invert_order ek 0 (4 * n))" and "n' = n"
    using assms(3,4) by (auto simp: rijndaelKeySetupDec_def)
  then show "n' = n" by simp
  have key: "round_key dk (4 * b) = (if 0 < b \<and> b \<le> n - 1 then map4 inv_mix_word (round_key ek (4 * (n - b)))
      else round_key ek (4 * (if b \<le> n then n - b else b)))" for b
    unfolding dk using round_key_inv_mix_keys [of 0 "n - 1" "invert_order ek 0 (4 * n)" b]
      round_key_invert_order [of n ek 0 b] n ek by auto
  show "inverse_schedule ek dk n"
    unfolding inverse_schedule_def using key [of 0] key [of n] key n by auto
qed

text \<open>
  C14: For every key and each of the three key sizes, decrypting with the schedule of
  \<open>rijndaelKeySetupDec\<close> a block that was encrypted with the schedule of \<open>rijndaelKeySetupEnc\<close>
  gives the block back, and both schedules have the same number of rounds.
\<close>

theorem rijndael_round_trip:
  assumes "keyBits \<in> {128, 192, 256}" and "length rk = 60" and "length pt = 16"
  shows "case rijndaelKeySetupEnc rk key keyBits of (ek, n) \<Rightarrow>
    case rijndaelKeySetupDec rk key keyBits of (dk, n') \<Rightarrow>
      n' = n \<and> n \<in> {10, 12, 14} \<and> rijndaelDecrypt dk n' (rijndaelEncrypt ek n pt) = pt"
proof -
  obtain ek n where enc: "rijndaelKeySetupEnc rk key keyBits = (ek, n)" by fastforce
  obtain dk n' where dec: "rijndaelKeySetupDec rk key keyBits = (dk, n')" by fastforce
  note inv = KeySetup_inverse [OF assms(1,2) enc dec]
  then have "rijndaelDecrypt dk n' (rijndaelEncrypt ek n pt) = pt"
    using assms(3) by (auto intro: Decrypt_Encrypt)
  with inv enc dec show ?thesis by simp
qed

theorem rijndael_round_trip_witness:
  "case rijndaelKeySetupEnc (replicate 60 0) (replicate 32 1) 192 of (ek, n) \<Rightarrow>
    case rijndaelKeySetupDec (replicate 60 0) (replicate 32 1) 192 of (dk, n') \<Rightarrow>
      n' = n \<and> n \<in> {10, 12, 14} \<and> rijndaelDecrypt dk n' (rijndaelEncrypt ek n (replicate 16 7)) = replicate 16 7"
  by (rule rijndael_round_trip) simp_all

end
