(* ===== verification/Memory.thy ===== *)
theory Memory
  imports Prelude "HOL-Library.Sublist"
begin

text \<open>
  What the two dynamic string types of the code base share: memory accesses that may fault, the
  allocator as a parameter, the arithmetic of growing a buffer in blocks of 1024 bytes, and the
  interface of a growable string with the lemmas its clients use.
\<close>

subsection \<open>Faulting accesses\<close>

text \<open>\<open>Fault\<close> is an access through a null pointer or outside of the accessed object.\<close>

datatype 'a outcome = Fault | Done 'a

fun obind :: "'a outcome \<Rightarrow> ('a \<Rightarrow> 'b outcome) \<Rightarrow> 'b outcome" where
  "obind Fault f = Fault"
| "obind (Done x) f = f x"

lemma obind_Done_iff: "obind m f = Done y \<longleftrightarrow> (\<exists>x. m = Done x \<and> f x = Done y)"
  by (cases m) simp_all

lemma obind_cong [fundef_cong]:
  "m = m' \<Longrightarrow> (\<And>x. m' = Done x \<Longrightarrow> f x = f' x) \<Longrightarrow> obind m f = obind m' f'"
  by (cases m') simp_all

text \<open>Error numbers of the platform.\<close>

definition EINTR :: int where "EINTR = 4"
definition EWOULDBLOCK :: int where "EWOULDBLOCK = 11"
definition ENOMEM :: int where "ENOMEM = 12"
definition EINVAL :: int where "EINVAL = 22"
definition ECONNRESET :: int where "ECONNRESET = 104"
definition ENOTCONN :: int where "ENOTCONN = 107"
definition ETIMEDOUT :: int where "ETIMEDOUT = 110"
definition ECONNREFUSED :: int where "ECONNREFUSED = 111"

text \<open>A \<open>memcpy\<close> of \<open>src\<close> to offset \<open>off\<close> of an object that may be absent.\<close>

definition store_at :: "bytes option \<Rightarrow> nat \<Rightarrow> bytes \<Rightarrow> bytes option outcome" where
  "store_at obj off src =
     (case obj of
        None \<Rightarrow> if src = [] then Done None else Fault
      | Some buf \<Rightarrow> if off + length src \<le> length buf
                    then Done (Some (memcpy_at buf off src (length src))) else Fault)"

text \<open>
  The allocator: the contents of a fresh object of the given size, or \<^const>\<open>None\<close> when it fails.
  Objects have the size asked for and are smaller than \<open>PTRDIFF_MAX\<close>.
\<close>

type_synonym heap = "nat \<Rightarrow> bytes option"

definition heap_ok :: "heap \<Rightarrow> bool" where
  "heap_ok heap \<longleftrightarrow> (\<forall>n b. heap n = Some b \<longrightarrow> length b = n \<and> n < 2 ^ 63)"

definition realloc :: "heap \<Rightarrow> bytes option \<Rightarrow> nat \<Rightarrow> bytes option" where
  "realloc heap old new_size =
     (case heap new_size of
        None \<Rightarrow> None
      | Some fresh \<Rightarrow>
          (case old of None \<Rightarrow> Some fresh
           | Some buf \<Rightarrow> Some (take new_size buf @ drop (length buf) fresh)))"

lemma realloc_Some:
  assumes "heap_ok heap" and "realloc heap old n = Some b"
  shows "length b = n" and "n < 2 ^ 63"
    and "old = Some buf \<Longrightarrow> length buf \<le> n \<Longrightarrow> take (length buf) b = buf"
  using assms by (auto simp: realloc_def heap_ok_def split: option.splits)


subsection \<open>Growing in blocks\<close>

lemma unat_u64_of_nat: "n < 2 ^ 64 \<Longrightarrow> unat (word_of_nat n :: u64) = n"
  by (simp add: unsigned_of_nat take_bit_eq_mod)

lemma unat_u64_add: "unat w + n < 2 ^ 64 \<Longrightarrow> unat (w + word_of_nat n :: u64) = unat w + n"
  by (simp add: unat_word_ariths unsigned_of_nat take_bit_eq_mod)

definition block_adjust :: "u64 \<Rightarrow> u64 \<Rightarrow> u64 \<Rightarrow> u64" where
  "block_adjust need current_size used = (need - (current_size - used)) div 1024 + 1"

lemma block_round_up: "(x div 1024 + 1) * 1024 \<le> x + 1024" "x < (x div 1024 + 1) * (1024 :: nat)"
  using div_mult_mod_eq [of x 1024] mod_less_divisor [of 1024 x] by (simp_all add: add_mult_distrib)

lemma block_growth:
  fixes need cur used :: u64
  assumes used: "used \<le> cur" and big: "need > cur - used" and small: "unat cur + 1024 < 2 ^ 64"
    and nowrap: "\<not> block_adjust need cur used * 1024 + cur < need"
  shows "unat (block_adjust need cur used * 1024 + cur) = unat (block_adjust need cur used) * 1024 + unat cur"
    and "unat used + unat need \<le> unat (block_adjust need cur used * 1024 + cur)"
proof -
  define F where "F = unat cur - unat used"
  define A where "A = (unat need - F) div 1024 + 1"
  have le: "unat used \<le> unat cur" using used by (simp add: word_le_nat_alt)
  have F: "unat (cur - used) = F" using used by (simp add: F_def unat_sub)
  have N: "F < unat need" using big by (simp add: word_less_nat_alt F)
  have N64: "unat need < 2 ^ 64" using unsigned_less [of need] by simp
  have sub: "unat (need - (cur - used)) = unat need - F"
    using N by (subst unat_sub) (simp_all add: word_le_nat_alt F)
  have Ab: "A * 1024 \<le> unat need - F + 1024" "unat need - F < A * 1024"
    unfolding A_def by (rule block_round_up)+
  have "A < 2 ^ 64" using Ab N64 by simp
  then have A: "unat (block_adjust need cur used) = A"
    by (simp add: block_adjust_def A_def sub unat_word_ariths unat_div)
  let ?T = "A * 1024 + unat cur"
  have T: "unat (block_adjust need cur used * 1024 + cur) = ?T mod 2 ^ 64"
    by (simp add: unat_word_ariths A mod_add_left_eq)
  have ge: "unat used + unat need \<le> ?T"
    using Ab le N by (simp add: F_def)
  have "?T < 2 ^ 64"
  proof (rule ccontr)
    assume "\<not> ?T < 2 ^ 64"
    moreover have "?T \<le> unat need + unat used + 1024" using Ab le N by (simp add: F_def)
    ultimately have "?T mod 2 ^ 64 = ?T - 2 ^ 64" "?T - 2 ^ 64 < unat need"
      using small le N64 by (simp_all add: le_mod_geq)
    with nowrap T show False by (simp add: word_less_nat_alt)
  qed
  with T A ge show "unat (block_adjust need cur used * 1024 + cur) = unat (block_adjust need cur used) * 1024 + unat cur"
    and "unat used + unat need \<le> unat (block_adjust need cur used * 1024 + cur)"
    by simp_all
qed


subsection \<open>Buffers with a used prefix\<close>

fun object_ok :: "u64 \<Rightarrow> bytes option \<Rightarrow> bool" where
  "object_ok sz None \<longleftrightarrow> sz = 0"
| "object_ok sz (Some buf) \<longleftrightarrow> length buf = unat sz \<and> length buf < 2 ^ 63"

fun used_prefix :: "u64 \<Rightarrow> bytes option \<Rightarrow> bytes" where
  "used_prefix n None = []"
| "used_prefix n (Some buf) = take (unat n) buf"

lemma object_ok_size: "object_ok sz obj \<Longrightarrow> unat sz < 2 ^ 63"
  by (cases obj) simp_all

lemma used_prefix_0 [simp]: "used_prefix 0 obj = []"
  by (cases obj) simp_all

lemma used_prefix_realloc:
  assumes "heap_ok heap" and "realloc heap obj n = Some b" and "object_ok sz obj" and "used \<le> sz" and "unat sz \<le> n"
  shows "take (unat used) b = used_prefix used obj"
proof (cases obj)
  case None
  with assms show ?thesis by simp
next
  case (Some buf)
  with assms have "take (length buf) b = buf" by (intro realloc_Some(3)) simp_all
  then have "take (unat used) (take (length buf) b) = take (unat used) buf" by simp
  with Some assms show ?thesis by (simp add: word_le_nat_alt min_absorb1)
qed

lemma store_at_end:
  assumes "object_ok sz obj" and "unat used + length v \<le> unat sz"
  obtains obj' where "store_at obj (unat used) v = Done obj'" and "object_ok sz obj'"
    and "unat (used + word_of_nat (length v)) = unat used + length v"
    and "used_prefix (used + word_of_nat (length v)) obj' = used_prefix used obj @ v"
proof -
  have "unat sz < 2 ^ 64" using unsigned_less [of sz] by simp
  with assms(2) have add: "unat (used + word_of_nat (length v)) = unat used + length v"
    by (intro unat_u64_add) simp
  show thesis
  proof (cases obj)
    case None
    with assms have "v = []" by simp
    with None assms add that show thesis by (simp add: store_at_def)
  next
    case (Some buf)
    with assms add that show thesis by (simp add: store_at_def)
  qed
qed


subsection \<open>The interface of a growable string\<close>

text \<open>Appending the pieces of a list one after the other, stopping at the first failure.\<close>

fun append_all :: "('s \<Rightarrow> bytes \<Rightarrow> (bool \<times> 's) outcome) \<Rightarrow> bytes list \<Rightarrow> 's \<Rightarrow> (bool \<times> 's) outcome" where
  "append_all app [] s = Done (True, s)"
| "append_all app (v # vs) s =
     obind (app s v) (\<lambda>(ok, s'). if ok then append_all app vs s' else Done (False, s'))"

locale growable_string =
  fixes wf :: "'s \<Rightarrow> bool" and content :: "'s \<Rightarrow> bytes"
    and append :: "'s \<Rightarrow> bytes \<Rightarrow> (bool \<times> 's) outcome" and reset :: "'s \<Rightarrow> 's"
  assumes append_safe: "wf s \<Longrightarrow> length v < 2 ^ 63 \<Longrightarrow> append s v \<noteq> Fault"
    and append_wf: "wf s \<Longrightarrow> length v < 2 ^ 63 \<Longrightarrow> append s v = Done (ok, s') \<Longrightarrow> wf s'"
    and append_content: "wf s \<Longrightarrow> length v < 2 ^ 63 \<Longrightarrow> append s v = Done (ok, s') \<Longrightarrow>
      content s' = (if ok then content s @ v else content s)"
    and reset_wf: "wf s \<Longrightarrow> wf (reset s)" and reset_content: "content (reset s) = []"
begin

lemma append_all_safe:
  "wf s \<Longrightarrow> \<forall>v \<in> set vs. length v < 2 ^ 63 \<Longrightarrow> append_all append vs s \<noteq> Fault"
proof (induction vs arbitrary: s)
  case (Cons v vs)
  then obtain ok s' where "append s v = Done (ok, s')"
    using append_safe [of s v] by (cases "append s v") auto
  with Cons append_wf [of s v ok s'] show ?case by simp
qed simp

lemma append_all_content:
  assumes "wf s" and "\<forall>v \<in> set vs. length v < 2 ^ 63" and "append_all append vs s = Done (ok, s')"
  shows "wf s' \<and> (\<exists>us. prefix us vs \<and> (ok \<longrightarrow> us = vs) \<and> content s' = content s @ concat us)"
  using assms
proof (induction vs arbitrary: s)
  case (Cons v vs)
  then obtain ok1 s1 where app: "append s v = Done (ok1, s1)"
    by (auto simp: obind_Done_iff)
  with Cons.prems have wf: "wf s1" and c: "content s1 = (if ok1 then content s @ v else content s)"
    using append_wf [of s v ok1 s1] append_content [of s v ok1 s1] by simp_all
  show ?case
  proof (cases ok1)
    case True
    with Cons.IH [OF wf] Cons.prems app obtain us where
      "wf s'" "prefix us vs" "ok \<longrightarrow> us = vs" "content s' = content s1 @ concat us" by auto
    with True c show ?thesis by (intro conjI exI [of _ "v # us"]) simp_all
  next
    case False
    with app Cons.prems wf c show ?thesis by (intro conjI exI [of _ "[]"]) simp_all
  qed
qed (auto intro: exI [of _ "[]"])

end

text \<open>An allocator for examples: it grants everything below 64 KiB, zeroed.\<close>

definition small_heap :: heap where
  "small_heap n = (if n < 65536 then Some (replicate n 0) else None)"

lemma heap_ok_small_heap: "heap_ok small_heap"
  by (auto simp: heap_ok_def small_heap_def split: if_splits)

end
