(* ===== verification/Hashkit_String.thy ===== *)
theory Hashkit_String
  imports Memory
begin

text \<open>
  The dynamic string of \<open>libhashkit/string.cc\<close>. The pointer \<open>end\<close> is its distance from \<open>string\<close>,
  the buffer is \<^const>\<open>None\<close> for a null \<open>string\<close>, and \<open>size_t\<close> is a 64-bit word. The assertions of
  \<open>hashkit_string_append\<close> are checked unless the argument \<open>ndebug\<close> (the macro \<open>NDEBUG\<close>) is set; one
  that fails ends the program, which is a fault.
\<close>

definition HASHKIT_BLOCK_SIZE :: u64 where "HASHKIT_BLOCK_SIZE = 1024"

record hashkit_string_st =
  hs_end :: u64
  hs_current_size :: u64
  hs_string :: "bytes option"

definition hs_string_check :: "heap \<Rightarrow> hashkit_string_st \<Rightarrow> u64 \<Rightarrow> bool \<times> hashkit_string_st" where
  "hs_string_check heap s need =
     (if need \<noteq> 0 \<and> need > hs_current_size s - hs_end s then
        let adjust = (need - (hs_current_size s - hs_end s)) div HASHKIT_BLOCK_SIZE;
            adjust = adjust + 1;
            new_size = adjust * HASHKIT_BLOCK_SIZE + hs_current_size s
        in if new_size < need then (False, s)
           else case realloc heap (hs_string s) (unat new_size) of
                  None \<Rightarrow> (False, s)
                | Some new_value \<Rightarrow>
                    (True, s\<lparr>hs_string := Some new_value,
                             hs_current_size := hs_current_size s + HASHKIT_BLOCK_SIZE * adjust\<rparr>)
      else (True, s))"

definition hs_init_string :: "hashkit_string_st \<Rightarrow> hashkit_string_st" where
  "hs_init_string s = s\<lparr>hs_current_size := 0, hs_end := 0, hs_string := None\<rparr>"

text \<open>The structure itself is \<open>calloc\<close>ed: 24 bytes, all zero.\<close>

definition hashkit_string_create :: "heap \<Rightarrow> u64 \<Rightarrow> hashkit_string_st option" where
  "hashkit_string_create heap initial_size =
     (case heap 24 of
        None \<Rightarrow> None
      | Some _ \<Rightarrow>
          let (ok, self) = hs_string_check heap \<lparr>hs_end = 0, hs_current_size = 0, hs_string = None\<rparr> initial_size
          in if ok then Some self else None)"

definition hashkit_string_append_character ::
    "heap \<Rightarrow> hashkit_string_st \<Rightarrow> u8 \<Rightarrow> (bool \<times> hashkit_string_st) outcome" where
  "hashkit_string_append_character heap s character =
     (let (ok, s) = hs_string_check heap s 1
      in if ok then
           obind (store_at (hs_string s) (unat (hs_end s)) [character])
             (\<lambda>str. Done (True, s\<lparr>hs_string := str, hs_end := hs_end s + 1\<rparr>))
         else Done (False, s))"

text \<open>
  The third assertion, \<open>string->end >= string->string\<close>, holds by construction: \<open>end\<close> is a distance.
\<close>

definition hashkit_string_append ::
    "bool \<Rightarrow> heap \<Rightarrow> hashkit_string_st \<Rightarrow> bytes \<Rightarrow> (bool \<times> hashkit_string_st) outcome" where
  "hashkit_string_append ndebug heap s v =
     (let len = word_of_nat (length v);
          (ok, s) = hs_string_check heap s len
      in if ok then
           if \<not> ndebug \<and> \<not> (len \<le> hs_current_size s \<and> hs_string s \<noteq> None) then Fault
           else obind (store_at (hs_string s) (unat (hs_end s)) v)
             (\<lambda>str. Done (True, s\<lparr>hs_string := str, hs_end := hs_end s + len\<rparr>))
         else Done (False, s))"

definition hashkit_string_length :: "hashkit_string_st \<Rightarrow> u64" where
  "hashkit_string_length s = hs_end s"

definition hashkit_string_max_size :: "hashkit_string_st \<Rightarrow> u64" where
  "hashkit_string_max_size s = hs_current_size s"

definition hashkit_string_c_str :: "hashkit_string_st \<Rightarrow> bytes option" where
  "hashkit_string_c_str s = hs_string s"

definition hashkit_string_c_copy :: "heap \<Rightarrow> hashkit_string_st \<Rightarrow> bytes option" where
  "hashkit_string_c_copy heap s =
     (if hashkit_string_length s = 0 then None
      else case heap (unat (hashkit_string_length s + 1)) of
             None \<Rightarrow> None
           | Some c_ptr \<Rightarrow>
               (case hashkit_string_c_str s of
                  None \<Rightarrow> None
                | Some str \<Rightarrow>
                    let n = unat (hashkit_string_length s)
                    in Some ((memcpy_at c_ptr 0 str n)[n := 0])))"

definition hashkit_string_reset :: "hashkit_string_st \<Rightarrow> hashkit_string_st" where
  "hashkit_string_reset s = s\<lparr>hs_end := 0\<rparr>"

definition hashkit_string_resize :: "heap \<Rightarrow> hashkit_string_st \<Rightarrow> u64 \<Rightarrow> bool \<times> hashkit_string_st" where
  "hashkit_string_resize heap s need = hs_string_check heap s need"

definition hashkit_string_take :: "hashkit_string_st \<Rightarrow> bytes option \<times> hashkit_string_st" where
  "hashkit_string_take s = (hs_string s, hs_init_string s)"

definition hashkit_string_set_length :: "heap \<Rightarrow> hashkit_string_st \<Rightarrow> u64 \<Rightarrow> hashkit_string_st" where
  "hashkit_string_set_length heap s len =
     (let (ok, s) = hs_string_check heap s len
      in if ok then s\<lparr>hs_end := len\<rparr> else s)"


subsection \<open>Invariant\<close>

definition hs_wf :: "hashkit_string_st \<Rightarrow> bool" where
  "hs_wf s \<longleftrightarrow> hs_end s \<le> hs_current_size s \<and> object_ok (hs_current_size s) (hs_string s)"

definition hs_content :: "hashkit_string_st \<Rightarrow> bytes" where
  "hs_content s = used_prefix (hs_end s) (hs_string s)"

lemma hs_string_check_eq:
  "hs_string_check heap s need =
     (let new = block_adjust need (hs_current_size s) (hs_end s) * 1024 + hs_current_size s
      in if need \<noteq> 0 \<and> need > hs_current_size s - hs_end s then
           if new < need then (False, s)
           else case realloc heap (hs_string s) (unat new) of None \<Rightarrow> (False, s)
                | Some b \<Rightarrow> (True, s\<lparr>hs_string := Some b, hs_current_size := new\<rparr>)
         else (True, s))"
proof -
  have "(need - (hs_current_size s - hs_end s)) div HASHKIT_BLOCK_SIZE + 1 =
      block_adjust need (hs_current_size s) (hs_end s)"
    by (simp add: block_adjust_def HASHKIT_BLOCK_SIZE_def)
  then show ?thesis
    unfolding hs_string_check_def Let_def HASHKIT_BLOCK_SIZE_def
    by (simp only: add.commute [of "hs_current_size s"] mult.commute [of 1024])
qed

lemma hs_string_check_cases:
  assumes "hs_string_check heap s need = (ok, s')"
  defines "new \<equiv> block_adjust need (hs_current_size s) (hs_end s) * 1024 + hs_current_size s"
    and "free \<equiv> hs_current_size s - hs_end s"
  shows "(ok \<and> s' = s \<and> (need = 0 \<or> need \<le> free)) \<or> (\<not> ok \<and> s' = s) \<or>
    (\<exists>b. ok \<and> need > free \<and> \<not> new < need \<and> realloc heap (hs_string s) (unat new) = Some b \<and>
      s' = s\<lparr>hs_string := Some b, hs_current_size := new\<rparr>)"
  using assms(1)
  unfolding hs_string_check_eq Let_def new_def [symmetric] free_def [symmetric]
  by (auto split: if_splits option.splits)

lemma hs_string_check_ok:
  assumes heap: "heap_ok heap" and wf: "hs_wf s" and chk: "hs_string_check heap s need = (ok, s')"
  shows "hs_wf s'" and "hs_content s' = hs_content s" and "hs_end s' = hs_end s"
    and "ok \<Longrightarrow> unat (hs_end s') + unat need \<le> unat (hs_current_size s')"
proof -
  let ?cur = "hs_current_size s" and ?used = "hs_end s"
  let ?new = "block_adjust need ?cur ?used * 1024 + ?cur"
  have used: "?used \<le> ?cur" and obj: "object_ok ?cur (hs_string s)" using wf by (simp_all add: hs_wf_def)
  from used have used': "unat ?used \<le> unat ?cur" by (simp add: word_le_nat_alt)
  from obj have cur: "unat ?cur < 2 ^ 63" by (rule object_ok_size)
  have free: "unat (?cur - ?used) = unat ?cur - unat ?used" using used by (simp add: unat_sub)
  consider (room) "ok" "s' = s" "need = 0 \<or> need \<le> ?cur - ?used"
    | (failed) "\<not> ok" "s' = s"
    | (grown) b where "ok" "need > ?cur - ?used" "\<not> ?new < need" "realloc heap (hs_string s) (unat ?new) = Some b"
        "s' = s\<lparr>hs_string := Some b, hs_current_size := ?new\<rparr>"
    using hs_string_check_cases [OF chk] by blast
  then have "hs_wf s' \<and> hs_content s' = hs_content s \<and> hs_end s' = hs_end s \<and>
      (ok \<longrightarrow> unat (hs_end s') + unat need \<le> unat (hs_current_size s'))"
  proof cases
    case room
    then show ?thesis using wf used' by (auto simp: word_le_nat_alt free)
  next
    case failed
    then show ?thesis using wf by simp
  next
    case grown
    from cur have small: "unat ?cur + 1024 < 2 ^ 64" by simp
    note growth = block_growth [OF used grown(2) small grown(3)]
    note b = realloc_Some [OF heap grown(4)]
    have keep: "take (unat ?used) b = hs_content s"
      unfolding hs_content_def using growth(1) by (intro used_prefix_realloc [OF heap grown(4) obj used]) simp
    have "?used \<le> ?new" using growth used' by (simp add: word_le_nat_alt)
    with grown b keep growth show ?thesis
      by (simp add: hs_wf_def hs_content_def)
  qed
  then show "hs_wf s'" and "hs_content s' = hs_content s" and "hs_end s' = hs_end s"
    and "ok \<Longrightarrow> unat (hs_end s') + unat need \<le> unat (hs_current_size s')" by blast+
qed


text \<open>
  Every append either fails and leaves the content as it is, or appends; it faults only when the
  assertions are checked, the string has no buffer and nothing is appended.
\<close>

lemma store_at_None: "store_at obj off v = Done obj' \<Longrightarrow> obj' = None \<longleftrightarrow> obj = None"
  by (auto simp: store_at_def split: option.splits if_splits)

lemma hs_string_check_buffer:
  assumes "heap_ok heap" and "hs_wf s" and "hs_string_check heap s need = (True, s')"
  shows "hs_string s' = None \<longleftrightarrow> hs_string s = None \<and> need = 0"
proof -
  have "hs_string s = None \<Longrightarrow> hs_current_size s = 0 \<and> hs_end s = 0"
    using assms(2) by (auto simp: hs_wf_def)
  then show ?thesis
    using hs_string_check_cases [OF assms(3)] by auto
qed

lemma hashkit_string_append_ok:
  assumes "heap_ok heap" and "hs_wf s" and len: "length v < 2 ^ 63"
    and "ndebug \<or> hs_string s \<noteq> None \<or> v \<noteq> []"
  shows "\<exists>ok s'. hashkit_string_append ndebug heap s v = Done (ok, s') \<and> hs_wf s' \<and>
    hs_content s' = (if ok then hs_content s @ v else hs_content s) \<and>
    (ok \<longrightarrow> ndebug \<or> hs_string s' \<noteq> None) \<and> (hs_string s \<noteq> None \<longrightarrow> hs_string s' \<noteq> None)"
proof -
  have v: "unat (word_of_nat (length v) :: u64) = length v"
    using len by (intro unat_u64_of_nat) simp
  then have zero: "(word_of_nat (length v) :: u64) = 0 \<longleftrightarrow> v = []"
    using unsigned_eq_0_iff [of "word_of_nat (length v) :: u64", where 'a = nat] by simp
  obtain ok s1 where chk: "hs_string_check heap s (word_of_nat (length v)) = (ok, s1)"
    by (cases "hs_string_check heap s (word_of_nat (length v))")
  note s1 = hs_string_check_ok [OF assms(1,2) chk, unfolded v]
  show ?thesis
  proof (cases ok)
    case False
    with hs_string_check_cases [OF chk] have "s1 = s" by auto
    with False chk assms(2) show ?thesis by (auto simp: hashkit_string_append_def)
  next
    case True
    let ?len = "word_of_nat (length v)"
    have buf: "hs_string s1 = None \<longleftrightarrow> hs_string s = None \<and> v = []"
      using hs_string_check_buffer [OF assms(1,2)] chk True zero by simp
    have fits: "?len \<le> hs_current_size s1" using s1(4) [OF True] v by (simp add: word_le_nat_alt)
    obtain str where str: "store_at (hs_string s1) (unat (hs_end s1)) v = Done str"
      "object_ok (hs_current_size s1) str" "unat (hs_end s1 + ?len) = unat (hs_end s1) + length v"
      "used_prefix (hs_end s1 + ?len) str = used_prefix (hs_end s1) (hs_string s1) @ v"
      using s1(1) s1(4) [OF True] by (auto simp: hs_wf_def elim: store_at_end)
    let ?s = "s1\<lparr>hs_string := str, hs_end := hs_end s1 + ?len\<rparr>"
    have "str = None \<longleftrightarrow> hs_string s1 = None" using str(1) by (rule store_at_None)
    moreover have "hs_wf ?s" using str(2,3) s1(4) [OF True] by (simp add: hs_wf_def word_le_nat_alt)
    moreover have "hs_content ?s = hs_content s @ v"
      using str(4) s1(2) by (simp add: hs_content_def)
    moreover have "hashkit_string_append ndebug heap s v = Done (True, ?s)"
      using True chk str(1) buf fits assms(4) by (auto simp: hashkit_string_append_def)
    ultimately show ?thesis using buf assms(4) by (intro exI [of _ True] exI [of _ ?s]) auto
  qed
qed

lemma hashkit_string_append_asserts:
  "hs_string s = None \<Longrightarrow> hashkit_string_append False heap s [] = Fault"
  by (simp add: hashkit_string_append_def hs_string_check_def)

interpretation hs: growable_string "\<lambda>s. heap_ok heap \<and> hs_wf s \<and> (ndebug \<or> hs_string s \<noteq> None)" hs_content
  "hashkit_string_append ndebug heap" hashkit_string_reset for ndebug heap
proof unfold_locales
  fix s :: hashkit_string_st and v :: bytes and ok s'
  assume wf: "heap_ok heap \<and> hs_wf s \<and> (ndebug \<or> hs_string s \<noteq> None)" and len: "length v < 2 ^ 63"
  then obtain ok' s'' where app: "hashkit_string_append ndebug heap s v = Done (ok', s'')" "hs_wf s''"
      "hs_content s'' = (if ok' then hs_content s @ v else hs_content s)" "ndebug \<or> hs_string s'' \<noteq> None"
    using hashkit_string_append_ok [of heap s v ndebug] by blast
  then show "hashkit_string_append ndebug heap s v \<noteq> Fault" by simp
  assume "hashkit_string_append ndebug heap s v = Done (ok, s')"
  with app wf show "heap_ok heap \<and> hs_wf s' \<and> (ndebug \<or> hs_string s' \<noteq> None)"
      "hs_content s' = (if ok then hs_content s @ v else hs_content s)"
    by simp_all
next
  fix s assume "heap_ok heap \<and> hs_wf s \<and> (ndebug \<or> hs_string s \<noteq> None)"
  then show "heap_ok heap \<and> hs_wf (hashkit_string_reset s) \<and> (ndebug \<or> hs_string (hashkit_string_reset s) \<noteq> None)"
    by (simp add: hs_wf_def hashkit_string_reset_def)
next
  show "hs_content (hashkit_string_reset s) = []" for s
    by (simp add: hs_content_def hashkit_string_reset_def)
qed

lemma append_character_append: "hashkit_string_append_character heap s c = hashkit_string_append True heap s [c]"
  by (cases "hs_string_check heap s 1") (simp add: hashkit_string_append_character_def hashkit_string_append_def)

lemma hashkit_string_create_ok:
  assumes heap: "heap_ok heap" and "hashkit_string_create heap n = Some s"
  shows "hs_wf s" and "hs_end s = 0" and "unat n \<le> unat (hs_current_size s)"
    and "hs_string s = None \<longleftrightarrow> n = 0"
proof -
  let ?new = "\<lparr>hs_end = 0, hs_current_size = 0, hs_string = None\<rparr>"
  have chk: "hs_string_check heap ?new n = (True, s)"
    using assms(2) by (auto simp: hashkit_string_create_def split: option.splits prod.splits if_splits)
  have "hs_wf ?new" by (simp add: hs_wf_def)
  note s = hs_string_check_ok [OF heap this chk]
  show "hs_wf s" by (rule s(1))
  show "hs_end s = 0" using s(3) by simp
  show "unat n \<le> unat (hs_current_size s)" using s(3,4) by simp
  show "hs_string s = None \<longleftrightarrow> n = 0" using hs_string_check_cases [OF chk] by auto
qed

text \<open>The capacity of a fresh string: whole blocks, at least one of them beyond the size asked for.\<close>

lemma hashkit_string_create_capacity:
  assumes "heap_ok heap" and "hashkit_string_create heap n = Some s" and "n \<noteq> 0"
  shows "unat (hs_current_size s) = (unat n div 1024 + 1) * 1024"
proof -
  let ?new = "\<lparr>hs_end = 0, hs_current_size = 0, hs_string = None\<rparr> :: hashkit_string_st"
  have chk: "hs_string_check heap ?new n = (True, s)"
    using assms(2) by (auto simp: hashkit_string_create_def split: option.splits prod.splits if_splits)
  from hs_string_check_cases [OF this] assms(3)
  have size: "hs_current_size s = block_adjust n 0 0 * 1024 + 0"
    and fits: "n > 0 - 0" "\<not> block_adjust n 0 0 * 1024 + 0 < n" by auto
  have "unat n < 18446744073709551616" using unsigned_less [of n, where ?'a = nat] by simp
  then have "unat n div 1024 + 1 < 2 ^ 64" by (simp add: div_less_iff_less_mult less_trans)
  then have "unat (block_adjust n 0 0) = unat n div 1024 + 1"
    by (simp add: block_adjust_def unat_word_ariths unat_div)
  with block_growth(1) [of 0 0 n, OF _ fits(1) _ fits(2)] show ?thesis by (simp add: size)
qed

text \<open>What a list of appends promises of a string: the invariant, and the values up to the first failure.\<close>

definition appended :: "hashkit_string_st \<Rightarrow> bytes list \<Rightarrow> bool \<Rightarrow> hashkit_string_st \<Rightarrow> bool" where
  "appended s vs ok s' \<longleftrightarrow> hs_wf s' \<and>
     (\<exists>us. prefix us vs \<and> (ok \<longrightarrow> us = vs) \<and> hs_content s' = hs_content s @ concat us)"

lemma append_all_appended:
  assumes "heap_ok heap" and "hs_wf s" and "\<forall>v \<in> set vs. length v < 2 ^ 63" and "ndebug \<or> hs_string s \<noteq> None"
  shows "\<exists>ok s'. append_all (hashkit_string_append ndebug heap) vs s = Done (ok, s') \<and> appended s vs ok s'"
proof -
  from hs.append_all_safe [of heap s ndebug vs] assms
  have "append_all (hashkit_string_append ndebug heap) vs s \<noteq> Fault" by simp
  then obtain ok s' where app: "append_all (hashkit_string_append ndebug heap) vs s = Done (ok, s')"
    by (cases "append_all (hashkit_string_append ndebug heap) vs s") auto
  from hs.append_all_content [OF _ assms(3) this] assms app show ?thesis
    unfolding appended_def by blast
qed

text \<open>
  C21: Appending a list of values to a well-formed string never accesses memory outside of the
  buffer, keeps the string well formed, and leaves in it what it held before followed by the
  values up to the first one for which memory ran out, all of them if the result is true. The one
  exception is a build with assertions: there an empty value that is appended to a string without
  a buffer ends the program.
\<close>

theorem hashkit_string_append_all_spec:
  assumes "heap_ok heap" and "hs_wf s" and "\<forall>v \<in> set vs. length v < 2 ^ 63"
  shows "if \<not> ndebug \<and> hs_string s = None \<and> vs \<noteq> [] \<and> hd vs = []
    then append_all (hashkit_string_append ndebug heap) vs s = Fault
    else \<exists>ok s'. append_all (hashkit_string_append ndebug heap) vs s = Done (ok, s') \<and> hs_wf s' \<and>
      (\<exists>us. prefix us vs \<and> (ok \<longrightarrow> us = vs) \<and> hs_content s' = hs_content s @ concat us)"
proof (cases "ndebug \<or> hs_string s \<noteq> None \<or> vs = []")
  case True
  then show ?thesis
    using append_all_appended [OF assms, of ndebug] assms(2) by (auto simp: appended_def)
next
  case False
  then obtain v ws where vs: "vs = v # ws" and dbg: "\<not> ndebug" "hs_string s = None" by (cases vs) auto
  show ?thesis
  proof (cases "v = []")
    case True
    with vs dbg show ?thesis by (simp add: hashkit_string_append_asserts)
  next
    case False
    with assms vs obtain ok s1 where s1: "hashkit_string_append ndebug heap s v = Done (ok, s1)" "hs_wf s1"
        "hs_content s1 = (if ok then hs_content s @ v else hs_content s)" "ok \<longrightarrow> ndebug \<or> hs_string s1 \<noteq> None"
      using hashkit_string_append_ok [of heap s v ndebug] by auto
    show ?thesis
    proof (cases ok)
      case True
      with append_all_appended [OF assms(1) s1(2), of ws ndebug] s1(4) assms(3) vs
      obtain ok' s' us where "append_all (hashkit_string_append ndebug heap) ws s1 = Done (ok', s')" "hs_wf s'"
          "prefix us ws" "ok' \<longrightarrow> us = ws" "hs_content s' = hs_content s1 @ concat us"
        by (auto simp: appended_def)
      with True False vs s1 show ?thesis by (auto intro!: exI [of _ "v # us"])
    next
      case ok: False
      have "prefix [] vs \<and> hs_content s1 = hs_content s @ concat []" using ok s1(3) by simp
      then have "\<exists>us. prefix us vs \<and> hs_content s1 = hs_content s @ concat us" by blast
      with ok False vs s1(1,2) show ?thesis by auto
    qed
  qed
qed

theorem hashkit_string_append_all_spec_witness:
  "append_all (hashkit_string_append False small_heap) [[], [3]] \<lparr>hs_end = 0, hs_current_size = 0, hs_string = None\<rparr> = Fault \<and>
   (\<exists>ok s'. append_all (hashkit_string_append False small_heap) [[1, 2], [], [3]]
      \<lparr>hs_end = 0, hs_current_size = 0, hs_string = None\<rparr> = Done (ok, s') \<and> hs_wf s' \<and>
    (\<exists>us. prefix us [[1, 2], [], [3]] \<and> (ok \<longrightarrow> us = [[1, 2], [], [3]]) \<and>
      hs_content s' = hs_content \<lparr>hs_end = 0, hs_current_size = 0, hs_string = None\<rparr> @ concat us))"
proof -
  let ?s = "\<lparr>hs_end = 0, hs_current_size = 0, hs_string = None\<rparr> :: hashkit_string_st"
  have "hs_wf ?s" by (simp add: hs_wf_def)
  note spec = hashkit_string_append_all_spec [OF heap_ok_small_heap this, where ndebug = False]
  from spec [of "[[], [3]]"] spec [of "[[1, 2], [], [3]]"] show ?thesis by simp
qed

end
