(* ===== verification/Aes.thy ===== *)
theory Aes
  imports Rijndael Hashkit_String
begin

text \<open>
  Encryption of strings, \<open>aes.cc\<close> in the configuration without OpenSSL: AES-256 in ECB mode with
  the padding of PKCS 7. A result is \<open>Done None\<close> for a null return and \<^const>\<open>Fault\<close> for an
  access outside of the allocated destination.
\<close>

definition AES_KEY_LENGTH :: nat where "AES_KEY_LENGTH = 256"
definition AES_BLOCK_SIZE :: nat where "AES_BLOCK_SIZE = 16"
definition AES_MAXNR :: nat where "AES_MAXNR = 14"

record key_t =
  nr :: nat
  rk :: "u32 list"

record aes_key_t =
  encode_key :: key_t
  decode_key :: key_t

text \<open>The passphrase is folded into the 32 bytes of the key, \<open>ptr\<close> being the position in it.\<close>

primrec aes_fold_key :: "bytes \<Rightarrow> nat \<Rightarrow> bytes \<Rightarrow> bytes" where
  "aes_fold_key [] ptr rkey = rkey"
| "aes_fold_key (c # key) ptr rkey =
     (let ptr = (if ptr = AES_KEY_LENGTH div 8 then 0 else ptr)
      in aes_fold_key key (ptr + 1) (rkey[ptr := rkey ! ptr XOR c]))"

definition aes_create_key :: "heap \<Rightarrow> bytes \<Rightarrow> aes_key_t option" where
  "aes_create_key heap key =
     (case heap 488 of
        None \<Rightarrow> None
      | Some _ \<Rightarrow>
          let rkey = aes_fold_key key 0 (replicate (AES_KEY_LENGTH div 8) 0);
              zero = replicate (4 * (AES_MAXNR + 1)) 0;
              (drk, dnr) = rijndaelKeySetupDec zero rkey AES_KEY_LENGTH;
              (erk, enr) = rijndaelKeySetupEnc zero rkey AES_KEY_LENGTH
          in Some \<lparr>encode_key = \<lparr>nr = enr, rk = erk\<rparr>, decode_key = \<lparr>nr = dnr, rk = drk\<rparr>\<rparr>)"

definition aes_clone_key :: "heap \<Rightarrow> aes_key_t option \<Rightarrow> aes_key_t option" where
  "aes_clone_key heap key =
     (case key of None \<Rightarrow> None | Some k \<Rightarrow> (case heap 488 of None \<Rightarrow> None | Some _ \<Rightarrow> Some k))"

text \<open>The loop over complete blocks, with the number of blocks left and the position in the destination.\<close>

primrec aes_blocks ::
    "(bytes \<Rightarrow> bytes) \<Rightarrow> nat \<Rightarrow> nat \<Rightarrow> bytes \<Rightarrow> bytes option \<Rightarrow> bytes option outcome" where
  "aes_blocks f 0 pos source dest = Done dest"
| "aes_blocks f (Suc x) pos source dest =
     obind (store_at dest pos (f (take AES_BLOCK_SIZE source)))
       (aes_blocks f x (pos + AES_BLOCK_SIZE) (drop AES_BLOCK_SIZE source))"

definition aes_last_block :: "bytes \<Rightarrow> nat \<Rightarrow> bytes" where
  "aes_last_block source pad_len = take (16 - pad_len) source @ replicate pad_len (word_of_nat pad_len)"

definition aes_encrypt :: "heap \<Rightarrow> aes_key_t option \<Rightarrow> bytes \<Rightarrow> hashkit_string_st option outcome" where
  "aes_encrypt heap aes_key source =
     (case aes_key of None \<Rightarrow> Done None | Some key \<Rightarrow>
      let source_length = length source;
          num_blocks = source_length div AES_BLOCK_SIZE
      in case hashkit_string_create heap (word_of_nat source_length) of None \<Rightarrow> Done None | Some destination \<Rightarrow>
         let enc = rijndaelEncrypt (rk (encode_key key)) (nr (encode_key key));
             pad_len = AES_BLOCK_SIZE - (source_length - AES_BLOCK_SIZE * num_blocks);
             block = aes_last_block (drop (AES_BLOCK_SIZE * num_blocks) source) pad_len
         in obind (aes_blocks enc num_blocks 0 source (hs_string destination)) (\<lambda>dest.
            obind (store_at dest (AES_BLOCK_SIZE * num_blocks) (enc block)) (\<lambda>dest.
            Done (Some (hashkit_string_set_length heap (destination\<lparr>hs_string := dest\<rparr>)
              (word_of_nat (AES_BLOCK_SIZE * (num_blocks + 1))))))))"

definition aes_decrypt :: "heap \<Rightarrow> aes_key_t option \<Rightarrow> bytes \<Rightarrow> hashkit_string_st option outcome" where
  "aes_decrypt heap aes_key source =
     (case aes_key of None \<Rightarrow> Done None | Some key \<Rightarrow>
      let source_length = length source;
          num_blocks = source_length div AES_BLOCK_SIZE
      in if source_length \<noteq> num_blocks * AES_BLOCK_SIZE \<or> num_blocks = 0 then Done None
      else case hashkit_string_create heap (word_of_nat source_length) of None \<Rightarrow> Done None | Some destination \<Rightarrow>
         let dec = rijndaelDecrypt (rk (decode_key key)) (nr (decode_key key));
             pos = AES_BLOCK_SIZE * (num_blocks - 1)
         in obind (aes_blocks dec (num_blocks - 1) 0 source (hs_string destination)) (\<lambda>dest.
            let block = dec (take AES_BLOCK_SIZE (drop pos source));
                pad_len = unat (block ! (AES_BLOCK_SIZE - 1))
            in if pad_len > AES_BLOCK_SIZE then Done None
               else obind (store_at dest pos (take (AES_BLOCK_SIZE - pad_len) block)) (\<lambda>dest.
                    Done (Some (hashkit_string_set_length heap (destination\<lparr>hs_string := dest\<rparr>)
                      (word_of_nat (AES_BLOCK_SIZE * num_blocks - pad_len)))))))"


subsection \<open>Block ciphers in ECB mode\<close>

definition pkcs7_pad :: "bytes \<Rightarrow> bytes" where
  "pkcs7_pad msg = msg @ replicate (16 - length msg mod 16) (word_of_nat (16 - length msg mod 16))"

definition ecb :: "(bytes \<Rightarrow> bytes) \<Rightarrow> bytes \<Rightarrow> bytes" where
  "ecb f msg = concat (map f (chunks 16 msg))"

locale block_cipher =
  fixes E D :: "bytes \<Rightarrow> bytes"
  assumes D_E: "length b = 16 \<Longrightarrow> D (E b) = b"
    and length_E: "length (E b) = 16" and length_D: "length (D b) = 16"
begin

lemma blocks_ecb: "chunks 16 (ecb E msg) = map E (chunks 16 msg)"
proof -
  have "chunks 16 (concat (map E bs)) = map E bs" for bs
    by (induction bs) (simp_all add: chunks_first length_E)
  then show ?thesis by (simp add: ecb_def)
qed

lemma ecb_inverse: "16 dvd length msg \<Longrightarrow> ecb D (ecb E msg) = msg"
proof -
  assume dvd: "16 dvd length msg"
  have "map D (map E bs) = bs" if "\<forall>b \<in> set bs. length b = 16" for bs
    using that by (induction bs) (simp_all add: D_E)
  then have "map D (map E (chunks 16 msg)) = chunks 16 msg"
    using length_in_chunks by blast
  moreover have "concat (chunks 16 msg) = msg" using dvd by (rule concat_chunks) simp
  ultimately show ?thesis by (simp add: ecb_def [of D] blocks_ecb)
qed

lemma length_ecb: "length (ecb E msg) = length msg div 16 * 16"
proof -
  have "length (concat (map E bs)) = 16 * length bs" for bs
    by (induction bs) (simp_all add: length_E)
  then show ?thesis by (simp add: ecb_def length_chunks)
qed

end

lemma length_rijndael [simp]:
  "length (rijndaelEncrypt k n b) = 16" "length (rijndaelDecrypt k n b) = 16"
  by (simp_all add: rijndaelEncrypt_def rijndaelDecrypt_def split: prod.split)


subsection \<open>The loops over the blocks\<close>

lemma ecb_Suc:
  assumes "16 * Suc x \<le> length src"
  shows "ecb f (take (16 * Suc x) src) = f (take 16 src) @ ecb f (take (16 * x) (drop 16 src))"
proof -
  have "take (16 * Suc x) src = take 16 src @ take (16 * x) (drop 16 src)"
    using take_add [of 16 "16 * x" src] by simp
  then show ?thesis using assms by (simp add: ecb_def chunks_first)
qed

lemma ecb_Nil [simp]: "ecb f [] = []"
  by (simp add: ecb_def)

lemma aes_blocks_eq:
  assumes f: "\<And>b. length (f b) = 16" and "pos + 16 * x \<le> length buf" and "16 * x \<le> length src"
  shows "aes_blocks f x pos src (Some buf) =
    Done (Some (take pos buf @ ecb f (take (16 * x) src) @ drop (pos + 16 * x) buf))"
  using assms(2,3)
proof (induction x arbitrary: pos src buf)
  case (Suc x)
  let ?buf = "memcpy_at buf pos (f (take 16 src)) 16"
  have len: "length ?buf = length buf" and buf: "?buf = take pos buf @ f (take 16 src) @ drop (pos + 16) buf"
    using Suc.prems f by (simp_all add: memcpy_at_def)
  have pos: "length (take pos buf @ f (take 16 src)) = pos + 16" using Suc.prems f by simp
  have "aes_blocks f (Suc x) pos src (Some buf) = aes_blocks f x (pos + 16) (drop 16 src) (Some ?buf)"
    using Suc.prems f by (simp add: store_at_def AES_BLOCK_SIZE_def)
  also have "\<dots> = Done (Some (take (pos + 16) ?buf @ ecb f (take (16 * x) (drop 16 src)) @ drop (pos + 16 + 16 * x) ?buf))"
    using Suc.prems len by (intro Suc.IH) simp_all
  also have "take (pos + 16) ?buf = take pos buf @ f (take 16 src)"
    unfolding buf append_assoc [symmetric] using pos by (simp only: take_append take_all) simp
  also have "drop (pos + 16 + 16 * x) ?buf = drop (pos + 16 * Suc x) buf"
    unfolding buf append_assoc [symmetric] drop_append pos using pos by (simp add: add_ac)
  finally show ?case using Suc.prems by (simp only: ecb_Suc append_assoc)
qed simp


subsection \<open>Encryption and decryption of strings\<close>

lemma aes_capacity: "16 * (n div 16 + 1) \<le> (n div 1024 + 1) * (1024 :: nat)"
proof -
  have "n div 16 div 64 = n div 1024" by (simp add: div_mult2_eq [symmetric])
  then have "n div 16 < (n div 1024 + 1) * 64"
    using div_mult_mod_eq [of "n div 16" 64] mod_less_divisor [of 64 "n div 16"]
    by (simp add: add_mult_distrib)
  then show ?thesis by simp
qed

lemma create_buffer:
  assumes "heap_ok heap" and "hashkit_string_create heap (word_of_nat n) = Some s"
    and "0 < n" and "n < 2 ^ 63"
  obtains buf where "hs_string s = Some buf" and "16 * (n div 16 + 1) \<le> length buf"
    and "hs_end s = 0" and "length buf = unat (hs_current_size s)" and "length buf < 2 ^ 63"
proof -
  let ?w = "word_of_nat n :: u64"
  have n: "unat ?w = n" using assms(4) by (intro unat_u64_of_nat) simp
  then have "?w \<noteq> 0" using assms(3) by (metis unat_0 less_numeral_extra(3))
  then obtain buf where buf: "hs_string s = Some buf" using hashkit_string_create_ok(4) [OF assms(1,2)] by auto
  have "unat (hs_current_size s) = (n div 1024 + 1) * 1024"
    using hashkit_string_create_capacity [OF assms(1,2) \<open>?w \<noteq> 0\<close>] n by simp
  moreover have "length buf = unat (hs_current_size s)" "length buf < 2 ^ 63"
    using hashkit_string_create_ok(1) [OF assms(1,2)] buf by (simp_all add: hs_wf_def)
  ultimately show thesis
    using that buf hashkit_string_create_ok(2) [OF assms(1,2)] aes_capacity [of n] by simp
qed

lemma set_length_within:
  assumes "hs_end s = 0" and "unat n \<le> unat (hs_current_size s)"
  shows "hashkit_string_set_length heap s n = s\<lparr>hs_end := n\<rparr>"
  using assms by (simp add: hashkit_string_set_length_def hs_string_check_def word_less_nat_alt not_less)

lemma pad_blocks:
  fixes msg :: bytes
  defines "n \<equiv> length msg div 16"
  defines "p \<equiv> 16 - (length msg - 16 * n)"
  shows "pkcs7_pad msg = take (16 * n) msg @ aes_last_block (drop (16 * n) msg) p"
    and "length (aes_last_block (drop (16 * n) msg) p) = 16"
    and "length (pkcs7_pad msg) = 16 * (n + 1)"
    and "p = 16 - length msg mod 16"
proof -
  have r: "length msg - 16 * n = length msg mod 16" by (simp add: n_def minus_mult_div_eq_mod)
  then show p: "p = 16 - length msg mod 16" by (simp add: p_def)
  have lt: "length msg mod 16 < 16" by simp
  have take: "take (16 - p) (drop (16 * n) msg) = drop (16 * n) msg"
    using p lt r by simp
  then show "pkcs7_pad msg = take (16 * n) msg @ aes_last_block (drop (16 * n) msg) p"
    by (simp add: pkcs7_pad_def aes_last_block_def p append_assoc [symmetric] del: append_assoc)
  show len: "length (aes_last_block (drop (16 * n) msg) p) = 16"
    using take r lt p by (simp add: aes_last_block_def)
  have "16 * n \<le> length msg" by (simp add: n_def)
  with len show "length (pkcs7_pad msg) = 16 * (n + 1)"
    by (simp add: \<open>pkcs7_pad msg = _\<close>)
qed

lemma ecb_append_block:
  "length b = 16 \<Longrightarrow> 16 dvd length xs \<Longrightarrow> ecb f (xs @ b) = ecb f xs @ f b"
  using chunks_first [of b 16 "[]"] by (simp add: ecb_def chunks_append)

lemma length_ecb_rijndael:
  "length (ecb (rijndaelEncrypt k m) xs) = length xs div 16 * 16"
  "length (ecb (rijndaelDecrypt k m) xs) = length xs div 16 * 16"
proof -
  have "length (concat (map f bs)) = 16 * length bs" if "\<And>b. length (f b) = 16" for f :: "bytes \<Rightarrow> bytes" and bs
    using that by (induction bs) simp_all
  then show "length (ecb (rijndaelEncrypt k m) xs) = length xs div 16 * 16"
    "length (ecb (rijndaelDecrypt k m) xs) = length xs div 16 * 16"
    by (simp_all add: ecb_def length_chunks)
qed

lemma aes_encrypt_eq:
  assumes heap: "heap_ok heap" and src: "source \<noteq> []" "length source < 2 ^ 62"
    and create: "hashkit_string_create heap (word_of_nat (length source)) = Some dst"
  obtains c where "aes_encrypt heap (Some key) source = Done (Some c)" and "hs_wf c"
    and "hs_content c = ecb (rijndaelEncrypt (rk (encode_key key)) (nr (encode_key key))) (pkcs7_pad source)"
    and "unat (hs_end c) = length (pkcs7_pad source)"
proof -
  let ?n = "length source div 16" and ?enc = "rijndaelEncrypt (rk (encode_key key)) (nr (encode_key key))"
  let ?p = "16 - (length source - 16 * ?n)"
  let ?last = "aes_last_block (drop (16 * ?n) source) ?p"
  obtain buf where buf: "hs_string dst = Some buf" "16 * (?n + 1) \<le> length buf" "hs_end dst = 0"
      "length buf = unat (hs_current_size dst)" "length buf < 2 ^ 63"
    using create_buffer [OF heap create] src by (auto simp del: mult_Suc_right)
  note pad = pad_blocks [of source]
  let ?e = "ecb ?enc (take (16 * ?n) source)"
  have e: "length ?e = 16 * ?n" by (simp add: length_ecb_rijndael)
  have loop: "aes_blocks ?enc ?n 0 source (Some buf) = Done (Some (?e @ drop (16 * ?n) buf))"
    using aes_blocks_eq [of ?enc 0 ?n buf source] buf(2) by simp
  let ?out = "?e @ ?enc ?last @ drop (16 * ?n + 16) buf"
  have store: "store_at (Some (?e @ drop (16 * ?n) buf)) (16 * ?n) (?enc ?last) = Done (Some ?out)"
    using buf(2) e by (simp add: store_at_def memcpy_at_def add.commute)
  have n: "unat (word_of_nat (16 * (?n + 1)) :: u64) = 16 * (?n + 1)"
    using buf(2,5) by (intro unat_u64_of_nat) simp
  let ?c = "dst\<lparr>hs_string := Some ?out, hs_end := word_of_nat (16 * (?n + 1))\<rparr>"
  have "aes_encrypt heap (Some key) source = Done (Some ?c)"
    using create buf loop store n
    by (simp add: aes_encrypt_def AES_BLOCK_SIZE_def set_length_within Let_def del: mult_Suc_right)
  moreover have "length ?out = length buf" using buf(2) e by simp
  then have "hs_wf ?c" using buf n by (simp add: hs_wf_def word_le_nat_alt)
  moreover have "hs_content ?c = ?e @ ?enc ?last" using e n by (simp add: hs_content_def)
  moreover have "ecb ?enc (pkcs7_pad source) = ?e @ ?enc ?last"
    unfolding pad(1) using pad(2) by (intro ecb_append_block) (simp_all add: min_absorb2)
  moreover have "unat (hs_end ?c) = length (pkcs7_pad source)" using n pad(3) by simp
  ultimately show thesis using that by metis
qed

lemma aes_decrypt_eq:
  fixes key :: aes_key_t
  assumes heap: "heap_ok heap" and src: "source \<noteq> []" "16 dvd length source" "length source < 2 ^ 63"
    and create: "hashkit_string_create heap (word_of_nat (length source)) = Some dst"
  defines "plain \<equiv> ecb (rijndaelDecrypt (rk (decode_key key)) (nr (decode_key key))) source"
  assumes pad: "unat (last plain) \<le> 16"
  obtains d where "aes_decrypt heap (Some key) source = Done (Some d)" and "hs_wf d"
    and "hs_content d = take (length source - unat (last plain)) plain"
proof -
  let ?dec = "rijndaelDecrypt (rk (decode_key key)) (nr (decode_key key))"
  obtain n where n: "length source = 16 * Suc n"
    using src(1,2) by (metis dvdE length_0_conv mult_0_right not0_implies_Suc)
  then have num: "length source div 16 = Suc n" "length source = Suc n * 16" by simp_all
  have "0 < length source" using src(1) by simp
  then obtain buf where buf': "hs_string dst = Some buf" "16 * (length source div 16 + 1) \<le> length buf"
      "hs_end dst = 0" "length buf = unat (hs_current_size dst)" "length buf < 2 ^ 63"
    using create_buffer [OF heap create _ src(3)] by metis
  moreover from this(2) have "length source \<le> length buf" unfolding num(1) using n by simp
  ultimately have buf: "hs_string dst = Some buf" "length source \<le> length buf" "hs_end dst = 0"
      "length buf = unat (hs_current_size dst)" "length buf < 2 ^ 63" by simp_all
  let ?block = "?dec (drop (16 * n) source)" and ?e = "ecb ?dec (take (16 * n) source)"
  let ?p = "unat (last plain)"
  have e: "length ?e = 16 * n" using n by (simp add: length_ecb_rijndael)
  have plain: "plain = ?e @ ?block"
    unfolding plain_def using n ecb_append_block [of "drop (16 * n) source" "take (16 * n) source" ?dec] by simp
  have "length ?block = 16" by simp
  then have "?block \<noteq> []" by (metis list.size(3) zero_neq_numeral)
  then have last: "?block ! 15 = last plain"
    using last_conv_nth [of ?block] by (simp add: plain)
  have loop: "aes_blocks ?dec n 0 source (Some buf) = Done (Some (?e @ drop (16 * n) buf))"
    using aes_blocks_eq [of ?dec 0 n buf source] buf(2) n by simp
  let ?out = "?e @ take (16 - ?p) ?block @ drop (16 * n + (16 - ?p)) buf"
  have store: "store_at (Some (?e @ drop (16 * n) buf)) (16 * n) (take (16 - ?p) ?block) = Done (Some ?out)"
    using buf(2) e n by (simp add: store_at_def memcpy_at_def add.commute)
  have len: "unat (word_of_nat (16 * Suc n - ?p) :: u64) = 16 * Suc n - ?p"
    using buf(2,5) n by (intro unat_u64_of_nat) simp
  let ?d = "dst\<lparr>hs_string := Some ?out, hs_end := word_of_nat (16 * Suc n - ?p)\<rparr>"
  have "aes_decrypt heap (Some key) source = Done (Some ?d)"
    using create buf loop store len pad n last num
    by (simp add: aes_decrypt_def AES_BLOCK_SIZE_def set_length_within Let_def del: mult_Suc_right)
  moreover have "length ?out = length buf" using buf(2) e n by simp
  then have "hs_wf ?d" using buf n len by (simp add: hs_wf_def word_le_nat_alt)
  moreover have "hs_content ?d = take (length source - ?p) plain"
    using e n len pad by (simp add: hs_content_def plain)
  ultimately show thesis using that by metis
qed


subsection \<open>The cipher of a passphrase\<close>

definition aes_rkey :: "bytes \<Rightarrow> bytes" where
  "aes_rkey pass = aes_fold_key pass 0 (replicate 32 0)"

definition aes_enc_block :: "bytes \<Rightarrow> bytes \<Rightarrow> bytes" where
  "aes_enc_block pass = (case rijndaelKeySetupEnc (replicate 60 0) (aes_rkey pass) 256 of (k, n) \<Rightarrow> rijndaelEncrypt k n)"

definition aes_dec_block :: "bytes \<Rightarrow> bytes \<Rightarrow> bytes" where
  "aes_dec_block pass = (case rijndaelKeySetupDec (replicate 60 0) (aes_rkey pass) 256 of (k, n) \<Rightarrow> rijndaelDecrypt k n)"

interpretation aes256: block_cipher "aes_enc_block pass" "aes_dec_block pass" for pass
proof unfold_locales
  fix b :: bytes
  assume b: "length b = 16"
  obtain ek n where enc: "rijndaelKeySetupEnc (replicate 60 0) (aes_rkey pass) 256 = (ek, n)"
    by (cases "rijndaelKeySetupEnc (replicate 60 0) (aes_rkey pass) 256")
  obtain dk n' where dec: "rijndaelKeySetupDec (replicate 60 0) (aes_rkey pass) 256 = (dk, n')"
    by (cases "rijndaelKeySetupDec (replicate 60 0) (aes_rkey pass) 256")
  note inv = KeySetup_inverse [OF _ _ enc dec]
  have "inverse_schedule ek dk n" "n' = n" "n \<in> {10, 12, 14}"
    using inv by simp_all
  with b show "aes_dec_block pass (aes_enc_block pass b) = b"
    by (auto simp: aes_enc_block_def aes_dec_block_def enc dec intro!: Decrypt_Encrypt)
qed (simp_all add: aes_enc_block_def aes_dec_block_def split: prod.split)

lemma aes_create_key_blocks:
  assumes "aes_create_key heap pass = Some key"
  shows "rijndaelEncrypt (rk (encode_key key)) (nr (encode_key key)) = aes_enc_block pass"
    and "rijndaelDecrypt (rk (decode_key key)) (nr (decode_key key)) = aes_dec_block pass"
  using assms
  by (auto simp: aes_create_key_def aes_enc_block_def aes_dec_block_def aes_rkey_def
      AES_KEY_LENGTH_def AES_MAXNR_def split: option.splits prod.splits)

lemma pkcs7_unpad:
  "unat (last (pkcs7_pad msg)) = 16 - length msg mod 16"
  "take (length (pkcs7_pad msg) - (16 - length msg mod 16)) (pkcs7_pad msg) = msg"
proof -
  let ?p = "16 - length msg mod 16"
  have p: "0 < ?p" "?p \<le> 16" by simp_all
  then have "last (pkcs7_pad msg) = word_of_nat ?p" by (simp add: pkcs7_pad_def)
  moreover have "unat (word_of_nat n :: u8) = n" if "n \<le> 16" for n
    using that by (simp add: unsigned_of_nat take_bit_eq_mod)
  ultimately show "unat (last (pkcs7_pad msg)) = ?p" using p by (simp only:)
  show "take (length (pkcs7_pad msg) - ?p) (pkcs7_pad msg) = msg" by (simp add: pkcs7_pad_def)
qed

text \<open>Decrypting what was encrypted with the same passphrase gives the message back.\<close>

lemma aes_decrypt_encrypt:
  assumes heap: "heap_ok heap" and key: "aes_create_key heap pass = Some key"
    and src: "source \<noteq> []" "length source < 2 ^ 62"
    and enc: "aes_encrypt heap (Some key) source = Done (Some c)"
    and room: "hashkit_string_create heap (hs_end c) \<noteq> None"
  obtains d where "aes_decrypt heap (Some key) (hs_content c) = Done (Some d)" and "hs_content d = source"
proof -
  from enc obtain dst where "hashkit_string_create heap (word_of_nat (length source)) = Some dst"
    by (auto simp: aes_encrypt_def Let_def split: option.splits)
  from aes_encrypt_eq [OF heap src this, of key] enc
  have c: "hs_content c = ecb (aes_enc_block pass) (pkcs7_pad source)"
    and end_c: "unat (hs_end c) = length (pkcs7_pad source)"
    unfolding aes_create_key_blocks [OF key] by auto
  note pad = pad_blocks(3) [of source]
  have dvd: "16 dvd length (pkcs7_pad source)" by (simp add: pad)
  have len: "length (hs_content c) = length (pkcs7_pad source)"
    unfolding c aes256.length_ecb using dvd by simp
  have small: "length (pkcs7_pad source) < 2 ^ 63"
    using src(2) by (simp add: pkcs7_pad_def)
  have "word_of_nat (length (hs_content c)) = hs_end c"
    unfolding len end_c [symmetric] by simp
  with room obtain dst where create: "hashkit_string_create heap (word_of_nat (length (hs_content c))) = Some dst"
    by auto
  have plain: "ecb (aes_dec_block pass) (hs_content c) = pkcs7_pad source"
    unfolding c using dvd by (rule aes256.ecb_inverse)
  have "hs_content c \<noteq> []" using len pad by auto
  from aes_decrypt_eq [OF heap this _ _ create, of key]
  obtain d where "aes_decrypt heap (Some key) (hs_content c) = Done (Some d)"
    "hs_content d = take (length (pkcs7_pad source) - (16 - length source mod 16)) (pkcs7_pad source)"
    unfolding aes_create_key_blocks [OF key] plain pkcs7_unpad(1) len using dvd small by auto
  then show thesis using that by (simp only: pkcs7_unpad(2))
qed

lemma aes_create_key_Some: "heap 488 = Some node \<Longrightarrow> aes_create_key heap pass \<noteq> None"
  by (simp add: aes_create_key_def Let_def split: prod.split)

lemma aes_encrypt_Some:
  assumes "heap_ok heap" and "source \<noteq> []" and "length source < 2 ^ 62"
    and "hashkit_string_create heap (word_of_nat (length source)) \<noteq> None"
  obtains c where "aes_encrypt heap (Some key) source = Done (Some c)" and "hs_wf c"
    and "unat (hs_end c) = 16 * (length source div 16 + 1)"
proof -
  from assms(4) obtain dst where "hashkit_string_create heap (word_of_nat (length source)) = Some dst" by auto
  from aes_encrypt_eq [OF assms(1-3) this, of key] show thesis
    using that pad_blocks(3) [of source] by metis
qed

text \<open>
  C6: Encrypting and then decrypting under the key of any passphrase gives back every non-empty
  message, when the allocator grants the two destination strings; neither call accesses memory
  outside of the strings it has allocated.
\<close>

theorem aes_round_trip:
  assumes heap: "heap_ok heap" and key: "aes_create_key heap pass = Some key"
    and src: "source \<noteq> []" "length source < 2 ^ 62"
    and room: "hashkit_string_create heap (word_of_nat (length source)) \<noteq> None"
      "hashkit_string_create heap (word_of_nat (16 * (length source div 16 + 1))) \<noteq> None"
  shows "\<exists>c d. aes_encrypt heap (Some key) source = Done (Some c) \<and>
    aes_decrypt heap (Some key) (hs_content c) = Done (Some d) \<and> hs_content d = source"
proof -
  obtain c where enc: "aes_encrypt heap (Some key) source = Done (Some c)"
    and len: "unat (hs_end c) = 16 * (length source div 16 + 1)"
    using aes_encrypt_Some [OF heap src room(1)] by metis
  have "hs_end c = word_of_nat (16 * (length source div 16 + 1))" by (simp only: len [symmetric]) simp
  with room(2) have "hashkit_string_create heap (hs_end c) \<noteq> None" by metis
  from aes_decrypt_encrypt [OF heap key src enc this] obtain d
    where "aes_decrypt heap (Some key) (hs_content c) = Done (Some d)" "hs_content d = source" by metis
  with enc show ?thesis by blast
qed

theorem aes_round_trip_witness:
  "\<exists>key c d. aes_create_key small_heap [0x73, 0x33] = Some key \<and>
    aes_encrypt small_heap (Some key) (replicate 20 5) = Done (Some c) \<and>
    aes_decrypt small_heap (Some key) (hs_content c) = Done (Some d) \<and> hs_content d = replicate 20 5"
proof -
  have "aes_create_key small_heap [0x73, 0x33] \<noteq> None"
    by (rule aes_create_key_Some [of _ "replicate 488 0"]) (simp add: small_heap_def)
  then obtain key where key: "aes_create_key small_heap [0x73, 0x33] = Some key" by auto
  have "hashkit_string_create small_heap n \<noteq> None" if "n \<in> {20, 32}" for n :: u64
    using that by (auto simp: hashkit_string_create_def hs_string_check_def small_heap_def realloc_def
        HASHKIT_BLOCK_SIZE_def)
  then show ?thesis
    using aes_round_trip [OF heap_ok_small_heap key, of "replicate 20 5"] key by simp
qed

text \<open>
  C22: Encrypting a non-empty message with a key never writes outside of the destination, although
  the destination is allocated for the length of the message and the padded message is longer: the
  result is \<open>NULL\<close> or a well-formed string of \<open>16 * (length div 16 + 1)\<close> bytes.
\<close>

theorem aes_encrypt_safe:
  assumes "heap_ok heap" and "source \<noteq> []" and "length source < 2 ^ 62"
  shows "aes_encrypt heap (Some key) source = Done None \<or>
    (\<exists>c. aes_encrypt heap (Some key) source = Done (Some c) \<and> hs_wf c \<and>
      unat (hs_end c) = 16 * (length source div 16 + 1))"
proof (cases "hashkit_string_create heap (word_of_nat (length source))")
  case None
  then show ?thesis by (simp add: aes_encrypt_def Let_def)
next
  case Some
  then show ?thesis using aes_encrypt_Some [OF assms] by (metis option.distinct(1))
qed

theorem aes_encrypt_safe_witness:
  "\<forall>key. aes_encrypt small_heap (Some key) [1, 2, 3] = Done None \<or>
    (\<exists>c. aes_encrypt small_heap (Some key) [1, 2, 3] = Done (Some c) \<and> hs_wf c \<and>
      unat (hs_end c) = 16 * (length [1, 2, 3 :: u8] div 16 + 1))"
  by (intro allI aes_encrypt_safe) (simp_all add: heap_ok_small_heap)

text \<open>
  C23: Encrypting an empty message writes the padding block through a null pointer: a string created
  with size zero has no buffer, and the code does not check for it.
\<close>

theorem aes_encrypt_empty_faults:
  assumes "heap 24 = Some node"
  shows "aes_encrypt heap (Some key) [] = Fault"
proof -
  have "rijndaelEncrypt (rk (encode_key key)) (nr (encode_key key)) (replicate 16 0x10) \<noteq> []"
    by (metis length_rijndael(1) list.size(3) zero_neq_numeral)
  with assms show ?thesis
    by (simp add: aes_encrypt_def hashkit_string_create_def hs_string_check_def store_at_def
        AES_BLOCK_SIZE_def aes_last_block_def)
qed

theorem aes_encrypt_empty_faults_witness:
  "\<forall>key. aes_encrypt small_heap (Some key) [] = Fault"
  using aes_encrypt_empty_faults [of small_heap "replicate 24 0"] by (simp add: small_heap_def)

end
