(* ===== verification/Hashkit.thy ===== *)
theory Hashkit
  imports Hash_Bytewise Hash_CRC32 Hash_Blockwise Hash_Jenkins Hash_MD5 Aes
begin

text \<open>
  The hash kit: the table of algorithms and which of them a build has (\<open>has.cc\<close>), selecting and
  calling a hash function (\<open>function.cc\<close>, \<open>digest.cc\<close>, \<open>algorithm.cc\<close>), creating, cloning and
  comparing kits (\<open>hashkit.cc\<close>), their encryption key (\<open>encrypt.cc\<close>) and the names of algorithms and
  return codes. A key is a piece of memory: a memory, an address and a length.
\<close>

subsection \<open>Return codes and algorithms\<close>

datatype hashkit_return_t =
    HASHKIT_SUCCESS
  | HASHKIT_FAILURE
  | HASHKIT_MEMORY_ALLOCATION_FAILURE
  | HASHKIT_INVALID_HASH
  | HASHKIT_INVALID_ARGUMENT
  | HASHKIT_MAXIMUM_RETURN

definition hashkit_success :: "hashkit_return_t \<Rightarrow> bool" where
  "hashkit_success rc \<longleftrightarrow> rc = HASHKIT_SUCCESS"

definition hashkit_failed :: "hashkit_return_t \<Rightarrow> bool" where
  "hashkit_failed rc \<longleftrightarrow> rc \<noteq> HASHKIT_SUCCESS"

datatype hashkit_hash_algorithm_t =
    HASHKIT_HASH_DEFAULT
  | HASHKIT_HASH_MD5
  | HASHKIT_HASH_CRC
  | HASHKIT_HASH_FNV1_64
  | HASHKIT_HASH_FNV1A_64
  | HASHKIT_HASH_FNV1_32
  | HASHKIT_HASH_FNV1A_32
  | HASHKIT_HASH_HSIEH
  | HASHKIT_HASH_MURMUR
  | HASHKIT_HASH_JENKINS
  | HASHKIT_HASH_MURMUR3
  | HASHKIT_HASH_CUSTOM
  | HASHKIT_HASH_MAX

fun hashkit_strerror :: "hashkit_return_t \<Rightarrow> string" where
  "hashkit_strerror HASHKIT_SUCCESS = ''SUCCESS''"
| "hashkit_strerror HASHKIT_FAILURE = ''FAILURE''"
| "hashkit_strerror HASHKIT_MEMORY_ALLOCATION_FAILURE = ''MEMORY ALLOCATION FAILURE''"
| "hashkit_strerror HASHKIT_INVALID_ARGUMENT = ''INVALID ARGUMENT''"
| "hashkit_strerror HASHKIT_INVALID_HASH = ''INVALID hashkit_hash_algorithm_t''"
| "hashkit_strerror HASHKIT_MAXIMUM_RETURN = ''INVALID hashkit_return_t''"

fun libhashkit_string_hash :: "hashkit_hash_algorithm_t \<Rightarrow> string" where
  "libhashkit_string_hash HASHKIT_HASH_DEFAULT = ''DEFAULT''"
| "libhashkit_string_hash HASHKIT_HASH_MD5 = ''MD5''"
| "libhashkit_string_hash HASHKIT_HASH_CRC = ''CRC''"
| "libhashkit_string_hash HASHKIT_HASH_FNV1_64 = ''FNV1_64''"
| "libhashkit_string_hash HASHKIT_HASH_FNV1A_64 = ''FNV1A_64''"
| "libhashkit_string_hash HASHKIT_HASH_FNV1_32 = ''FNV1_32''"
| "libhashkit_string_hash HASHKIT_HASH_FNV1A_32 = ''FNV1A_32''"
| "libhashkit_string_hash HASHKIT_HASH_HSIEH = ''HSIEH''"
| "libhashkit_string_hash HASHKIT_HASH_MURMUR = ''MURMUR''"
| "libhashkit_string_hash HASHKIT_HASH_MURMUR3 = ''MURMUR3''"
| "libhashkit_string_hash HASHKIT_HASH_JENKINS = ''JENKINS''"
| "libhashkit_string_hash HASHKIT_HASH_CUSTOM = ''CUSTOM''"
| "libhashkit_string_hash HASHKIT_HASH_MAX = ''INVALID''"


subsection \<open>Builds and keys\<close>

text \<open>
  The build configuration: the three optional algorithms. \<open>stack_md5\<close> is the uninitialised
  context on the stack of \<open>md5_signature\<close>, \<open>custom\<close> the functions a user registers.
\<close>

record hash_build =
  have_fnv64 :: bool
  have_hsieh :: bool
  have_murmur :: bool
  stack_md5 :: MD5_CTX
  custom :: "nat \<Rightarrow> bytes \<Rightarrow> nat \<Rightarrow> u32"

record ckey =
  key_mem :: "nat \<Rightarrow> u8"
  key_ptr :: nat
  key_length :: nat

definition key_bytes :: "ckey \<Rightarrow> bytes" where
  "key_bytes k = mem_bytes (key_mem k) (key_ptr k) (key_length k)"

fun libhashkit_has_algorithm :: "hash_build \<Rightarrow> hashkit_hash_algorithm_t \<Rightarrow> bool" where
  "libhashkit_has_algorithm bld HASHKIT_HASH_FNV1_64 = have_fnv64 bld"
| "libhashkit_has_algorithm bld HASHKIT_HASH_FNV1A_64 = have_fnv64 bld"
| "libhashkit_has_algorithm bld HASHKIT_HASH_HSIEH = have_hsieh bld"
| "libhashkit_has_algorithm bld HASHKIT_HASH_MURMUR3 = have_murmur bld"
| "libhashkit_has_algorithm bld HASHKIT_HASH_MURMUR = have_murmur bld"
| "libhashkit_has_algorithm bld HASHKIT_HASH_MAX = False"
| "libhashkit_has_algorithm bld _ = True"


subsection \<open>Digests\<close>

definition libhashkit_one_at_a_time :: "ckey \<Rightarrow> u32" where
  "libhashkit_one_at_a_time k = hashkit_one_at_a_time (key_bytes k)"
definition libhashkit_fnv1_64 :: "hash_build \<Rightarrow> ckey \<Rightarrow> u32" where
  "libhashkit_fnv1_64 bld k = hashkit_fnv1_64 (have_fnv64 bld) (key_bytes k)"
definition libhashkit_fnv1a_64 :: "hash_build \<Rightarrow> ckey \<Rightarrow> u32" where
  "libhashkit_fnv1a_64 bld k = hashkit_fnv1a_64 (have_fnv64 bld) (key_bytes k)"
definition libhashkit_fnv1_32 :: "ckey \<Rightarrow> u32" where
  "libhashkit_fnv1_32 k = hashkit_fnv1_32 (key_bytes k)"
definition libhashkit_fnv1a_32 :: "ckey \<Rightarrow> u32" where
  "libhashkit_fnv1a_32 k = hashkit_fnv1a_32 (key_bytes k)"
definition libhashkit_crc32 :: "ckey \<Rightarrow> u32" where
  "libhashkit_crc32 k = hashkit_crc32 (key_bytes k)"
definition libhashkit_hsieh :: "hash_build \<Rightarrow> ckey \<Rightarrow> u32" where
  "libhashkit_hsieh bld k = hashkit_hsieh (have_hsieh bld) (key_bytes k)"
definition libhashkit_murmur3 :: "ckey \<Rightarrow> u32" where
  "libhashkit_murmur3 k = hashkit_murmur3 (key_mem k) (key_ptr k) (key_length k)"
definition libhashkit_murmur :: "hash_build \<Rightarrow> ckey \<Rightarrow> u32" where
  "libhashkit_murmur bld k = hashkit_murmur (have_murmur bld) (key_bytes k)"
definition libhashkit_jenkins :: "ckey \<Rightarrow> u32" where
  "libhashkit_jenkins k = hashkit_jenkins (key_mem k) (key_ptr k) (key_length k)"
definition libhashkit_md5 :: "hash_build \<Rightarrow> ckey \<Rightarrow> u32" where
  "libhashkit_md5 bld k = hashkit_md5 (stack_md5 bld) (key_bytes k)"
definition libhashkit_md5_signature :: "hash_build \<Rightarrow> ckey \<Rightarrow> bytes" where
  "libhashkit_md5_signature bld k =
     md5_signature (stack_md5 bld) (key_bytes k) (word_of_nat (key_length k))"

fun libhashkit_digest :: "hash_build \<Rightarrow> ckey \<Rightarrow> hashkit_hash_algorithm_t \<Rightarrow> u32" where
  "libhashkit_digest bld k HASHKIT_HASH_DEFAULT = libhashkit_one_at_a_time k"
| "libhashkit_digest bld k HASHKIT_HASH_MD5 = libhashkit_md5 bld k"
| "libhashkit_digest bld k HASHKIT_HASH_CRC = libhashkit_crc32 k"
| "libhashkit_digest bld k HASHKIT_HASH_FNV1_64 = libhashkit_fnv1_64 bld k"
| "libhashkit_digest bld k HASHKIT_HASH_FNV1A_64 = libhashkit_fnv1a_64 bld k"
| "libhashkit_digest bld k HASHKIT_HASH_FNV1_32 = libhashkit_fnv1_32 k"
| "libhashkit_digest bld k HASHKIT_HASH_FNV1A_32 = libhashkit_fnv1a_32 k"
| "libhashkit_digest bld k HASHKIT_HASH_HSIEH = (if have_hsieh bld then libhashkit_hsieh bld k else 1)"
| "libhashkit_digest bld k HASHKIT_HASH_MURMUR3 = libhashkit_murmur3 k"
| "libhashkit_digest bld k HASHKIT_HASH_MURMUR = (if have_murmur bld then libhashkit_murmur bld k else 1)"
| "libhashkit_digest bld k HASHKIT_HASH_JENKINS = libhashkit_jenkins k"
| "libhashkit_digest bld k HASHKIT_HASH_CUSTOM = 1"
| "libhashkit_digest bld k HASHKIT_HASH_MAX = 1"


subsection \<open>Function pointers\<close>

datatype hashkit_hash_fn =
    Fn_null
  | Fn_one_at_a_time
  | Fn_md5
  | Fn_crc32
  | Fn_fnv1_64
  | Fn_fnv1a_64
  | Fn_fnv1_32
  | Fn_fnv1a_32
  | Fn_hsieh
  | Fn_murmur
  | Fn_murmur3
  | Fn_jenkins
  | Fn_user nat

record hashkit_function_st =
  fn :: hashkit_hash_fn
  fn_context :: nat

record hashkit_st =
  base_hash :: hashkit_function_st
  distribution_hash :: hashkit_function_st
  is_base_same_distributed :: bool
  is_allocated :: bool
  aes_key :: "aes_key_t option"

fun call_hash_fn :: "hash_build \<Rightarrow> hashkit_hash_fn \<Rightarrow> ckey \<Rightarrow> nat \<Rightarrow> u32 outcome" where
  "call_hash_fn bld Fn_null k ctx = Fault"
| "call_hash_fn bld Fn_one_at_a_time k ctx = Done (hashkit_one_at_a_time (key_bytes k))"
| "call_hash_fn bld Fn_md5 k ctx = Done (hashkit_md5 (stack_md5 bld) (key_bytes k))"
| "call_hash_fn bld Fn_crc32 k ctx = Done (hashkit_crc32 (key_bytes k))"
| "call_hash_fn bld Fn_fnv1_64 k ctx = Done (hashkit_fnv1_64 (have_fnv64 bld) (key_bytes k))"
| "call_hash_fn bld Fn_fnv1a_64 k ctx = Done (hashkit_fnv1a_64 (have_fnv64 bld) (key_bytes k))"
| "call_hash_fn bld Fn_fnv1_32 k ctx = Done (hashkit_fnv1_32 (key_bytes k))"
| "call_hash_fn bld Fn_fnv1a_32 k ctx = Done (hashkit_fnv1a_32 (key_bytes k))"
| "call_hash_fn bld Fn_hsieh k ctx = Done (hashkit_hsieh (have_hsieh bld) (key_bytes k))"
| "call_hash_fn bld Fn_murmur k ctx = Done (hashkit_murmur (have_murmur bld) (key_bytes k))"
| "call_hash_fn bld Fn_murmur3 k ctx = Done (hashkit_murmur3 (key_mem k) (key_ptr k) (key_length k))"
| "call_hash_fn bld Fn_jenkins k ctx = Done (hashkit_jenkins (key_mem k) (key_ptr k) (key_length k))"
| "call_hash_fn bld (Fn_user i) k ctx = Done (custom bld i (key_bytes k) ctx)"

definition hashkit_digest :: "hash_build \<Rightarrow> hashkit_st \<Rightarrow> ckey \<Rightarrow> u32 outcome" where
  "hashkit_digest bld self k = call_hash_fn bld (fn (base_hash self)) k (fn_context (base_hash self))"

text \<open>Selecting a function. The null check of \<open>self\<close> cannot fail: callers pass the address of a member.\<close>

fun set_function ::
    "hash_build \<Rightarrow> hashkit_function_st \<Rightarrow> hashkit_hash_algorithm_t \<Rightarrow> hashkit_return_t \<times> hashkit_function_st" where
  "set_function bld self HASHKIT_HASH_MD5 = (HASHKIT_SUCCESS, self\<lparr>fn := Fn_md5, fn_context := 0\<rparr>)"
| "set_function bld self HASHKIT_HASH_CRC = (HASHKIT_SUCCESS, self\<lparr>fn := Fn_crc32, fn_context := 0\<rparr>)"
| "set_function bld self HASHKIT_HASH_FNV1_64 =
     (if libhashkit_has_algorithm bld HASHKIT_HASH_FNV1_64
      then (HASHKIT_SUCCESS, self\<lparr>fn := Fn_fnv1_64, fn_context := 0\<rparr>) else (HASHKIT_INVALID_ARGUMENT, self))"
| "set_function bld self HASHKIT_HASH_FNV1A_64 =
     (if libhashkit_has_algorithm bld HASHKIT_HASH_FNV1_64
      then (HASHKIT_SUCCESS, self\<lparr>fn := Fn_fnv1a_64, fn_context := 0\<rparr>) else (HASHKIT_INVALID_ARGUMENT, self))"
| "set_function bld self HASHKIT_HASH_FNV1_32 = (HASHKIT_SUCCESS, self\<lparr>fn := Fn_fnv1_32, fn_context := 0\<rparr>)"
| "set_function bld self HASHKIT_HASH_FNV1A_32 = (HASHKIT_SUCCESS, self\<lparr>fn := Fn_fnv1a_32, fn_context := 0\<rparr>)"
| "set_function bld self HASHKIT_HASH_HSIEH =
     (if libhashkit_has_algorithm bld HASHKIT_HASH_HSIEH
      then (HASHKIT_SUCCESS, self\<lparr>fn := Fn_hsieh, fn_context := 0\<rparr>) else (HASHKIT_INVALID_ARGUMENT, self))"
| "set_function bld self HASHKIT_HASH_MURMUR3 =
     (if libhashkit_has_algorithm bld HASHKIT_HASH_MURMUR3
      then (HASHKIT_SUCCESS, self\<lparr>fn := Fn_murmur3, fn_context := 0\<rparr>) else (HASHKIT_INVALID_ARGUMENT, self))"
| "set_function bld self HASHKIT_HASH_MURMUR =
     (if libhashkit_has_algorithm bld HASHKIT_HASH_MURMUR
      then (HASHKIT_SUCCESS, self\<lparr>fn := Fn_murmur, fn_context := 0\<rparr>) else (HASHKIT_INVALID_ARGUMENT, self))"
| "set_function bld self HASHKIT_HASH_JENKINS = (HASHKIT_SUCCESS, self\<lparr>fn := Fn_jenkins, fn_context := 0\<rparr>)"
| "set_function bld self HASHKIT_HASH_CUSTOM = (HASHKIT_INVALID_ARGUMENT, self)"
| "set_function bld self HASHKIT_HASH_DEFAULT = (HASHKIT_SUCCESS, self\<lparr>fn := Fn_one_at_a_time, fn_context := 0\<rparr>)"
| "set_function bld self HASHKIT_HASH_MAX = (HASHKIT_INVALID_HASH, self\<lparr>fn := Fn_one_at_a_time\<rparr>)"

definition hashkit_set_function ::
    "hash_build \<Rightarrow> hashkit_st \<Rightarrow> hashkit_hash_algorithm_t \<Rightarrow> hashkit_return_t \<times> hashkit_st" where
  "hashkit_set_function bld self a =
     (let (rc, f) = set_function bld (base_hash self) a in (rc, self\<lparr>base_hash := f\<rparr>))"

definition hashkit_set_distribution_function ::
    "hash_build \<Rightarrow> hashkit_st \<Rightarrow> hashkit_hash_algorithm_t \<Rightarrow> hashkit_return_t \<times> hashkit_st" where
  "hashkit_set_distribution_function bld self a =
     (let (rc, f) = set_function bld (distribution_hash self) a in (rc, self\<lparr>distribution_hash := f\<rparr>))"

definition set_custom_function ::
    "hashkit_function_st \<Rightarrow> hashkit_hash_fn \<Rightarrow> nat \<Rightarrow> hashkit_return_t \<times> hashkit_function_st" where
  "set_custom_function self f ctx =
     (if f \<noteq> Fn_null then (HASHKIT_SUCCESS, self\<lparr>fn := f, fn_context := ctx\<rparr>) else (HASHKIT_FAILURE, self))"

definition hashkit_set_custom_function ::
    "hashkit_st option \<Rightarrow> hashkit_hash_fn \<Rightarrow> nat \<Rightarrow> hashkit_return_t \<times> hashkit_st option" where
  "hashkit_set_custom_function self f ctx =
     (case self of None \<Rightarrow> (HASHKIT_INVALID_ARGUMENT, None)
      | Some s \<Rightarrow> (let (rc, b) = set_custom_function (base_hash s) f ctx in (rc, Some (s\<lparr>base_hash := b\<rparr>))))"

definition hashkit_set_custom_distribution_function ::
    "hashkit_st option \<Rightarrow> hashkit_hash_fn \<Rightarrow> nat \<Rightarrow> hashkit_return_t \<times> hashkit_st option" where
  "hashkit_set_custom_distribution_function self f ctx =
     (case self of None \<Rightarrow> (HASHKIT_INVALID_ARGUMENT, None)
      | Some s \<Rightarrow>
          (let (rc, b) = set_custom_function (distribution_hash s) f ctx
           in (rc, Some (s\<lparr>distribution_hash := b\<rparr>))))"

definition get_function_type :: "hashkit_hash_fn \<Rightarrow> hashkit_hash_algorithm_t" where
  "get_function_type f =
     (if f = Fn_one_at_a_time then HASHKIT_HASH_DEFAULT
      else if f = Fn_md5 then HASHKIT_HASH_MD5
      else if f = Fn_crc32 then HASHKIT_HASH_CRC
      else if f = Fn_fnv1_64 then HASHKIT_HASH_FNV1_64
      else if f = Fn_fnv1a_64 then HASHKIT_HASH_FNV1A_64
      else if f = Fn_fnv1_32 then HASHKIT_HASH_FNV1_32
      else if f = Fn_fnv1a_32 then HASHKIT_HASH_FNV1A_32
      else if f = Fn_hsieh then HASHKIT_HASH_HSIEH
      else if f = Fn_murmur then HASHKIT_HASH_MURMUR
      else if f = Fn_murmur3 then HASHKIT_HASH_MURMUR3
      else if f = Fn_jenkins then HASHKIT_HASH_JENKINS
      else HASHKIT_HASH_CUSTOM)"

definition hashkit_get_function :: "hashkit_st option \<Rightarrow> hashkit_hash_algorithm_t" where
  "hashkit_get_function self =
     (case self of None \<Rightarrow> HASHKIT_HASH_DEFAULT | Some s \<Rightarrow> get_function_type (fn (base_hash s)))"

definition hashkit_get_distribution_function :: "hashkit_st option \<Rightarrow> hashkit_hash_algorithm_t" where
  "hashkit_get_distribution_function self =
     (case self of None \<Rightarrow> HASHKIT_HASH_DEFAULT | Some s \<Rightarrow> get_function_type (fn (distribution_hash s)))"


subsection \<open>Creating, cloning and comparing kits\<close>

definition hashkit_init :: "hashkit_st \<Rightarrow> hashkit_st" where
  "hashkit_init self = self\<lparr>
     base_hash := \<lparr>fn = Fn_one_at_a_time, fn_context = 0\<rparr>,
     distribution_hash := \<lparr>fn = Fn_one_at_a_time, fn_context = 0\<rparr>,
     is_base_same_distributed := True,
     aes_key := None\<rparr>"

text \<open>Zeroed memory of a kit, as \<open>calloc\<close> returns it.\<close>

definition hashkit_zero :: hashkit_st where
  "hashkit_zero = \<lparr>base_hash = \<lparr>fn = Fn_null, fn_context = 0\<rparr>, distribution_hash = \<lparr>fn = Fn_null, fn_context = 0\<rparr>,
     is_base_same_distributed = False, is_allocated = False, aes_key = None\<rparr>"

definition hashkit_create_st :: "heap \<Rightarrow> hashkit_st option \<Rightarrow> hashkit_st option" where
  "hashkit_create_st heap self =
     (case self of
        Some s \<Rightarrow> Some (s\<lparr>is_allocated := False\<rparr>)
      | None \<Rightarrow> (case heap 48 of None \<Rightarrow> None | Some _ \<Rightarrow> Some (hashkit_zero\<lparr>is_allocated := True\<rparr>)))"

definition hashkit_create :: "heap \<Rightarrow> hashkit_st option \<Rightarrow> hashkit_st option" where
  "hashkit_create heap self = map_option hashkit_init (hashkit_create_st heap self)"

definition hashkit_clone :: "heap \<Rightarrow> hashkit_st option \<Rightarrow> hashkit_st option \<Rightarrow> hashkit_st option" where
  "hashkit_clone heap destination source =
     (case source of
        None \<Rightarrow> hashkit_create heap destination
      | Some src \<Rightarrow>
          (case hashkit_create_st heap destination of
             None \<Rightarrow> None
           | Some dst \<Rightarrow>
               Some (dst\<lparr>base_hash := base_hash src, distribution_hash := distribution_hash src,
                 is_base_same_distributed := is_base_same_distributed src,
                 aes_key := aes_clone_key heap (aes_key src)\<rparr>)))"

definition hashkit_compare :: "hashkit_st option \<Rightarrow> hashkit_st option \<Rightarrow> bool" where
  "hashkit_compare first second =
     (case (first, second) of
        (Some a, Some b) \<Rightarrow>
          fn (base_hash a) = fn (base_hash b) \<and> fn_context (base_hash a) = fn_context (base_hash b) \<and>
          fn (distribution_hash a) = fn (distribution_hash b) \<and>
          fn_context (distribution_hash a) = fn_context (distribution_hash b) \<and>
          is_base_same_distributed a = is_base_same_distributed b
      | _ \<Rightarrow> False)"

text \<open>
  Freeing a kit reads its options whether or not the pointer is null. The result is \<^const>\<open>None\<close>
  when the memory of the kit itself is released.
\<close>

definition hashkit_free :: "hashkit_st option \<Rightarrow> hashkit_st option outcome" where
  "hashkit_free self =
     (case self of
        None \<Rightarrow> Fault
      | Some s \<Rightarrow> if is_allocated s then Done None else Done (Some (s\<lparr>aes_key := None\<rparr>)))"

definition hashkit_key :: "heap \<Rightarrow> hashkit_st \<Rightarrow> bytes \<Rightarrow> bool \<times> hashkit_st" where
  "hashkit_key heap kit key =
     (let k = aes_create_key heap key in (k \<noteq> None, kit\<lparr>aes_key := k\<rparr>))"

definition hashkit_encrypt :: "heap \<Rightarrow> hashkit_st \<Rightarrow> bytes \<Rightarrow> hashkit_string_st option outcome" where
  "hashkit_encrypt heap kit source = aes_encrypt heap (aes_key kit) source"

definition hashkit_decrypt :: "heap \<Rightarrow> hashkit_st \<Rightarrow> bytes \<Rightarrow> hashkit_string_st option outcome" where
  "hashkit_decrypt heap kit source = aes_decrypt heap (aes_key kit) source"


subsection \<open>Selecting a function\<close>

lemma set_function_success_iff:
  "fst (set_function bld f a) = HASHKIT_SUCCESS \<longleftrightarrow>
     libhashkit_has_algorithm bld a \<and> a \<noteq> HASHKIT_HASH_CUSTOM"
  by (cases a) simp_all

lemma set_function_type:
  "set_function bld f a = (HASHKIT_SUCCESS, f') \<Longrightarrow> get_function_type (fn f') = a"
  by (cases a) (auto simp: get_function_type_def split: if_splits)

lemma set_function_digest:
  "set_function bld f a = (HASHKIT_SUCCESS, f') \<Longrightarrow>
     call_hash_fn bld (fn f') k ctx = Done (libhashkit_digest bld k a)"
  by (cases a)
    (auto simp: libhashkit_one_at_a_time_def libhashkit_md5_def libhashkit_crc32_def
      libhashkit_fnv1_64_def libhashkit_fnv1a_64_def libhashkit_fnv1_32_def libhashkit_fnv1a_32_def
      libhashkit_hsieh_def libhashkit_murmur_def libhashkit_murmur3_def libhashkit_jenkins_def
      split: if_splits)


lemma md5_stack_independent:
  assumes "length (buffer c) = 64" and "length (buffer c') = 64" and "length key < 2 ^ 32"
  shows "hashkit_md5 c key = hashkit_md5 c' key"
  using assms by (simp only: hashkit_md5_ref)

text \<open>
  The digest of a kit does not depend on where the key is stored nor on the memory around it
  nor on what the stack held before: two keys with the same bytes, shorter than \<open>2 ^ 31\<close> bytes and in
  the address space, have the same digest under every algorithm.
\<close>

lemma libhashkit_digest_bytes:
  assumes "key_bytes k = key_bytes k'" and "key_length k < 2 ^ 31"
    and "key_ptr k + key_length k < 2 ^ 64" and "key_ptr k' + key_length k' < 2 ^ 64"
    and "length (buffer (stack_md5 bld)) = 64" and "length (buffer c) = 64"
  shows "libhashkit_digest bld k a = libhashkit_digest (bld\<lparr>stack_md5 := c\<rparr>) k' a"
proof -
  have len: "key_length k' = key_length k" using arg_cong [OF assms(1), of length] by (simp add: key_bytes_def)
  have "length (key_bytes k) < 2 ^ 32" using assms(2) by (simp add: key_bytes_def)
  then have "libhashkit_md5 bld k = libhashkit_md5 (bld\<lparr>stack_md5 := c\<rparr>) k'"
    using assms md5_stack_independent [of "stack_md5 bld" c "key_bytes k"] by (simp add: libhashkit_md5_def)
  moreover have "libhashkit_jenkins k = libhashkit_jenkins k'"
    using assms(1) by (simp add: libhashkit_jenkins_def hashkit_jenkins_ref key_bytes_def)
  moreover have "libhashkit_murmur3 k = libhashkit_murmur3 k'"
    using assms(1) hashkit_murmur3_eq [OF assms(2,3), of "key_mem k"]
      hashkit_murmur3_eq [OF assms(2) assms(4) [unfolded len], of "key_mem k'"]
    by (simp only: libhashkit_murmur3_def key_bytes_def len)
  ultimately show ?thesis using assms(1)
    by (cases a)
      (simp_all add: libhashkit_one_at_a_time_def libhashkit_crc32_def
        libhashkit_fnv1_64_def libhashkit_fnv1a_64_def libhashkit_fnv1_32_def libhashkit_fnv1a_32_def
        libhashkit_hsieh_def libhashkit_murmur_def)
qed

definition plain_build :: hash_build where
  "plain_build = \<lparr>have_fnv64 = True, have_hsieh = False, have_murmur = True,
     stack_md5 = blank_MD5_CTX, custom = (\<lambda>_ _ _. 0)\<rparr>"



subsection \<open>Cloning and keys\<close>

text \<open>
  A clone of a kit compares equal to it, selects the same functions and computes the same
  digests; when memory for the key is granted it encrypts and decrypts as the original does, and
  it records whether its own memory is to be freed.
\<close>

lemma hashkit_clone_spec:
  assumes "hashkit_clone heap dst (Some src) = Some c"
  shows "hashkit_compare (Some c) (Some src) \<and>
    hashkit_get_function (Some c) = hashkit_get_function (Some src) \<and>
    hashkit_get_distribution_function (Some c) = hashkit_get_distribution_function (Some src) \<and>
    hashkit_digest bld c k = hashkit_digest bld src k \<and>
    is_allocated c = (dst = None) \<and>
    (heap 488 \<noteq> None \<longrightarrow>
      hashkit_encrypt heap c msg = hashkit_encrypt heap src msg \<and>
      hashkit_decrypt heap c msg = hashkit_decrypt heap src msg)"
  using assms
  by (auto simp: hashkit_clone_def hashkit_create_st_def hashkit_compare_def hashkit_get_function_def
      hashkit_get_distribution_function_def hashkit_digest_def hashkit_encrypt_def hashkit_decrypt_def
      aes_clone_key_def split: option.splits)

text \<open>
  Each algorithm has a name of its own, so that the printed name of a kit's function identifies
  it among the thirteen enumeration values.
\<close>

lemma libhashkit_string_hash_inj:
  "libhashkit_string_hash a = libhashkit_string_hash b \<longleftrightarrow> a = b"
  by (cases a; cases b) simp_all

end
