(* ===== verification/Protocol_Binary.thy ===== *)
theory Protocol_Binary
  imports Prelude
begin

text \<open>
  The binary protocol as \<open>libmemcachedprotocol-0.0/binary.h\<close> and \<open>byteorder.cc\<close> have it: command
  and status codes, the packet headers as they lie in memory (multi-byte fields in network order,
  read by a little-endian machine) and the conversions of byte order.  The lemmas show that
  headers are laid out as the protocol says: a stored header is read back, and the network order
  of a field is big-endian.
\<close>

subsection \<open>Loads, stores and byte order\<close>

definition le_load :: "bytes \<Rightarrow> 'a::len word" where
  "le_load bs = foldr (\<lambda>b w. unsigned b OR push_bit 8 w) bs 0"

definition le_store :: "nat \<Rightarrow> 'a::len word \<Rightarrow> bytes" where
  "le_store n w = map (\<lambda>i. unsigned (drop_bit (8 * i) w)) [0..<n]"

definition ntohs :: "u16 \<Rightarrow> u16" where
  "ntohs w = le_load (rev (le_store 2 w))"

definition htons :: "u16 \<Rightarrow> u16" where
  "htons w = le_load (rev (le_store 2 w))"

definition ntohl :: "u32 \<Rightarrow> u32" where
  "ntohl w = le_load (rev (le_store 4 w))"

definition htonl :: "u32 \<Rightarrow> u32" where
  "htonl w = le_load (rev (le_store 4 w))"

text \<open>\<open>swap64\<close> of \<open>byteorder.cc\<close>: eight rounds of its loop over \<open>(rv, in)\<close>.\<close>

primrec swap64_loop :: "nat \<Rightarrow> u64 \<Rightarrow> u64 \<Rightarrow> u64" where
  "swap64_loop 0 rv inp = rv"
| "swap64_loop (Suc x) rv inp = swap64_loop x (push_bit 8 rv OR (inp AND 0xff)) (drop_bit 8 inp)"

definition swap64 :: "u64 \<Rightarrow> u64" where
  "swap64 inp = swap64_loop 8 0 inp"

definition memcached_ntohll :: "u64 \<Rightarrow> u64" where
  "memcached_ntohll v = swap64 v"

definition memcached_htonll :: "u64 \<Rightarrow> u64" where
  "memcached_htonll v = swap64 v"


subsection \<open>Codes\<close>

datatype (plugins only: code size) protocol_binary_command =
    PROTOCOL_BINARY_CMD_GET
  | PROTOCOL_BINARY_CMD_SET
  | PROTOCOL_BINARY_CMD_ADD
  | PROTOCOL_BINARY_CMD_REPLACE
  | PROTOCOL_BINARY_CMD_DELETE
  | PROTOCOL_BINARY_CMD_INCREMENT
  | PROTOCOL_BINARY_CMD_DECREMENT
  | PROTOCOL_BINARY_CMD_QUIT
  | PROTOCOL_BINARY_CMD_FLUSH
  | PROTOCOL_BINARY_CMD_GETQ
  | PROTOCOL_BINARY_CMD_NOOP
  | PROTOCOL_BINARY_CMD_VERSION
  | PROTOCOL_BINARY_CMD_GETK
  | PROTOCOL_BINARY_CMD_GETKQ
  | PROTOCOL_BINARY_CMD_APPEND
  | PROTOCOL_BINARY_CMD_PREPEND
  | PROTOCOL_BINARY_CMD_STAT
  | PROTOCOL_BINARY_CMD_SETQ
  | PROTOCOL_BINARY_CMD_ADDQ
  | PROTOCOL_BINARY_CMD_REPLACEQ
  | PROTOCOL_BINARY_CMD_DELETEQ
  | PROTOCOL_BINARY_CMD_INCREMENTQ
  | PROTOCOL_BINARY_CMD_DECREMENTQ
  | PROTOCOL_BINARY_CMD_QUITQ
  | PROTOCOL_BINARY_CMD_FLUSHQ
  | PROTOCOL_BINARY_CMD_APPENDQ
  | PROTOCOL_BINARY_CMD_PREPENDQ
  | PROTOCOL_BINARY_CMD_VERBOSITY
  | PROTOCOL_BINARY_CMD_TOUCH
  | PROTOCOL_BINARY_CMD_GAT
  | PROTOCOL_BINARY_CMD_GATQ
  | PROTOCOL_BINARY_CMD_GATK
  | PROTOCOL_BINARY_CMD_GATKQ
  | PROTOCOL_BINARY_CMD_SASL_LIST_MECHS
  | PROTOCOL_BINARY_CMD_SASL_AUTH
  | PROTOCOL_BINARY_CMD_SASL_STEP
  | PROTOCOL_BINARY_CMD_RGET
  | PROTOCOL_BINARY_CMD_RSET
  | PROTOCOL_BINARY_CMD_RSETQ
  | PROTOCOL_BINARY_CMD_RAPPEND
  | PROTOCOL_BINARY_CMD_RAPPENDQ
  | PROTOCOL_BINARY_CMD_RPREPEND
  | PROTOCOL_BINARY_CMD_RPREPENDQ
  | PROTOCOL_BINARY_CMD_RDELETE
  | PROTOCOL_BINARY_CMD_RDELETEQ
  | PROTOCOL_BINARY_CMD_RINCR
  | PROTOCOL_BINARY_CMD_RINCRQ
  | PROTOCOL_BINARY_CMD_RDECR
  | PROTOCOL_BINARY_CMD_RDECRQ
  | PROTOCOL_BINARY_CMD_SET_VBUCKET
  | PROTOCOL_BINARY_CMD_GET_VBUCKET
  | PROTOCOL_BINARY_CMD_DEL_VBUCKET
  | PROTOCOL_BINARY_CMD_TAP_CONNECT
  | PROTOCOL_BINARY_CMD_TAP_MUTATION
  | PROTOCOL_BINARY_CMD_TAP_DELETE
  | PROTOCOL_BINARY_CMD_TAP_FLUSH
  | PROTOCOL_BINARY_CMD_TAP_OPAQUE
  | PROTOCOL_BINARY_CMD_TAP_VBUCKET_SET
  | PROTOCOL_BINARY_CMD_TAP_CHECKPOINT_START
  | PROTOCOL_BINARY_CMD_TAP_CHECKPOINT_END
  | PROTOCOL_BINARY_CMD_LAST_RESERVED
  | PROTOCOL_BINARY_CMD_SCRUB

primrec cmd_code :: "protocol_binary_command \<Rightarrow> u8" where
  "cmd_code PROTOCOL_BINARY_CMD_GET = 0x00"
| "cmd_code PROTOCOL_BINARY_CMD_SET = 0x01"
| "cmd_code PROTOCOL_BINARY_CMD_ADD = 0x02"
| "cmd_code PROTOCOL_BINARY_CMD_REPLACE = 0x03"
| "cmd_code PROTOCOL_BINARY_CMD_DELETE = 0x04"
| "cmd_code PROTOCOL_BINARY_CMD_INCREMENT = 0x05"
| "cmd_code PROTOCOL_BINARY_CMD_DECREMENT = 0x06"
| "cmd_code PROTOCOL_BINARY_CMD_QUIT = 0x07"
| "cmd_code PROTOCOL_BINARY_CMD_FLUSH = 0x08"
| "cmd_code PROTOCOL_BINARY_CMD_GETQ = 0x09"
| "cmd_code PROTOCOL_BINARY_CMD_NOOP = 0x0a"
| "cmd_code PROTOCOL_BINARY_CMD_VERSION = 0x0b"
| "cmd_code PROTOCOL_BINARY_CMD_GETK = 0x0c"
| "cmd_code PROTOCOL_BINARY_CMD_GETKQ = 0x0d"
| "cmd_code PROTOCOL_BINARY_CMD_APPEND = 0x0e"
| "cmd_code PROTOCOL_BINARY_CMD_PREPEND = 0x0f"
| "cmd_code PROTOCOL_BINARY_CMD_STAT = 0x10"
| "cmd_code PROTOCOL_BINARY_CMD_SETQ = 0x11"
| "cmd_code PROTOCOL_BINARY_CMD_ADDQ = 0x12"
| "cmd_code PROTOCOL_BINARY_CMD_REPLACEQ = 0x13"
| "cmd_code PROTOCOL_BINARY_CMD_DELETEQ = 0x14"
| "cmd_code PROTOCOL_BINARY_CMD_INCREMENTQ = 0x15"
| "cmd_code PROTOCOL_BINARY_CMD_DECREMENTQ = 0x16"
| "cmd_code PROTOCOL_BINARY_CMD_QUITQ = 0x17"
| "cmd_code PROTOCOL_BINARY_CMD_FLUSHQ = 0x18"
| "cmd_code PROTOCOL_BINARY_CMD_APPENDQ = 0x19"
| "cmd_code PROTOCOL_BINARY_CMD_PREPENDQ = 0x1a"
| "cmd_code PROTOCOL_BINARY_CMD_VERBOSITY = 0x1b"
| "cmd_code PROTOCOL_BINARY_CMD_TOUCH = 0x1c"
| "cmd_code PROTOCOL_BINARY_CMD_GAT = 0x1d"
| "cmd_code PROTOCOL_BINARY_CMD_GATQ = 0x1e"
| "cmd_code PROTOCOL_BINARY_CMD_GATK = 0x23"
| "cmd_code PROTOCOL_BINARY_CMD_GATKQ = 0x24"
| "cmd_code PROTOCOL_BINARY_CMD_SASL_LIST_MECHS = 0x20"
| "cmd_code PROTOCOL_BINARY_CMD_SASL_AUTH = 0x21"
| "cmd_code PROTOCOL_BINARY_CMD_SASL_STEP = 0x22"
| "cmd_code PROTOCOL_BINARY_CMD_RGET = 0x30"
| "cmd_code PROTOCOL_BINARY_CMD_RSET = 0x31"
| "cmd_code PROTOCOL_BINARY_CMD_RSETQ = 0x32"
| "cmd_code PROTOCOL_BINARY_CMD_RAPPEND = 0x33"
| "cmd_code PROTOCOL_BINARY_CMD_RAPPENDQ = 0x34"
| "cmd_code PROTOCOL_BINARY_CMD_RPREPEND = 0x35"
| "cmd_code PROTOCOL_BINARY_CMD_RPREPENDQ = 0x36"
| "cmd_code PROTOCOL_BINARY_CMD_RDELETE = 0x37"
| "cmd_code PROTOCOL_BINARY_CMD_RDELETEQ = 0x38"
| "cmd_code PROTOCOL_BINARY_CMD_RINCR = 0x39"
| "cmd_code PROTOCOL_BINARY_CMD_RINCRQ = 0x3a"
| "cmd_code PROTOCOL_BINARY_CMD_RDECR = 0x3b"
| "cmd_code PROTOCOL_BINARY_CMD_RDECRQ = 0x3c"
| "cmd_code PROTOCOL_BINARY_CMD_SET_VBUCKET = 0x3d"
| "cmd_code PROTOCOL_BINARY_CMD_GET_VBUCKET = 0x3e"
| "cmd_code PROTOCOL_BINARY_CMD_DEL_VBUCKET = 0x3f"
| "cmd_code PROTOCOL_BINARY_CMD_TAP_CONNECT = 0x40"
| "cmd_code PROTOCOL_BINARY_CMD_TAP_MUTATION = 0x41"
| "cmd_code PROTOCOL_BINARY_CMD_TAP_DELETE = 0x42"
| "cmd_code PROTOCOL_BINARY_CMD_TAP_FLUSH = 0x43"
| "cmd_code PROTOCOL_BINARY_CMD_TAP_OPAQUE = 0x44"
| "cmd_code PROTOCOL_BINARY_CMD_TAP_VBUCKET_SET = 0x45"
| "cmd_code PROTOCOL_BINARY_CMD_TAP_CHECKPOINT_START = 0x46"
| "cmd_code PROTOCOL_BINARY_CMD_TAP_CHECKPOINT_END = 0x47"
| "cmd_code PROTOCOL_BINARY_CMD_LAST_RESERVED = 0xef"
| "cmd_code PROTOCOL_BINARY_CMD_SCRUB = 0xf0"

definition all_commands :: "protocol_binary_command list" where
  "all_commands =
    [PROTOCOL_BINARY_CMD_GET,
     PROTOCOL_BINARY_CMD_SET,
     PROTOCOL_BINARY_CMD_ADD,
     PROTOCOL_BINARY_CMD_REPLACE,
     PROTOCOL_BINARY_CMD_DELETE,
     PROTOCOL_BINARY_CMD_INCREMENT,
     PROTOCOL_BINARY_CMD_DECREMENT,
     PROTOCOL_BINARY_CMD_QUIT,
     PROTOCOL_BINARY_CMD_FLUSH,
     PROTOCOL_BINARY_CMD_GETQ,
     PROTOCOL_BINARY_CMD_NOOP,
     PROTOCOL_BINARY_CMD_VERSION,
     PROTOCOL_BINARY_CMD_GETK,
     PROTOCOL_BINARY_CMD_GETKQ,
     PROTOCOL_BINARY_CMD_APPEND,
     PROTOCOL_BINARY_CMD_PREPEND,
     PROTOCOL_BINARY_CMD_STAT,
     PROTOCOL_BINARY_CMD_SETQ,
     PROTOCOL_BINARY_CMD_ADDQ,
     PROTOCOL_BINARY_CMD_REPLACEQ,
     PROTOCOL_BINARY_CMD_DELETEQ,
     PROTOCOL_BINARY_CMD_INCREMENTQ,
     PROTOCOL_BINARY_CMD_DECREMENTQ,
     PROTOCOL_BINARY_CMD_QUITQ,
     PROTOCOL_BINARY_CMD_FLUSHQ,
     PROTOCOL_BINARY_CMD_APPENDQ,
     PROTOCOL_BINARY_CMD_PREPENDQ,
     PROTOCOL_BINARY_CMD_VERBOSITY,
     PROTOCOL_BINARY_CMD_TOUCH,
     PROTOCOL_BINARY_CMD_GAT,
     PROTOCOL_BINARY_CMD_GATQ,
     PROTOCOL_BINARY_CMD_GATK,
     PROTOCOL_BINARY_CMD_GATKQ,
     PROTOCOL_BINARY_CMD_SASL_LIST_MECHS,
     PROTOCOL_BINARY_CMD_SASL_AUTH,
     PROTOCOL_BINARY_CMD_SASL_STEP,
     PROTOCOL_BINARY_CMD_RGET,
     PROTOCOL_BINARY_CMD_RSET,
     PROTOCOL_BINARY_CMD_RSETQ,
     PROTOCOL_BINARY_CMD_RAPPEND,
     PROTOCOL_BINARY_CMD_RAPPENDQ,
     PROTOCOL_BINARY_CMD_RPREPEND,
     PROTOCOL_BINARY_CMD_RPREPENDQ,
     PROTOCOL_BINARY_CMD_RDELETE,
     PROTOCOL_BINARY_CMD_RDELETEQ,
     PROTOCOL_BINARY_CMD_RINCR,
     PROTOCOL_BINARY_CMD_RINCRQ,
     PROTOCOL_BINARY_CMD_RDECR,
     PROTOCOL_BINARY_CMD_RDECRQ,
     PROTOCOL_BINARY_CMD_SET_VBUCKET,
     PROTOCOL_BINARY_CMD_GET_VBUCKET,
     PROTOCOL_BINARY_CMD_DEL_VBUCKET,
     PROTOCOL_BINARY_CMD_TAP_CONNECT,
     PROTOCOL_BINARY_CMD_TAP_MUTATION,
     PROTOCOL_BINARY_CMD_TAP_DELETE,
     PROTOCOL_BINARY_CMD_TAP_FLUSH,
     PROTOCOL_BINARY_CMD_TAP_OPAQUE,
     PROTOCOL_BINARY_CMD_TAP_VBUCKET_SET,
     PROTOCOL_BINARY_CMD_TAP_CHECKPOINT_START,
     PROTOCOL_BINARY_CMD_TAP_CHECKPOINT_END,
     PROTOCOL_BINARY_CMD_LAST_RESERVED,
     PROTOCOL_BINARY_CMD_SCRUB]"

datatype (plugins only: code size) protocol_binary_response_status =
    PROTOCOL_BINARY_RESPONSE_SUCCESS
  | PROTOCOL_BINARY_RESPONSE_KEY_ENOENT
  | PROTOCOL_BINARY_RESPONSE_KEY_EEXISTS
  | PROTOCOL_BINARY_RESPONSE_E2BIG
  | PROTOCOL_BINARY_RESPONSE_EINVAL
  | PROTOCOL_BINARY_RESPONSE_NOT_STORED
  | PROTOCOL_BINARY_RESPONSE_DELTA_BADVAL
  | PROTOCOL_BINARY_RESPONSE_NOT_MY_VBUCKET
  | PROTOCOL_BINARY_RESPONSE_AUTH_ERROR
  | PROTOCOL_BINARY_RESPONSE_AUTH_CONTINUE
  | PROTOCOL_BINARY_RESPONSE_UNKNOWN_COMMAND
  | PROTOCOL_BINARY_RESPONSE_ENOMEM
  | PROTOCOL_BINARY_RESPONSE_NOT_SUPPORTED
  | PROTOCOL_BINARY_RESPONSE_EINTERNAL
  | PROTOCOL_BINARY_RESPONSE_EBUSY
  | PROTOCOL_BINARY_RESPONSE_ETMPFAIL

primrec status_code :: "protocol_binary_response_status \<Rightarrow> u16" where
  "status_code PROTOCOL_BINARY_RESPONSE_SUCCESS = 0x00"
| "status_code PROTOCOL_BINARY_RESPONSE_KEY_ENOENT = 0x01"
| "status_code PROTOCOL_BINARY_RESPONSE_KEY_EEXISTS = 0x02"
| "status_code PROTOCOL_BINARY_RESPONSE_E2BIG = 0x03"
| "status_code PROTOCOL_BINARY_RESPONSE_EINVAL = 0x04"
| "status_code PROTOCOL_BINARY_RESPONSE_NOT_STORED = 0x05"
| "status_code PROTOCOL_BINARY_RESPONSE_DELTA_BADVAL = 0x06"
| "status_code PROTOCOL_BINARY_RESPONSE_NOT_MY_VBUCKET = 0x07"
| "status_code PROTOCOL_BINARY_RESPONSE_AUTH_ERROR = 0x20"
| "status_code PROTOCOL_BINARY_RESPONSE_AUTH_CONTINUE = 0x21"
| "status_code PROTOCOL_BINARY_RESPONSE_UNKNOWN_COMMAND = 0x81"
| "status_code PROTOCOL_BINARY_RESPONSE_ENOMEM = 0x82"
| "status_code PROTOCOL_BINARY_RESPONSE_NOT_SUPPORTED = 0x83"
| "status_code PROTOCOL_BINARY_RESPONSE_EINTERNAL = 0x84"
| "status_code PROTOCOL_BINARY_RESPONSE_EBUSY = 0x85"
| "status_code PROTOCOL_BINARY_RESPONSE_ETMPFAIL = 0x86"

text \<open>A \<open>switch\<close> over a wire opcode selects the command with that code.\<close>

definition command_of :: "u8 \<Rightarrow> protocol_binary_command option" where
  "command_of cc = find (\<lambda>c. cmd_code c = cc) all_commands"

definition PROTOCOL_BINARY_REQ :: u8 where "PROTOCOL_BINARY_REQ = 0x80"

definition PROTOCOL_BINARY_RES :: u8 where "PROTOCOL_BINARY_RES = 0x81"

definition PROTOCOL_BINARY_RAW_BYTES :: u8 where "PROTOCOL_BINARY_RAW_BYTES = 0"


subsection \<open>Headers\<close>

record protocol_binary_request_header =
  req_magic :: u8
  req_opcode :: u8
  req_keylen :: u16
  req_extlen :: u8
  req_datatype :: u8
  req_vbucket :: u16
  req_bodylen :: u32
  req_opaque :: u32
  req_cas :: u64

record protocol_binary_response_header =
  res_magic :: u8
  res_opcode :: u8
  res_keylen :: u16
  res_extlen :: u8
  res_datatype :: u8
  res_status :: u16
  res_bodylen :: u32
  res_opaque :: u32
  res_cas :: u64

text \<open>The union of a header with its 24 bytes, in both directions.\<close>

definition segment :: "nat \<Rightarrow> nat \<Rightarrow> 'a list \<Rightarrow> 'a list" where
  "segment off n bs = take n (drop off bs)"

definition load_request :: "bytes \<Rightarrow> protocol_binary_request_header" where
  "load_request bs =
     \<lparr>req_magic = le_load (segment 0 1 bs), req_opcode = le_load (segment 1 1 bs),
      req_keylen = le_load (segment 2 2 bs), req_extlen = le_load (segment 4 1 bs),
      req_datatype = le_load (segment 5 1 bs), req_vbucket = le_load (segment 6 2 bs),
      req_bodylen = le_load (segment 8 4 bs), req_opaque = le_load (segment 12 4 bs),
      req_cas = le_load (segment 16 8 bs)\<rparr>"

definition request_bytes :: "protocol_binary_request_header \<Rightarrow> bytes" where
  "request_bytes h =
     le_store 1 (req_magic h) @ le_store 1 (req_opcode h) @ le_store 2 (req_keylen h) @
     le_store 1 (req_extlen h) @ le_store 1 (req_datatype h) @ le_store 2 (req_vbucket h) @
     le_store 4 (req_bodylen h) @ le_store 4 (req_opaque h) @ le_store 8 (req_cas h)"

definition load_response :: "bytes \<Rightarrow> protocol_binary_response_header" where
  "load_response bs =
     \<lparr>res_magic = le_load (segment 0 1 bs), res_opcode = le_load (segment 1 1 bs),
      res_keylen = le_load (segment 2 2 bs), res_extlen = le_load (segment 4 1 bs),
      res_datatype = le_load (segment 5 1 bs), res_status = le_load (segment 6 2 bs),
      res_bodylen = le_load (segment 8 4 bs), res_opaque = le_load (segment 12 4 bs),
      res_cas = le_load (segment 16 8 bs)\<rparr>"

definition response_bytes :: "protocol_binary_response_header \<Rightarrow> bytes" where
  "response_bytes h =
     le_store 1 (res_magic h) @ le_store 1 (res_opcode h) @ le_store 2 (res_keylen h) @
     le_store 1 (res_extlen h) @ le_store 1 (res_datatype h) @ le_store 2 (res_status h) @
     le_store 4 (res_bodylen h) @ le_store 4 (res_opaque h) @ le_store 8 (res_cas h)"



subsection \<open>Bytes of loads and stores\<close>

lemma length_le_store [simp]: "length (le_store n w) = n"
  by (simp add: le_store_def)

lemma le_load_Nil [simp]: "le_load [] = 0"
  by (simp add: le_load_def)

lemma le_load_Cons: "le_load (b # bs) = unsigned b OR push_bit 8 (le_load bs)"
  by (simp add: le_load_def)

lemma bit_le_load:
  "bit (le_load bs :: 'a::len word) n \<longleftrightarrow>
     n < LENGTH('a) \<and> n div 8 < length bs \<and> bit (bs ! (n div 8)) (n mod 8)"
proof (induction bs arbitrary: n)
  case (Cons b bs)
  show ?case
  proof (cases "n < 8")
    case True
    then show ?thesis by (auto simp: le_load_Cons bit_simps)
  next
    case False
    then have n: "n div 8 = Suc ((n - 8) div 8)" "n mod 8 = (n - 8) mod 8"
      by (simp_all add: le_div_geq le_mod_geq)
    have "\<not> bit b n" using False byte_bit_bound by blast
    with False show ?thesis by (auto simp: le_load_Cons bit_simps Cons n)
  qed
qed simp

lemma bit_le_store:
  "i < n \<Longrightarrow> bit (le_store n (w :: 'a::len word) ! i) k \<longleftrightarrow> k < 8 \<and> bit w (8 * i + k)"
  by (auto simp: le_store_def bit_simps)

lemma le_load_store [simp]:
  assumes "LENGTH('a::len) \<le> 8 * n"
  shows "le_load (le_store n w) = (w :: 'a word)"
proof (rule bit_word_eqI)
  fix k assume k: "k < LENGTH('a)"
  with assms have "k div 8 < n" by (intro less_mult_imp_div_less) (simp add: mult.commute)
  with k show "bit (le_load (le_store n w) :: 'a word) k = bit w k"
    by (simp add: bit_le_load bit_le_store)
qed

lemma le_store_load:
  assumes "length bs = n" and "8 * n \<le> LENGTH('a::len)"
  shows "le_store n (le_load bs :: 'a word) = bs"
proof (rule nth_equalityI)
  fix i assume "i < length (le_store n (le_load bs :: 'a word))"
  then have i: "i < n" by simp
  show "le_store n (le_load bs :: 'a word) ! i = bs ! i"
  proof (rule bit_word_eqI)
    fix k assume k: "k < LENGTH(8)"
    then have "(8 * i + k) div 8 = i" "(8 * i + k) mod 8 = k" "8 * i + k < LENGTH('a)"
      using i assms(2) by simp_all
    with i k assms(1) show "bit (le_store n (le_load bs :: 'a word) ! i) k = bit (bs ! i) k"
      by (simp add: bit_le_store bit_le_load)
  qed
qed (use assms in simp)

lemma net_involution [simp]:
  "ntohs (htons v) = v" "htons (ntohs v) = v" "ntohl (htonl w) = w" "htonl (ntohl w) = w"
  by (simp_all add: ntohs_def htons_def ntohl_def htonl_def le_store_load)

lemma htons_0 [simp]: "htons 0 = 0" "ntohs 0 = 0" "htonl 0 = 0" "ntohl 0 = 0"
  by (simp_all add: htons_def ntohs_def htonl_def ntohl_def le_store_def le_load_def numeral_eq_Suc)

lemma net_inject [simp]:
  "htons v = htons v' \<longleftrightarrow> v = v'" "ntohs v = ntohs v' \<longleftrightarrow> v = v'"
  "htonl w = htonl w' \<longleftrightarrow> w = w'" "ntohl w = ntohl w' \<longleftrightarrow> w = w'"
  by (metis net_involution)+

lemma net_eq_0_iff [simp]:
  "htons v = 0 \<longleftrightarrow> v = 0" "ntohs v = 0 \<longleftrightarrow> v = 0" "htonl w = 0 \<longleftrightarrow> w = 0" "ntohl w = 0 \<longleftrightarrow> w = 0"
  by (metis htons_0 net_involution)+

text \<open>Network order is big-endian: the bytes of \<open>htonl w\<close> in memory are those of \<open>w\<close> reversed.\<close>

lemma le_store_hton:
  "le_store 2 (htons v) = rev (le_store 2 v)" "le_store 4 (htonl w) = rev (le_store 4 w)"
  by (simp_all add: htons_def htonl_def le_store_load)

lemma ntoh_le_load:
  "length bs = 2 \<Longrightarrow> ntohs (le_load bs) = le_load (rev bs)"
  "length cs = 4 \<Longrightarrow> ntohl (le_load cs) = le_load (rev cs)"
  by (simp_all add: ntohs_def ntohl_def le_store_load)

lemma le_load_append: "le_load (xs @ ys) = le_load xs OR push_bit (8 * length xs) (le_load ys)"
  by (induction xs) (simp_all add: le_load_Cons push_bit_or or.assoc add.commute)

lemma bit_le_load_bound: "bit (le_load bs) n \<Longrightarrow> n < 8 * length bs"
  by (simp add: bit_le_load div_less_iff_less_mult mult.commute)

lemma swap64_loop_bytes:
  assumes "length bs \<le> 8"
  shows "swap64_loop (length bs) rv (le_load bs) = push_bit (8 * length bs) rv OR le_load (rev bs)"
  using assms
proof (induction bs arbitrary: rv)
  case (Cons b bs)
  have ff: "(0xff :: u64) = mask 8" by (simp add: mask_eq_exp_minus_1)
  have low: "(le_load (b # bs) :: u64) AND 0xff = unsigned b"
    unfolding ff le_load_Cons by (rule bit_word_eqI) (auto simp: bit_simps dest: byte_bit_bound)
  have "n + 8 < 64" if "bit (le_load bs :: u64) n" for n
    using bit_le_load_bound [OF that] Cons.prems by simp
  then have high: "drop_bit 8 (le_load (b # bs) :: u64) = le_load bs"
    by (intro bit_word_eqI) (auto simp: le_load_Cons bit_simps dest: byte_bit_bound)
  have "swap64_loop (length (b # bs)) rv (le_load (b # bs)) =
      swap64_loop (length bs) (push_bit 8 rv OR unsigned b) (le_load bs)"
    by (simp add: low high)
  with Cons show ?case
    by (simp add: le_load_append le_load_Cons [of b "[]"] push_bit_or ac_simps)
qed simp

lemma swap64_bytes: "length bs = 8 \<Longrightarrow> swap64 (le_load bs) = le_load (rev bs)"
  using swap64_loop_bytes [of bs 0] by (simp add: swap64_def)

lemma swap64_swap64: "swap64 (swap64 w) = w"
proof -
  have "swap64 w = le_load (rev (le_store 8 w))"
    using swap64_bytes [of "le_store 8 w"] by simp
  then show ?thesis
    using swap64_bytes [of "rev (le_store 8 w)"] by simp
qed

lemma ntohll_htonll [simp]: "memcached_ntohll (memcached_htonll v) = v" "memcached_htonll (memcached_ntohll v) = v"
  by (simp_all add: memcached_ntohll_def memcached_htonll_def swap64_swap64)

lemma ntohll_0 [simp]: "memcached_ntohll 0 = 0" "memcached_htonll 0 = 0"
  by (simp_all add: memcached_ntohll_def memcached_htonll_def swap64_def numeral_eq_Suc)

lemma ntohll_eq_0_iff [simp]: "memcached_ntohll v = 0 \<longleftrightarrow> v = 0" "memcached_htonll v = 0 \<longleftrightarrow> v = 0"
  by (metis ntohll_0 ntohll_htonll)+

lemma le_store_htonll: "le_store 8 (memcached_htonll v) = rev (le_store 8 v)"
proof -
  have "memcached_htonll v = le_load (rev (le_store 8 v))"
    using swap64_bytes [of "le_store 8 v"] by (simp add: memcached_htonll_def)
  then show ?thesis by (simp add: le_store_load)
qed


subsection \<open>Codes and headers\<close>

text \<open>The position of a code in \<^const>\<open>all_commands\<close>, which makes the codes distinct.\<close>

definition code_position :: "nat \<Rightarrow> nat" where
  "code_position n =
     (if n < 0x1f then n else if n < 0x23 then n + 1 else if n < 0x30 then n - 4
      else if n < 0x48 then n - 12 else n - 179)"

lemma nth_code_position: "all_commands ! code_position (unat (cmd_code c)) = c"
  by (cases c) (simp_all add: code_position_def all_commands_def)

lemma cmd_code_inject [simp]: "cmd_code c = cmd_code c' \<longleftrightarrow> c = c'"
  by (metis nth_code_position)

lemma status_code_inject [simp]: "status_code s = status_code s' \<longleftrightarrow> s = s'"
  by (cases s; cases s'; simp)

lemma in_all_commands [simp]: "c \<in> set all_commands"
  by (cases c) (simp_all add: all_commands_def)

lemma find_eq: "x \<in> set xs \<Longrightarrow> find (\<lambda>y. y = x) xs = Some x"
  by (induction xs) auto

lemma command_of_cmd_code [simp]: "command_of (cmd_code c) = Some c"
  by (simp add: command_of_def find_eq)

lemma command_of_Some_iff: "command_of cc = Some c \<longleftrightarrow> cc = cmd_code c"
  by (auto simp: command_of_def find_eq dest: find_Some_iff [THEN iffD1])

lemma length_headers [simp]: "length (request_bytes h) = 24" "length (response_bytes r) = 24"
  by (simp_all add: request_bytes_def response_bytes_def)

lemma segment_skip [simp]: "length xs \<le> off \<Longrightarrow> segment off n (xs @ ys) = segment (off - length xs) n ys"
  by (simp add: segment_def)

lemma segment_here [simp]: "length xs = n \<Longrightarrow> segment 0 n (xs @ ys) = xs"
  by (simp add: segment_def)

lemma segment_within: "off + n \<le> length xs \<Longrightarrow> segment off n (xs @ ys) = segment off n xs"
  by (simp add: segment_def)

lemma length_segment: "length (segment off n xs) = min n (length xs - off)"
  by (simp add: segment_def min.commute)

lemma load_response_bytes [simp]: "load_response (response_bytes h @ body) = h"
  unfolding load_response_def response_bytes_def append_assoc
  by (rule protocol_binary_response_header.equality; simp del: append_assoc)

lemma load_request_bytes [simp]: "load_request (request_bytes h @ body) = h"
  unfolding load_request_def request_bytes_def append_assoc
  by (rule protocol_binary_request_header.equality; simp del: append_assoc)

lemma segment_join: "segment 0 m xs @ segment m n xs = segment 0 (m + n) xs"
  by (simp add: segment_def take_add)

lemma request_bytes_load:
  assumes "24 \<le> length bs"
  shows "request_bytes (load_request bs) = take 24 bs"
proof -
  have "request_bytes (load_request bs) =
      ((((((((segment 0 1 bs @ segment 1 1 bs) @ segment 2 2 bs) @ segment 4 1 bs) @ segment 5 1 bs) @
        segment 6 2 bs) @ segment 8 4 bs) @ segment 12 4 bs) @ segment 16 8 bs)"
    using assms by (simp add: request_bytes_def load_request_def le_store_load length_segment)
  also have "\<dots> = segment 0 24 bs"
    by (simp only: segment_join one_add_one numeral_plus_one arith_simps)
  finally show ?thesis by (simp add: segment_def)
qed


text \<open>From here on codes are compared through the commands and statuses they stand for.\<close>

declare cmd_code.simps [simp del] status_code.simps [simp del]

end
