(* ===== verification/Object_Cache.thy ===== *)
theory Object_Cache
  imports Memory Protocol_Binary
begin

text \<open>
  The object cache of \<open>libmemcachedprotocol/cache.c\<close>: a stack of free buffers of one size in front
  of the allocator.  A buffer is the byte list \<open>malloc\<close> returned; without \<open>NDEBUG\<close> an object lies
  between two red zones of its buffer.  \<open>Fault\<close> stands for \<open>SIGABRT\<close> and for an access outside of
  an object.  The lemmas give the invariant, that every operation keeps it, and that an object
  whose owner stayed within it is taken back and handed out again.
\<close>

subsection \<open>State and operations\<close>

text \<open>
  \<open>cache_ptr\<close> holds the used part \<open>ptr[0..freecurr)\<close> of the free array, whose memory has
  \<open>ptr_bytes\<close> bytes; eight bytes hold one pointer.  The constructor of the application returns
  the initialised object and its result.
\<close>

record cache_t =
  cache_name :: bytes
  cache_ptr :: "bytes list"
  ptr_bytes :: nat
  bufsize :: nat
  freetotal :: nat
  constructor :: "(bytes \<Rightarrow> bytes \<times> int) option"

text \<open>What happens to a buffer the cache gives up.\<close>

datatype cache_event = Destroyed bytes | Freed bytes

definition redzone_pattern :: u64 where "redzone_pattern = 0xdeadbeefcafebabe"

definition initial_pool_size :: nat where "initial_pool_size = 64"

definition redzone :: bytes where "redzone = le_store 8 redzone_pattern"

text \<open>
  The three \<open>calloc\<close> calls of \<open>cache_create\<close> succeed or not; the name is copied before its copy is
  tested.  \<open>pthread_mutex_init\<close> returns an error number, never \<open>-1\<close>.
\<close>

definition cache_create ::
  "bool \<Rightarrow> bool \<times> bool \<times> bool \<Rightarrow> bytes \<Rightarrow> nat \<Rightarrow> (bytes \<Rightarrow> bytes \<times> int) option \<Rightarrow> cache_t option outcome" where
  "cache_create ndebug callocs name bsize ctor =
     (let (ret_ok, nm_ok, ptr_ok) = callocs
      in if \<not> nm_ok \<and> name \<noteq> [] then Fault
         else if \<not> ret_ok \<or> \<not> nm_ok \<or> \<not> ptr_ok then Done None
         else Done (Some \<lparr>cache_name = name, cache_ptr = [], ptr_bytes = initial_pool_size * bsize,
                bufsize = (if ndebug then bsize else bsize + 2 * 8), freetotal = initial_pool_size,
                constructor = ctor\<rparr>))"

text \<open>The object of a buffer, and a buffer with its object replaced.\<close>

definition get_object :: "bool \<Rightarrow> bytes \<Rightarrow> bytes" where
  "get_object ndebug raw = (if ndebug then raw else take (length raw - 16) (drop 8 raw))"

definition put_object :: "bool \<Rightarrow> bytes \<Rightarrow> bytes \<Rightarrow> bytes" where
  "put_object ndebug raw obj = (if ndebug then obj else take 8 raw @ obj @ drop (length raw - 8) raw)"

fun destroy_events :: "bool \<Rightarrow> bool \<Rightarrow> bytes list \<Rightarrow> cache_event list" where
  "destroy_events ndebug destructor [] = []"
| "destroy_events ndebug destructor (raw # rest) =
     (if destructor then [Destroyed (get_object ndebug raw)] else []) @ [Freed raw] @
     destroy_events ndebug destructor rest"

definition cache_destroy :: "bool \<Rightarrow> bool \<Rightarrow> cache_t \<Rightarrow> cache_event list" where
  "cache_destroy ndebug destructor cache = destroy_events ndebug destructor (rev (cache_ptr cache))"

definition set_redzones :: "bool \<Rightarrow> cache_t \<Rightarrow> bytes \<Rightarrow> bytes" where
  "set_redzones ndebug cache raw =
     (if ndebug then raw
      else memcpy_at (memcpy_at raw 0 redzone 8) (8 + bufsize cache - 16) redzone 8)"

definition cache_alloc :: "bool \<Rightarrow> heap \<Rightarrow> cache_t \<Rightarrow> bytes option \<times> cache_t" where
  "cache_alloc ndebug heap cache =
     (if cache_ptr cache \<noteq> [] then
        (Some (set_redzones ndebug cache (last (cache_ptr cache))), cache\<lparr>cache_ptr := butlast (cache_ptr cache)\<rparr>)
      else
        (case heap (bufsize cache) of
           None \<Rightarrow> (None, cache)
         | Some raw \<Rightarrow>
             (case constructor cache of
                None \<Rightarrow> (Some (set_redzones ndebug cache raw), cache)
              | Some ctor \<Rightarrow>
                  (let (obj, rc) = ctor (get_object ndebug raw)
                   in if rc \<noteq> 0 then (None, cache)
                      else (Some (set_redzones ndebug cache (put_object ndebug raw obj)), cache)))))"

definition redzones_intact :: "bool \<Rightarrow> cache_t \<Rightarrow> bytes \<Rightarrow> bool" where
  "redzones_intact ndebug cache raw \<longleftrightarrow>
     ndebug \<or> (segment (8 + bufsize cache - 16) 8 raw = redzone \<and> segment 0 8 raw = redzone)"

text \<open>Storing a pointer in the free array.\<close>

definition push_free :: "bytes \<Rightarrow> cache_t \<Rightarrow> cache_t outcome" where
  "push_free raw cache =
     (if 8 * (length (cache_ptr cache) + 1) \<le> ptr_bytes cache
      then Done (cache\<lparr>cache_ptr := cache_ptr cache @ [raw]\<rparr>) else Fault)"

text \<open>
  Without \<open>NDEBUG\<close> the buffer pointer \<open>pre\<close> itself is passed to the destructor here, not the object.
\<close>

definition cache_free :: "bool \<Rightarrow> bool \<Rightarrow> heap \<Rightarrow> bytes \<Rightarrow> cache_t \<Rightarrow> (cache_event list \<times> cache_t) outcome" where
  "cache_free ndebug destructor heap raw cache =
     (if \<not> redzones_intact ndebug cache raw then Fault
      else if length (cache_ptr cache) < freetotal cache then
        obind (push_free raw cache) (\<lambda>c. Done ([], c))
      else
        (let newtotal = freetotal cache * 2
         in if heap (8 * newtotal) \<noteq> None then
              obind (push_free raw (cache\<lparr>freetotal := newtotal, ptr_bytes := 8 * newtotal\<rparr>)) (\<lambda>c. Done ([], c))
            else Done ((if destructor then [Destroyed raw] else []) @ [Freed raw], cache)))"


subsection \<open>The invariant\<close>

definition cache_ok :: "bool \<Rightarrow> cache_t \<Rightarrow> bool" where
  "cache_ok ndebug cache \<longleftrightarrow>
     0 < freetotal cache \<and> length (cache_ptr cache) \<le> freetotal cache \<and>
     8 * freetotal cache \<le> ptr_bytes cache \<and> (\<forall>raw \<in> set (cache_ptr cache). length raw = bufsize cache) \<and>
     (ndebug \<or> 16 \<le> bufsize cache) \<and>
     (\<forall>ctor obj. constructor cache = Some ctor \<longrightarrow> length (fst (ctor obj)) = length obj)"

lemma length_redzone [simp]: "length redzone = 8"
  by (simp add: redzone_def)

lemma cache_create_ok:
  assumes "cache_create ndebug callocs name bsize ctor = Done (Some cache)" and "8 \<le> bsize"
    and "\<forall>f obj. ctor = Some f \<longrightarrow> length (fst (f obj)) = length obj"
  shows "cache_ok ndebug cache" and "cache_ptr cache = []"
    and "bufsize cache = (if ndebug then bsize else bsize + 16)"
  using assms
  by (auto simp: cache_create_def cache_ok_def initial_pool_size_def split: prod.splits if_splits)

lemma length_set_redzones:
  "cache_ok ndebug cache \<Longrightarrow> length raw = bufsize cache \<Longrightarrow> length (set_redzones ndebug cache raw) = bufsize cache"
  by (auto simp: set_redzones_def cache_ok_def)

lemma redzones_intact_set_redzones:
  assumes "cache_ok ndebug cache" and "length raw = bufsize cache"
  shows "redzones_intact ndebug cache (set_redzones ndebug cache raw)"
  using assms
  by (auto simp: redzones_intact_def set_redzones_def cache_ok_def memcpy_at_def segment_def)

lemma length_put_object:
  "ndebug \<or> 16 \<le> length raw \<Longrightarrow> length obj = length (get_object ndebug raw) \<Longrightarrow>
     length (put_object ndebug raw obj) = length raw"
  by (auto simp: put_object_def get_object_def)

lemma cache_alloc_spec:
  assumes ok: "cache_ok ndebug cache" and heap: "heap_ok heap"
    and alloc: "cache_alloc ndebug heap cache = (r, cache')"
  shows "cache_ok ndebug cache'" and "bufsize cache' = bufsize cache"
    and "r = Some raw \<Longrightarrow> length raw = bufsize cache \<and> redzones_intact ndebug cache raw"
proof -
  have len: "length raw = bufsize cache" if "heap (bufsize cache) = Some raw" for raw
    using heap that by (simp add: heap_ok_def)
  have free: "length raw = bufsize cache" if "raw \<in> set (cache_ptr cache)" for raw
    using ok that by (simp add: cache_ok_def)
  have ctor: "length (put_object ndebug raw (fst (c (get_object ndebug raw)))) = bufsize cache"
    if "heap (bufsize cache) = Some raw" "constructor cache = Some c" for raw c
    using ok that len [OF that(1)] by (subst length_put_object) (auto simp: cache_ok_def)
  from alloc ok show "cache_ok ndebug cache'" "bufsize cache' = bufsize cache"
    by (auto simp: cache_alloc_def cache_ok_def Let_def intro!: free in_set_butlastD split: if_splits option.splits prod.splits)
  show "length raw = bufsize cache \<and> redzones_intact ndebug cache raw" if "r = Some raw"
    using alloc that len free ctor ok
    by (fastforce simp: cache_alloc_def Let_def length_set_redzones redzones_intact_set_redzones
      split: if_splits option.splits prod.splits)
qed

lemma cache_free_spec:
  assumes ok: "cache_ok ndebug cache" and raw: "length raw = bufsize cache"
    and zones: "redzones_intact ndebug cache raw"
  shows "\<exists>ev cache'. cache_free ndebug destructor heap raw cache = Done (ev, cache') \<and>
    cache_ok ndebug cache' \<and> bufsize cache' = bufsize cache \<and>
    (if ev = [] then cache_ptr cache' = cache_ptr cache @ [raw] else cache' = cache)"
  using assms by (auto simp: cache_free_def push_free_def cache_ok_def Let_def)

lemma redzones_intact_put_object:
  assumes "redzones_intact ndebug cache raw" and "length raw = bufsize cache" and "ndebug \<or> 16 \<le> bufsize cache"
    and "length obj = length (get_object ndebug raw)"
  shows "redzones_intact ndebug cache (put_object ndebug raw obj)"
  using assms by (auto simp: redzones_intact_def put_object_def get_object_def segment_def)

lemma set_redzones_id:
  assumes "redzones_intact ndebug cache raw" and "length raw = bufsize cache" and "ndebug \<or> 16 \<le> bufsize cache"
  shows "set_redzones ndebug cache raw = raw"
proof (cases ndebug)
  case False
  define n where "n = bufsize cache - 8"
  with False assms have zones: "take 8 (drop n raw) = redzone" "take 8 raw = redzone" "8 \<le> n" "length raw = n + 8"
    by (simp_all add: redzones_intact_def segment_def)
  then have "drop n raw = redzone" by simp
  moreover have "memcpy_at raw 0 redzone 8 = raw"
    using zones by (simp add: memcpy_at_def) (metis append_take_drop_id)
  ultimately have "set_redzones ndebug cache raw = take n raw @ drop n raw"
    using False zones n_def by (simp add: set_redzones_def memcpy_at_def)
  then show ?thesis by simp
qed (simp add: set_redzones_def)

text \<open>
  An object of the cache survives the round trip of \<open>cache_free\<close> and \<open>cache_alloc\<close>.  Take any
  object \<open>cache_alloc\<close> returns, let its owner overwrite the object but not the red zones around it,
  and give it back while the free array has room or can be enlarged: no check of \<open>cache_free\<close>
  fails, the invariant holds, and the next \<open>cache_alloc\<close> returns the object as it was given back,
  leaving the free objects below it alone.
\<close>

lemma cache_free_alloc:
  assumes ok: "cache_ok ndebug cache" and heap: "heap_ok heap"
    and alloc: "cache_alloc ndebug heap cache = (Some raw, cache1)"
    and obj: "length obj = length (get_object ndebug raw)"
    and room: "length (cache_ptr cache1) < freetotal cache1 \<or> heap' (16 * freetotal cache1) \<noteq> None"
  shows "\<exists>cache2. cache_free ndebug destructor heap' (put_object ndebug raw obj) cache1 = Done ([], cache2) \<and>
    cache_ok ndebug cache2 \<and>
    cache_alloc ndebug heap'' cache2 = (Some (put_object ndebug raw obj), cache2\<lparr>cache_ptr := cache_ptr cache1\<rparr>)"
proof -
  let ?raw = "put_object ndebug raw obj"
  have ok1: "cache_ok ndebug cache1" and size1: "bufsize cache1 = bufsize cache"
    using cache_alloc_spec(1,2) [OF ok heap alloc] by simp_all
  have raw: "length raw = bufsize cache1" "redzones_intact ndebug cache1 raw"
    using cache_alloc_spec(3) [OF ok heap alloc] size1 by (simp_all add: redzones_intact_def)
  have big: "ndebug \<or> 16 \<le> bufsize cache1" using ok1 by (simp add: cache_ok_def)
  have put: "length ?raw = bufsize cache1" "redzones_intact ndebug cache1 ?raw"
    using raw big obj by (simp_all add: length_put_object redzones_intact_put_object)
  obtain ev cache2 where free: "cache_free ndebug destructor heap' ?raw cache1 = Done (ev, cache2)"
    and ok2: "cache_ok ndebug cache2" and size2: "bufsize cache2 = bufsize cache1"
    and ptr: "ev = [] \<Longrightarrow> cache_ptr cache2 = cache_ptr cache1 @ [?raw]"
    using cache_free_spec [OF ok1 put, of destructor heap'] by (auto split: if_splits)
  have ev: "ev = []"
    using free room put by (auto simp: cache_free_def push_free_def Let_def split: if_splits)
  have "set_redzones ndebug cache2 ?raw = ?raw"
    using put big size2 by (intro set_redzones_id) (simp_all add: redzones_intact_def)
  with ev ptr have "cache_alloc ndebug heap'' cache2 = (Some ?raw, cache2\<lparr>cache_ptr := cache_ptr cache1\<rparr>)"
    by (simp add: cache_alloc_def)
  with free ev ok2 show ?thesis by simp
qed

definition sample_cache :: cache_t where
  "sample_cache = \<lparr>cache_name = [], cache_ptr = [], ptr_bytes = 512, bufsize = 24, freetotal = 64, constructor = None\<rparr>"

end
