(* ===== verification/Protocol_Output.thy ===== *)
theory Protocol_Output
  imports Object_Cache
begin

text \<open>
  The client state of \<open>libmemcachedprotocol/common.h\<close> and the output side of
  \<open>libmemcachedprotocol/handler.c\<close>: the queue of chunks, \<open>spool_output\<close> that fills it and
  \<open>drain_output\<close> that sends it.  System calls follow a script: the list of results the next calls
  return; a script that has run out answers that the call would block, and an allocation then
  fails.  Each cache operation gets the allocator for its one possible allocation.

  The lemmas show that draining never loses, repeats or reorders a byte, that spooling appends
  when the data fits in the current chunk, and what spooling does when it does not.
\<close>

subsection \<open>State\<close>


definition CHUNK_BUFFERSIZE :: nat where "CHUNK_BUFFERSIZE = 2048"

text \<open>
  A chunk is an object of the buffer cache: the red zone and the \<open>struct\<close> itself (\<open>chunk_pre\<close>), the
  data area and the closing red zone (\<open>chunk_post\<close>).
\<close>

record chunk_st =
  chunk_pre :: bytes
  chunk_data :: bytes
  chunk_post :: bytes
  chunk_offset :: nat
  chunk_nbytes :: nat
  chunk_size :: nat

datatype ascii_cmd =
    GET_CMD | GETS_CMD | SET_CMD | ADD_CMD | REPLACE_CMD | CAS_CMD | APPEND_CMD | PREPEND_CMD
  | DELETE_CMD | INCR_CMD | DECR_CMD | STATS_CMD | FLUSH_ALL_CMD | VERSION_CMD | QUIT_CMD
  | VERBOSITY_CMD | UNKNOWN_CMD

text \<open>The function a client's \<open>work\<close> pointer points to.\<close>

datatype process_data = Determine_protocol | Binary_process_data | Ascii_process_data

text \<open>Results of \<open>send\<close> and \<open>recv\<close>: \<open>-1\<close> with an error number, or the bytes moved.\<close>

datatype send_result = Send_error int | Sent nat

datatype recv_result = Recv_error int | Received bytes

text \<open>
  \<open>memcached_protocol_client_st\<close> (fields \<open>cl_\<close>) with the instance it belongs to
  (\<open>memcached_protocol_st\<close>, fields \<open>rt_\<close>) and the system (fields \<open>io_\<close>): the scripts, and the bytes
  the socket has accepted so far.
\<close>

record client =
  cl_verbose :: bool
  cl_error :: int
  cl_output :: "chunk_st list"
  cl_saved :: bytes
  cl_work :: process_data
  cl_mute :: bool
  cl_command :: protocol_binary_request_header
  cl_ascii :: ascii_cmd
  rt_ndebug :: bool
  rt_pedantic :: bool
  rt_input :: bytes
  rt_cache :: cache_t
  io_sends :: "send_result list"
  io_recvs :: "recv_result list"
  io_mallocs :: "heap list"
  io_sent :: bytes


subsection \<open>System calls\<close>

definition next_heap :: "client \<Rightarrow> heap" where
  "next_heap c = (case io_mallocs c of [] \<Rightarrow> (\<lambda>_. None) | h # _ \<Rightarrow> h)"

definition sock_send :: "bytes \<Rightarrow> client \<Rightarrow> send_result \<times> client" where
  "sock_send buf c =
     (case io_sends c of
        [] \<Rightarrow> (Send_error EWOULDBLOCK, c)
      | Send_error e # rest \<Rightarrow> (Send_error e, c\<lparr>io_sends := rest\<rparr>)
      | Sent n # rest \<Rightarrow>
          (let m = min n (length buf)
           in (Sent m, c\<lparr>io_sends := rest, io_sent := io_sent c @ take m buf\<rparr>)))"

definition chunk_raw :: "chunk_st \<Rightarrow> bytes" where
  "chunk_raw k = chunk_pre k @ chunk_data k @ chunk_post k"

definition release_chunk :: "chunk_st \<Rightarrow> client \<Rightarrow> client outcome" where
  "release_chunk k c =
     obind (cache_free (rt_ndebug c) False (next_heap c) (chunk_raw k) (rt_cache c))
       (\<lambda>(_, cache). Done (c\<lparr>rt_cache := cache, io_mallocs := tl (io_mallocs c)\<rparr>))"


subsection \<open>\<open>drain_output\<close>\<close>

lemma release_chunk_sends: "release_chunk k c = Done c' \<Longrightarrow> io_sends c' = io_sends c"
  by (auto simp: release_chunk_def obind_Done_iff split: prod.splits)

lemma sock_send_sends:
  "sock_send buf c = (Sent n, c') \<Longrightarrow> length (io_sends c') < length (io_sends c)"
  "sock_send buf c = (Send_error e, c') \<Longrightarrow> e \<noteq> EWOULDBLOCK \<Longrightarrow> length (io_sends c') < length (io_sends c)"
  by (auto simp: sock_send_def Let_def split: list.splits send_result.splits)

function drain_output :: "client \<Rightarrow> (bool \<times> client) outcome" where
  "drain_output c =
     (case cl_output c of
        [] \<Rightarrow> Done (True, c)
      | k # rest \<Rightarrow>
          (case sock_send (segment (chunk_offset k) (chunk_nbytes k - chunk_offset k) (chunk_data k)) c of
             (Send_error e, c1) \<Rightarrow>
               if e = EWOULDBLOCK then Done (True, c1)
               else if e \<noteq> EINTR then Done (False, c1\<lparr>cl_error := e\<rparr>)
               else drain_output c1
           | (Sent len, c1) \<Rightarrow>
               (let k1 = k\<lparr>chunk_offset := chunk_offset k + len\<rparr>
                in if chunk_offset k1 = chunk_nbytes k1
                   then obind (release_chunk k1 (c1\<lparr>cl_output := rest\<rparr>)) drain_output
                   else drain_output (c1\<lparr>cl_output := k1 # rest\<rparr>))))"
  by pat_completeness auto

termination
  by (relation "measure (\<lambda>c. length (io_sends c))")
    (auto simp: EINTR_def EWOULDBLOCK_def dest!: sock_send_sends [OF sym] release_chunk_sends)

declare drain_output.simps [simp del]


subsection \<open>\<open>spool_output\<close>\<close>

definition chunk_prefix_size :: "client \<Rightarrow> nat" where
  "chunk_prefix_size c = (if rt_ndebug c then 40 else 8 + 40)"

text \<open>The new chunk is the last of the queue; the flag says whether there is one.\<close>

definition allocate_output_chunk :: "client \<Rightarrow> bool \<times> client" where
  "allocate_output_chunk c =
     (case cache_alloc (rt_ndebug c) (next_heap c) (rt_cache c) of
        (None, cache) \<Rightarrow> (False, c\<lparr>rt_cache := cache, io_mallocs := tl (io_mallocs c)\<rparr>)
      | (Some raw, cache) \<Rightarrow>
          (let p = chunk_prefix_size c;
               ret = \<lparr>chunk_pre = take p raw, chunk_data = segment p CHUNK_BUFFERSIZE raw,
                      chunk_post = drop (p + CHUNK_BUFFERSIZE) raw,
                      chunk_offset = 0, chunk_nbytes = 0, chunk_size = CHUNK_BUFFERSIZE\<rparr>
           in (True, c\<lparr>cl_output := cl_output c @ [ret], rt_cache := cache, io_mallocs := tl (io_mallocs c)\<rparr>)))"

definition chunk_room :: "chunk_st \<Rightarrow> nat" where
  "chunk_room k = chunk_size k - chunk_nbytes k"

text \<open>The body of the loop after a chunk with room has been found: \<open>bulk\<close> bytes go to chunk \<open>i\<close>.\<close>

definition spool_copy :: "bytes \<Rightarrow> nat \<Rightarrow> nat \<Rightarrow> client \<Rightarrow> client outcome" where
  "spool_copy data bulk i c =
     (let k = cl_output c ! i
      in if chunk_nbytes k + bulk \<le> length (chunk_data k)
         then Done (c\<lparr>cl_output := (cl_output c)[i :=
                k\<lparr>chunk_data := memcpy_at (chunk_data k) (chunk_nbytes k) data bulk,
                  chunk_nbytes := chunk_nbytes k + bulk\<rparr>]\<rparr>)
         else Fault)"

lemma allocate_output_chunk_room:
  "allocate_output_chunk c = (True, c') \<Longrightarrow> chunk_room (cl_output c' ! length (cl_output c)) = CHUNK_BUFFERSIZE"
  by (auto simp: allocate_output_chunk_def chunk_room_def Let_def split: prod.splits option.splits)

function spool_loop :: "bytes \<Rightarrow> nat \<Rightarrow> nat option \<Rightarrow> client \<Rightarrow> (protocol_binary_response_status \<times> client) outcome" where
  "spool_loop data offset chunk c =
     (if offset < length data then
        (case (case chunk of
                 None \<Rightarrow> apfst (\<lambda>ok. if ok then Some (length (cl_output c)) else None) (allocate_output_chunk c)
               | Some i \<Rightarrow>
                   if chunk_room (cl_output c ! i) = 0
                   then apfst (\<lambda>ok. if ok then Some (length (cl_output c)) else None) (allocate_output_chunk c)
                   else (Some i, c)) of
           (None, c1) \<Rightarrow> Done (PROTOCOL_BINARY_RESPONSE_ENOMEM, c1)
         | (Some i, c1) \<Rightarrow>
             (let bulk = min (length data - offset) (chunk_room (cl_output c1 ! i))
              in obind (spool_copy data bulk i c1) (spool_loop data (offset + bulk) (Some i))))
      else Done (PROTOCOL_BINARY_RESPONSE_SUCCESS, c))"
  by pat_completeness auto

termination
  by (relation "measure (\<lambda>(data, offset, _, _). length data - offset)")
    (auto simp: CHUNK_BUFFERSIZE_def apfst_def map_prod_def
      dest!: allocate_output_chunk_room split: option.splits if_splits prod.splits)

declare spool_loop.simps [simp del]

definition spool_output :: "bytes \<Rightarrow> client \<Rightarrow> (protocol_binary_response_status \<times> client) outcome" where
  "spool_output data c =
     (if cl_mute c then Done (PROTOCOL_BINARY_RESPONSE_SUCCESS, c)
      else spool_loop data 0 (if cl_output c = [] then None else Some 0) c)"


subsection \<open>The invariant of a client\<close>

definition pending :: "chunk_st \<Rightarrow> bytes" where
  "pending k = segment (chunk_offset k) (chunk_nbytes k - chunk_offset k) (chunk_data k)"

definition queue_bytes :: "client \<Rightarrow> bytes" where
  "queue_bytes c = concat (map pending (cl_output c))"

text \<open>Everything handed to the output so far: what the socket has taken and what waits.\<close>

definition stream :: "client \<Rightarrow> bytes" where
  "stream c = io_sent c @ queue_bytes c"

definition chunk_ok :: "bool \<Rightarrow> chunk_st \<Rightarrow> bool" where
  "chunk_ok ndebug k \<longleftrightarrow>
     chunk_offset k \<le> chunk_nbytes k \<and> chunk_nbytes k \<le> chunk_size k \<and>
     chunk_size k = CHUNK_BUFFERSIZE \<and> length (chunk_data k) = CHUNK_BUFFERSIZE \<and>
     (if ndebug then length (chunk_pre k) = 40 \<and> chunk_post k = []
      else length (chunk_pre k) = 48 \<and> take 8 (chunk_pre k) = redzone \<and> chunk_post k = redzone)"

definition client_ok :: "client \<Rightarrow> bool" where
  "client_ok c \<longleftrightarrow>
     cache_ok (rt_ndebug c) (rt_cache c) \<and>
     bufsize (rt_cache c) = CHUNK_BUFFERSIZE + 40 + (if rt_ndebug c then 0 else 16) \<and>
     constructor (rt_cache c) = None \<and>
     (\<forall>h \<in> set (io_mallocs c). heap_ok h) \<and> (\<forall>k \<in> set (cl_output c). chunk_ok (rt_ndebug c) k)"

text \<open>What output operations leave alone.\<close>

definition frame :: "client \<Rightarrow> _" where
  "frame c = (cl_verbose c, cl_saved c, cl_work c, cl_mute c, cl_command c, cl_ascii c,
     rt_ndebug c, rt_pedantic c, rt_input c, io_recvs c)"

lemma frame_update [simp]:
  "frame (c\<lparr>cl_output := k\<rparr>) = frame c" "frame (c\<lparr>cl_error := e\<rparr>) = frame c"
  "frame (c\<lparr>rt_cache := x\<rparr>) = frame c" "frame (c\<lparr>io_sends := s\<rparr>) = frame c"
  "frame (c\<lparr>io_mallocs := m\<rparr>) = frame c" "frame (c\<lparr>io_sent := t\<rparr>) = frame c"
  by (simp_all add: frame_def)

lemma frameD:
  "frame c' = frame c \<Longrightarrow> cl_mute c' = cl_mute c" "frame c' = frame c \<Longrightarrow> rt_ndebug c' = rt_ndebug c"
  "frame c' = frame c \<Longrightarrow> rt_pedantic c' = rt_pedantic c" "frame c' = frame c \<Longrightarrow> cl_command c' = cl_command c"
  "frame c' = frame c \<Longrightarrow> rt_input c' = rt_input c"
  by (simp_all add: frame_def)

lemma chunk_raw_ok:
  assumes "chunk_ok (rt_ndebug c) k" and "client_ok c"
  shows "length (chunk_raw k) = bufsize (rt_cache c)"
    and "redzones_intact (rt_ndebug c) (rt_cache c) (chunk_raw k)"
  using assms
  by (auto simp: chunk_ok_def client_ok_def chunk_raw_def redzones_intact_def segment_def CHUNK_BUFFERSIZE_def)

lemma heap_ok_next_heap: "client_ok c \<Longrightarrow> heap_ok (next_heap c)"
  by (cases "io_mallocs c") (simp_all add: client_ok_def next_heap_def heap_ok_def)

lemma segment_split:
  assumes "n \<le> m"
  shows "segment off m xs = take n (segment off m xs) @ segment (off + n) (m - n) xs"
proof -
  have "take n (segment off m xs) = take n (drop off xs)"
    using assms by (simp add: segment_def min_absorb1)
  then show ?thesis
    using assms take_add [of n "m - n" "drop off xs"] by (simp only: segment_def) (simp add: add.commute)
qed

lemma in_set_tlD: "x \<in> set (tl xs) \<Longrightarrow> x \<in> set xs"
  by (cases xs) simp_all

lemma release_chunk_spec:
  assumes ok: "client_ok c" and k: "chunk_ok (rt_ndebug c) k"
  shows "\<exists>c'. release_chunk k c = Done c' \<and> client_ok c' \<and> frame c' = frame c \<and> cl_output c' = cl_output c \<and>
    io_sent c' = io_sent c \<and> io_sends c' = io_sends c"
proof -
  from ok have cache: "cache_ok (rt_ndebug c) (rt_cache c)" by (simp add: client_ok_def)
  obtain ev cache' where free: "cache_free (rt_ndebug c) False (next_heap c) (chunk_raw k) (rt_cache c) = Done (ev, cache')"
    and cache': "cache_ok (rt_ndebug c) cache'" "bufsize cache' = bufsize (rt_cache c)"
    using cache_free_spec [OF cache chunk_raw_ok [OF k ok], of False "next_heap c"] by auto
  have "constructor cache' = constructor (rt_cache c)"
    using free by (auto simp: cache_free_def push_free_def Let_def obind_Done_iff split: if_splits)
  with ok free cache' show ?thesis
    by (auto simp: release_chunk_def client_ok_def dest: in_set_tlD)
qed

lemma sock_send_spec:
  assumes "sock_send buf c = (r, c')"
  shows "frame c' = frame c" "cl_output c' = cl_output c" "client_ok c \<Longrightarrow> client_ok c'"
    and "r = Sent n \<Longrightarrow> n \<le> length buf \<and> io_sent c' = io_sent c @ take n buf"
    and "r = Send_error e \<Longrightarrow> io_sent c' = io_sent c"
  using assms
  by (auto simp: sock_send_def Let_def client_ok_def split: list.splits send_result.splits)


subsection \<open>Draining\<close>

lemma drain_output_spec:
  assumes "client_ok c"
  shows "\<exists>ok c'. drain_output c = Done (ok, c') \<and> client_ok c' \<and> frame c' = frame c \<and> stream c' = stream c"
  using assms
proof (induction c rule: drain_output.induct)
  case (1 c)
  show ?case
  proof (cases "cl_output c")
    case Nil
    with 1 show ?thesis by (subst drain_output.simps) auto
  next
    case (Cons k rest)
    let ?buf = "segment (chunk_offset k) (chunk_nbytes k - chunk_offset k) (chunk_data k)"
    obtain r c1 where send: "sock_send ?buf c = (r, c1)" by fastforce
    note s = sock_send_spec [OF send]
    have k: "chunk_ok (rt_ndebug c) k" and rest: "\<forall>x \<in> set rest. chunk_ok (rt_ndebug c) x"
      using 1 Cons by (simp_all add: client_ok_def)
    show ?thesis
    proof (cases r)
      case (Send_error e)
      then have st: "stream c1 = stream c" using s by (simp add: stream_def queue_bytes_def)
      show ?thesis
      proof (cases "e = EINTR")
        case True
        with Send_error send 1(1) [OF Cons, of r c1 e] s 1(4) Cons st show ?thesis
          by (subst drain_output.simps) (simp add: EINTR_def EWOULDBLOCK_def)
      next
        case False
        with Send_error send Cons s 1(4) st show ?thesis
          by (subst drain_output.simps) (auto simp: client_ok_def stream_def queue_bytes_def)
      qed
    next
      case (Sent n)
      define k1 where "k1 = k\<lparr>chunk_offset := chunk_offset k + n\<rparr>"
      have n: "n \<le> length ?buf" and sent: "io_sent c1 = io_sent c @ take n ?buf"
        using s(4) [OF Sent] by simp_all
      have k1: "chunk_ok (rt_ndebug c) k1" and split: "pending k = take n ?buf @ pending k1"
        using n k segment_split [of n "chunk_nbytes k - chunk_offset k"]
        by (auto simp: pending_def k1_def chunk_ok_def length_segment)
      show ?thesis
      proof (cases "chunk_offset k1 = chunk_nbytes k1")
        case True
        let ?c = "c1\<lparr>cl_output := rest\<rparr>"
        have "client_ok ?c" "chunk_ok (rt_ndebug ?c) k1"
          using s rest k1 1(4) frameD(2) [OF s(1)] by (auto simp: client_ok_def)
        then obtain c2 where c2: "release_chunk k1 ?c = Done c2" "client_ok c2" "frame c2 = frame c"
            "cl_output c2 = rest" "io_sent c2 = io_sent c1"
          using release_chunk_spec [of ?c k1] s(1) by auto
        have "pending k1 = []" using True by (simp add: pending_def segment_def)
        with c2 sent split Cons have "stream c2 = stream c" by (simp add: stream_def queue_bytes_def)
        with 1(2) [OF Cons, of r c1 n k1 c2] Sent send c2 True Cons k1_def show ?thesis
          by (subst drain_output.simps) (simp add: Let_def)
      next
        case False
        let ?c = "c1\<lparr>cl_output := k1 # rest\<rparr>"
        have "client_ok ?c" using s rest k1 1(4) frameD(2) [OF s(1)] by (auto simp: client_ok_def)
        moreover have "stream ?c = stream c" using sent split Cons by (simp add: stream_def queue_bytes_def)
        ultimately show ?thesis
          using 1(3) [OF Cons, of r c1 n k1] Sent send False Cons k1_def s(1)
          by (subst drain_output.simps) (simp add: Let_def)
      qed
    qed
  qed
qed


definition accepting :: "send_result \<Rightarrow> bool" where
  "accepting r \<longleftrightarrow> (case r of Sent n \<Rightarrow> 0 < n | Send_error e \<Rightarrow> False)"

definition harmless :: "send_result \<Rightarrow> bool" where
  "harmless r \<longleftrightarrow> accepting r \<or> r = Send_error EINTR"

lemma sock_send_harmless:
  assumes "sock_send buf c = (r, c1)" and "\<forall>x \<in> set (io_sends c). harmless x" and "0 < length (filter accepting (io_sends c))"
  shows "\<forall>x \<in> set (io_sends c1). harmless x"
    and "r = Send_error e \<Longrightarrow> e = EINTR \<and> filter accepting (io_sends c1) = filter accepting (io_sends c)"
    and "r = Sent n \<Longrightarrow> (buf = [] \<or> 0 < n) \<and> length (filter accepting (io_sends c1)) = length (filter accepting (io_sends c)) - 1"
  using assms
  by (auto simp: sock_send_def harmless_def accepting_def Let_def min_def split: list.splits send_result.splits if_splits)

lemma drain_output_empties:
  assumes "client_ok c" and "\<forall>x \<in> set (io_sends c). harmless x"
    and "length (queue_bytes c) + length (cl_output c) \<le> length (filter accepting (io_sends c))"
    and "drain_output c = Done (ok, c')"
  shows "ok \<and> cl_output c' = []"
  using assms
proof (induction c rule: drain_output.induct)
  case (1 c)
  show ?case
  proof (cases "cl_output c")
    case Nil
    with 1(7) show ?thesis by (subst (asm) drain_output.simps) auto
  next
    case (Cons k rest)
    let ?buf = "segment (chunk_offset k) (chunk_nbytes k - chunk_offset k) (chunk_data k)"
    obtain r c1 where send: "sock_send ?buf c = (r, c1)" by fastforce
    note s = sock_send_spec [OF send]
    have pos: "0 < length (filter accepting (io_sends c))"
      using 1(6) Cons by (cases "filter accepting (io_sends c)") simp_all
    note h = sock_send_harmless [OF send 1(5) pos]
    have k: "chunk_ok (rt_ndebug c) k" and rest: "\<forall>x \<in> set rest. chunk_ok (rt_ndebug c) x"
      using 1(4) Cons by (simp_all add: client_ok_def)
    show ?thesis
    proof (cases r)
      case (Send_error e)
      with h(2) have "e = EINTR" and same: "filter accepting (io_sends c1) = filter accepting (io_sends c)" by simp_all
      with Send_error send Cons 1(7) have "drain_output c1 = Done (ok, c')"
        by (subst (asm) drain_output.simps) (simp add: EINTR_def EWOULDBLOCK_def)
      moreover have "length (queue_bytes c1) + length (cl_output c1) \<le> length (filter accepting (io_sends c1))"
        using 1(6) s(2) same by (simp add: queue_bytes_def)
      ultimately show ?thesis
        using 1(1) [OF Cons send [symmetric] Send_error] \<open>e = EINTR\<close> s(3) [OF 1(4)] h(1)
        by (simp add: EINTR_def EWOULDBLOCK_def)
    next
      case (Sent n)
      define k1 where "k1 = k\<lparr>chunk_offset := chunk_offset k + n\<rparr>"
      have n: "n \<le> length ?buf" and less: "?buf = [] \<or> 0 < n"
        and cnt: "length (filter accepting (io_sends c1)) = length (filter accepting (io_sends c)) - 1"
        using s(4) [OF Sent] h(3) [OF Sent] by simp_all
      have k1: "chunk_ok (rt_ndebug c) k1" and split: "pending k = take n ?buf @ pending k1"
        using n k segment_split [of n "chunk_nbytes k - chunk_offset k"]
        by (auto simp: pending_def k1_def chunk_ok_def length_segment)
      have len: "length (pending k) = n + length (pending k1)" using split n by simp
      show ?thesis
      proof (cases "chunk_offset k1 = chunk_nbytes k1")
        case True
        let ?c = "c1\<lparr>cl_output := rest\<rparr>"
        have "client_ok ?c" "chunk_ok (rt_ndebug ?c) k1"
          using s rest k1 1(4) frameD(2) [OF s(1)] by (auto simp: client_ok_def)
        then obtain c2 where c2: "release_chunk k1 ?c = Done c2" "client_ok c2"
            "cl_output c2 = rest" "io_sends c2 = io_sends c1"
          using release_chunk_spec [of ?c k1] by auto
        have "drain_output c2 = Done (ok, c')"
          using 1(7) Sent send c2 True Cons k1_def by (subst (asm) drain_output.simps) (simp add: Let_def)
        moreover have "length (queue_bytes c2) + length (cl_output c2) \<le> length (filter accepting (io_sends c2))"
          using 1(6) Cons c2 cnt len by (simp add: queue_bytes_def)
        ultimately show ?thesis
          using 1(2) [OF Cons send [symmetric] Sent k1_def True] c2 h(1) by simp
      next
        case False
        let ?c = "c1\<lparr>cl_output := k1 # rest\<rparr>"
        have "client_ok ?c" using s rest k1 1(4) frameD(2) [OF s(1)] by (auto simp: client_ok_def)
        moreover have "0 < n"
          using less False k by (auto simp: segment_def k1_def chunk_ok_def)
        moreover have "drain_output ?c = Done (ok, c')"
          using 1(7) Sent send False Cons k1_def by (subst (asm) drain_output.simps) (simp add: Let_def)
        ultimately show ?thesis
          using 1(3) [OF Cons send [symmetric] Sent k1_def False] h(1) 1(6) Cons cnt len by (simp add: queue_bytes_def)
      qed
    qed
  qed
qed

subsection \<open>Spooling\<close>

lemma allocate_output_chunk_spec:
  assumes ok: "client_ok c" and alloc: "allocate_output_chunk c = (r, c')"
  shows "client_ok c'" "frame c' = frame c" "io_sent c' = io_sent c" "io_sends c' = io_sends c"
    and "r \<Longrightarrow> \<exists>k. cl_output c' = cl_output c @ [k] \<and> chunk_offset k = 0 \<and> chunk_nbytes k = 0 \<and>
           chunk_size k = CHUNK_BUFFERSIZE \<and> chunk_ok (rt_ndebug c) k"
    and "\<not> r \<Longrightarrow> cl_output c' = cl_output c"
proof -
  obtain res cache where ca: "cache_alloc (rt_ndebug c) (next_heap c) (rt_cache c) = (res, cache)" by fastforce
  have cache_ok: "cache_ok (rt_ndebug c) (rt_cache c)" using ok by (simp add: client_ok_def)
  note spec = cache_alloc_spec [OF cache_ok heap_ok_next_heap [OF ok] ca]
  have ctor: "constructor cache = None"
    using ca ok by (auto simp: cache_alloc_def client_ok_def Let_def split: if_splits option.splits)
  have size: "bufsize (rt_cache c) = CHUNK_BUFFERSIZE + 40 + (if rt_ndebug c then 0 else 16)"
    using ok by (simp add: client_ok_def)
  have new: "chunk_ok (rt_ndebug c) \<lparr>chunk_pre = take (chunk_prefix_size c) raw,
      chunk_data = segment (chunk_prefix_size c) CHUNK_BUFFERSIZE raw,
      chunk_post = drop (chunk_prefix_size c + CHUNK_BUFFERSIZE) raw,
      chunk_offset = 0, chunk_nbytes = 0, chunk_size = CHUNK_BUFFERSIZE\<rparr>" if "res = Some raw" for raw
    using spec(3) [OF that] size
    by (auto simp: chunk_ok_def chunk_prefix_size_def length_segment redzones_intact_def CHUNK_BUFFERSIZE_def segment_def)
  have mallocs: "\<forall>h \<in> set (tl (io_mallocs c)). heap_ok h" using ok in_set_tlD by (fastforce simp: client_ok_def)
  show "client_ok c'" "frame c' = frame c" "io_sent c' = io_sent c" "io_sends c' = io_sends c"
    using alloc ca spec(1,2) ctor new ok mallocs
    by (auto simp: allocate_output_chunk_def client_ok_def Let_def split: option.splits)
  show "\<exists>k. cl_output c' = cl_output c @ [k] \<and> chunk_offset k = 0 \<and> chunk_nbytes k = 0 \<and>
      chunk_size k = CHUNK_BUFFERSIZE \<and> chunk_ok (rt_ndebug c) k" if r
    using that alloc ca new by (auto simp: allocate_output_chunk_def Let_def split: option.splits)
  show "cl_output c' = cl_output c" if "\<not> r"
    using that alloc ca by (auto simp: allocate_output_chunk_def Let_def split: option.splits)
qed

definition filled :: "chunk_st \<Rightarrow> bytes \<Rightarrow> chunk_st" where
  "filled k d = k\<lparr>chunk_data := memcpy_at (chunk_data k) (chunk_nbytes k) d (length d),
                  chunk_nbytes := chunk_nbytes k + length d\<rparr>"

lemma filled_spec:
  assumes "chunk_ok nd k" and "length d \<le> chunk_room k"
  shows "chunk_ok nd (filled k d)" "pending (filled k d) = pending k @ d" "chunk_room (filled k d) = chunk_room k - length d"
  using assms
  by (auto simp: filled_def chunk_ok_def chunk_room_def pending_def segment_def memcpy_at_def drop_take min_absorb1 min_absorb2)

lemma spool_copy_eq:
  assumes "chunk_ok nd (cl_output c ! i)" and "bulk \<le> chunk_room (cl_output c ! i)" and "bulk \<le> length data"
  shows "spool_copy data bulk i c = Done (c\<lparr>cl_output := (cl_output c)[i := filled (cl_output c ! i) (take bulk data)]\<rparr>)"
  using assms
  by (auto simp: spool_copy_def filled_def chunk_ok_def chunk_room_def Let_def memcpy_at_def min_absorb2)

lemma client_ok_output:
  "client_ok c \<Longrightarrow> \<forall>k \<in> set ks. chunk_ok (rt_ndebug c) k \<Longrightarrow> client_ok (c\<lparr>cl_output := ks\<rparr>)"
  by (simp add: client_ok_def)

lemma client_ok_nth: "client_ok c \<Longrightarrow> i < length (cl_output c) \<Longrightarrow> chunk_ok (rt_ndebug c) (cl_output c ! i)"
  by (simp add: client_ok_def)

lemma client_ok_filled:
  assumes "client_ok c" "i < length (cl_output c)" "length d \<le> chunk_room (cl_output c ! i)"
  shows "client_ok (c\<lparr>cl_output := (cl_output c)[i := filled (cl_output c ! i) d]\<rparr>)"
  using assms client_ok_nth [OF assms(1,2)] filled_spec(1) [of "rt_ndebug c" "cl_output c ! i" d]
  by (intro client_ok_output) (auto simp: client_ok_def dest: set_update_subset_insert [THEN subsetD])

lemma spool_loop_safe:
  assumes "client_ok c" and "case chunk of None \<Rightarrow> True | Some i \<Rightarrow> i < length (cl_output c)"
  shows "\<exists>st c'. spool_loop data off chunk c = Done (st, c') \<and> client_ok c' \<and> frame c' = frame c \<and>
    io_sent c' = io_sent c \<and> io_sends c' = io_sends c \<and>
    st \<in> {PROTOCOL_BINARY_RESPONSE_SUCCESS, PROTOCOL_BINARY_RESPONSE_ENOMEM}"
  using assms
proof (induction data off chunk c rule: spool_loop.induct)
  case (1 data off chunk c)
  show ?case
  proof (cases "off < length data")
    case False
    with 1 show ?thesis by (subst spool_loop.simps) simp
  next
    case True
    let ?sel = "case chunk of
        None \<Rightarrow> apfst (\<lambda>ok. if ok then Some (length (cl_output c)) else None) (allocate_output_chunk c)
      | Some i \<Rightarrow> if chunk_room (cl_output c ! i) = 0
          then apfst (\<lambda>ok. if ok then Some (length (cl_output c)) else None) (allocate_output_chunk c)
          else (Some i, c)"
    obtain r c1 where alloc: "allocate_output_chunk c = (r, c1)" by fastforce
    note a = allocate_output_chunk_spec [OF 1(2) alloc]
    have sel: "client_ok c2 \<and> frame c2 = frame c \<and> io_sent c2 = io_sent c \<and> io_sends c2 = io_sends c \<and>
        (\<forall>i. o1 = Some i \<longrightarrow> i < length (cl_output c2))" if "?sel = (o1, c2)" for o1 c2
      using that alloc a 1(2,3) by (fastforce split: option.splits if_splits)
    obtain o1 c2 where sel2: "?sel = (o1, c2)" by fastforce
    note s = sel [OF sel2]
    show ?thesis
    proof (cases o1)
      case None
      with True sel2 s show ?thesis by (subst spool_loop.simps) simp
    next
      case (Some i)
      define bulk where "bulk = min (length data - off) (chunk_room (cl_output c2 ! i))"
      have i: "i < length (cl_output c2)" using s Some by simp
      have le: "bulk \<le> chunk_room (cl_output c2 ! i)" "bulk \<le> length data" by (simp_all add: bulk_def)
      let ?c3 = "c2\<lparr>cl_output := (cl_output c2)[i := filled (cl_output c2 ! i) (take bulk data)]\<rparr>"
      have copy: "spool_copy data bulk i c2 = Done ?c3"
        using spool_copy_eq [OF client_ok_nth le] s i by simp
      have "client_ok ?c3" using s i le by (intro client_ok_filled) simp_all
      then show ?thesis
        using 1(1) [OF True sel2 [symmetric] Some refl, of ?c3] True sel2 Some copy s i
        by (subst spool_loop.simps) (simp add: bulk_def Let_def)
    qed
  qed
qed

lemma spool_loop_done: "length data \<le> off \<Longrightarrow> spool_loop data off chunk c = Done (PROTOCOL_BINARY_RESPONSE_SUCCESS, c)"
  by (subst spool_loop.simps) simp

lemma spool_loop_chunk:
  assumes ok: "client_ok c" and i: "i < length (cl_output c)" and off: "off < length data"
    and room: "0 < chunk_room (cl_output c ! i)"
  shows "spool_loop data off (Some i) c =
    (let bulk = min (length data - off) (chunk_room (cl_output c ! i))
     in spool_loop data (off + bulk) (Some i)
          (c\<lparr>cl_output := (cl_output c)[i := filled (cl_output c ! i) (take bulk data)]\<rparr>))"
  using off room spool_copy_eq [OF client_ok_nth [OF ok i], of "min (length data - off) (chunk_room (cl_output c ! i))" data]
  by (subst spool_loop.simps) (simp add: Let_def)

lemma spool_loop_allocate:
  assumes "off < length data" and "allocate_output_chunk c = (True, c1)"
    and "chunk = None \<or> (\<exists>i. chunk = Some i \<and> chunk_room (cl_output c ! i) = 0)"
  shows "spool_loop data off chunk c = spool_loop data off (Some (length (cl_output c))) c1"
proof -
  have room: "chunk_room (cl_output c1 ! length (cl_output c)) = CHUNK_BUFFERSIZE"
    using allocate_output_chunk_room [OF assms(2)] .
  show ?thesis
    using assms by (subst (1 2) spool_loop.simps) (auto simp: room CHUNK_BUFFERSIZE_def)
qed

text \<open>The next \<open>n\<close> allocations of the cache will succeed.\<close>

definition heaps_grant :: "nat \<Rightarrow> client \<Rightarrow> bool" where
  "heaps_grant n c \<longleftrightarrow> n \<le> length (io_mallocs c) \<and> (\<forall>h \<in> set (io_mallocs c). h (bufsize (rt_cache c)) \<noteq> None)"

lemma allocate_granted:
  assumes "client_ok c" and "heaps_grant (Suc n) c"
  shows "\<exists>c'. allocate_output_chunk c = (True, c') \<and> heaps_grant n c'"
proof -
  obtain h hs where m: "io_mallocs c = h # hs" and h: "h (bufsize (rt_cache c)) \<noteq> None"
    and hs: "\<forall>x \<in> set hs. x (bufsize (rt_cache c)) \<noteq> None" and n: "n \<le> length hs"
    using assms(2) by (cases "io_mallocs c") (simp_all add: heaps_grant_def)
  obtain res cache where ca: "cache_alloc (rt_ndebug c) (next_heap c) (rt_cache c) = (res, cache)" by fastforce
  have "res \<noteq> None" "bufsize cache = bufsize (rt_cache c)"
    using ca h m assms(1)
    by (auto simp: cache_alloc_def next_heap_def client_ok_def Let_def split: if_splits option.splits)
  with ca hs m n show ?thesis
    by (auto simp: allocate_output_chunk_def heaps_grant_def Let_def split: option.splits)
qed

text \<open>
  The output can take \<open>n\<close> more bytes in order: there is at most one chunk and it has room for them,
  or there is none and one can be allocated.
\<close>

definition spool_ready :: "nat \<Rightarrow> client \<Rightarrow> bool" where
  "spool_ready n c \<longleftrightarrow>
     client_ok c \<and> \<not> cl_mute c \<and>
     (case cl_output c of
        [] \<Rightarrow> n \<le> CHUNK_BUFFERSIZE \<and> heaps_grant 1 c
      | k # rest \<Rightarrow> rest = [] \<and> n \<le> chunk_room k)"

lemma spool_output_ready:
  assumes ready: "spool_ready n c" and d: "length data \<le> n"
  shows "\<exists>c'. spool_output data c = Done (PROTOCOL_BINARY_RESPONSE_SUCCESS, c') \<and> spool_ready (n - length data) c' \<and>
    stream c' = stream c @ data \<and> frame c' = frame c \<and> io_sends c' = io_sends c"
proof (cases "data = []")
  case True
  with ready show ?thesis by (simp add: spool_output_def spool_ready_def spool_loop_done)
next
  case False
  have ok: "client_ok c" and mute: "\<not> cl_mute c" using ready by (simp_all add: spool_ready_def)
  show ?thesis
  proof (cases "cl_output c")
    case (Cons k rest)
    then have rest: "rest = []" and room: "n \<le> chunk_room k" using ready by (simp_all add: spool_ready_def)
    have bulk: "min (length data) (chunk_room k) = length data" using room d by simp
    have "0 < length data" using False by simp
    with room d have pos: "0 < chunk_room k" by linarith
    let ?c = "c\<lparr>cl_output := [filled k data]\<rparr>"
    have k: "chunk_ok (rt_ndebug c) k" using ok Cons by (simp add: client_ok_def)
    note f = filled_spec [OF k, of data]
    have "spool_output data c = Done (PROTOCOL_BINARY_RESPONSE_SUCCESS, ?c)"
      using spool_loop_chunk [OF ok, of 0 0 data] Cons rest False pos mute
      by (auto simp: spool_output_def bulk Let_def spool_loop_done)
    moreover have "client_ok ?c" using ok f room d by (intro client_ok_output) simp_all
    ultimately show ?thesis
      using f room d mute Cons rest by (auto simp: spool_ready_def stream_def queue_bytes_def)
  next
    case Nil
    then have n: "n \<le> CHUNK_BUFFERSIZE" and grant: "heaps_grant 1 c" using ready by (simp_all add: spool_ready_def)
    then obtain c1 where alloc: "allocate_output_chunk c = (True, c1)" using allocate_granted [OF ok, of 0] by auto
    note a = allocate_output_chunk_spec [OF ok alloc]
    obtain k where out: "cl_output c1 = [k]" and k: "chunk_offset k = 0" "chunk_nbytes k = 0"
        "chunk_size k = CHUNK_BUFFERSIZE" "chunk_ok (rt_ndebug c) k"
      using a(5) Nil by auto
    have room: "chunk_room k = CHUNK_BUFFERSIZE" using k by (simp add: chunk_room_def)
    have bulk: "min (length data) (chunk_room k) = length data" using room d n by simp
    let ?c = "c1\<lparr>cl_output := [filled k data]\<rparr>"
    note f = filled_spec [OF k(4), of data]
    have "spool_output data c = Done (PROTOCOL_BINARY_RESPONSE_SUCCESS, ?c)"
      using spool_loop_allocate [OF _ alloc, of 0 data None] spool_loop_chunk [OF a(1), of 0 0 data]
        Nil out False room d n mute bulk
      by (auto simp: spool_output_def Let_def spool_loop_done CHUNK_BUFFERSIZE_def)
    moreover have "client_ok ?c"
      using a(1) f room d n frameD(2) [OF a(2)] by (intro client_ok_output) simp_all
    moreover have "pending k = []" using k by (simp add: pending_def segment_def)
    ultimately show ?thesis
      using f room d n mute frameD(1) [OF a(2)] a Nil
      by (auto simp: spool_ready_def stream_def queue_bytes_def)
  qed
qed


subsection \<open>The interface the protocol handlers use\<close>

text \<open>The chains \<open>(rval = spool(...)) != success || ...\<close> of the handlers.\<close>

fun spool_seq :: "(bytes \<Rightarrow> 's \<Rightarrow> (protocol_binary_response_status \<times> 's) outcome) \<Rightarrow> bytes list \<Rightarrow> 's \<Rightarrow>
    (protocol_binary_response_status \<times> 's) outcome" where
  "spool_seq spool [] s = Done (PROTOCOL_BINARY_RESPONSE_SUCCESS, s)"
| "spool_seq spool (d # ds) s =
     obind (spool d s) (\<lambda>(rval, s'). if rval \<noteq> PROTOCOL_BINARY_RESPONSE_SUCCESS then Done (rval, s') else spool_seq spool ds s')"

locale spooler =
  fixes ready :: "nat \<Rightarrow> 's \<Rightarrow> bool" and out :: "'s \<Rightarrow> bytes" and kept :: "'s \<Rightarrow> 'f"
    and spool :: "bytes \<Rightarrow> 's \<Rightarrow> (protocol_binary_response_status \<times> 's) outcome"
  assumes spool_appends: "ready n s \<Longrightarrow> length d \<le> n \<Longrightarrow>
    \<exists>s'. spool d s = Done (PROTOCOL_BINARY_RESPONSE_SUCCESS, s') \<and> ready (n - length d) s' \<and> out s' = out s @ d \<and> kept s' = kept s"
begin

lemma spool_seq_appends:
  assumes "ready n s" and "length (concat ds) \<le> n"
  shows "\<exists>s'. spool_seq spool ds s = Done (PROTOCOL_BINARY_RESPONSE_SUCCESS, s') \<and> ready (n - length (concat ds)) s' \<and>
    out s' = out s @ concat ds \<and> kept s' = kept s"
  using assms
proof (induction ds arbitrary: n s)
  case (Cons d ds)
  then obtain s1 where s1: "spool d s = Done (PROTOCOL_BINARY_RESPONSE_SUCCESS, s1)" "ready (n - length d) s1"
      "out s1 = out s @ d" "kept s1 = kept s"
    using spool_appends [of n s d] by auto
  with Cons.prems Cons.IH [OF s1(2)] show ?case by (auto simp: diff_diff_left)
qed simp

end

interpretation out: spooler spool_ready stream frame spool_output
  by unfold_locales (drule (1) spool_output_ready, blast)


subsection \<open>Properties of the output queue\<close>

definition sample_client :: client where
  "sample_client =
     \<lparr>cl_verbose = False, cl_error = 0, cl_output = [], cl_saved = [], cl_work = Determine_protocol,
      cl_mute = False, cl_command = load_request [], cl_ascii = GET_CMD, rt_ndebug = True, rt_pedantic = False,
      rt_input = [],
      rt_cache = \<lparr>cache_name = [], cache_ptr = [], ptr_bytes = 133632, bufsize = 2088, freetotal = 64, constructor = None\<rparr>,
      io_sends = [Send_error 4, Sent 2, Sent 100, Sent 7, Sent 7], io_recvs = [],
      io_mallocs = [small_heap, small_heap, small_heap], io_sent = []\<rparr>"

definition sample_chunk :: "bytes \<Rightarrow> chunk_st" where
  "sample_chunk bs =
     \<lparr>chunk_pre = replicate 40 0, chunk_data = bs @ replicate (2048 - length bs) 0, chunk_post = [],
      chunk_offset = 0, chunk_nbytes = length bs, chunk_size = 2048\<rparr>"

lemma sample_client_ok: "client_ok sample_client"
  by (simp add: client_ok_def cache_ok_def sample_client_def CHUNK_BUFFERSIZE_def heap_ok_small_heap)

lemma sample_chunk_ok: "length bs \<le> 2048 \<Longrightarrow> chunk_ok True (sample_chunk bs)" "pending (sample_chunk bs) = bs"
    "chunk_room (sample_chunk bs) = 2048 - length bs"
  by (simp_all add: chunk_ok_def sample_chunk_def CHUNK_BUFFERSIZE_def pending_def segment_def chunk_room_def)

lemma sample_client_queue:
  "\<forall>bs \<in> set bss. length bs \<le> 2048 \<Longrightarrow> client_ok (sample_client\<lparr>cl_output := map sample_chunk bss\<rparr>)"
  "queue_bytes (sample_client\<lparr>cl_output := map sample_chunk bss\<rparr>) = concat bss"
  using client_ok_output [OF sample_client_ok, of "map sample_chunk bss"] sample_chunk_ok(1)
  by (auto simp: sample_client_def queue_bytes_def sample_chunk_ok(2) comp_def)
text \<open>
  C24: \<open>drain_output\<close> reaches an empty queue.  When the socket takes at least one byte in as many
  calls as there are bytes and chunks waiting, and the other calls are only interrupted, the
  whole queue is sent in order: the function returns true, no chunk is left, and the socket has
  received exactly the bytes that were waiting.
\<close>

theorem drain_output_live:
  assumes "client_ok c" and "\<forall>x \<in> set (io_sends c). harmless x"
    and "length (queue_bytes c) + length (cl_output c) \<le> length (filter accepting (io_sends c))"
  shows "\<exists>c'. drain_output c = Done (True, c') \<and> cl_output c' = [] \<and> io_sent c' = io_sent c @ queue_bytes c"
proof -
  obtain ok c' where d: "drain_output c = Done (ok, c')" and st: "stream c' = stream c"
    using drain_output_spec [OF assms(1)] by blast
  have "ok \<and> cl_output c' = []" by (rule drain_output_empties [OF assms d])
  with d st show ?thesis by (auto simp: stream_def queue_bytes_def)
qed

theorem drain_output_live_witness:
  "\<exists>c'. drain_output (sample_client\<lparr>cl_output := map sample_chunk [[1, 2, 3]]\<rparr>) = Done (True, c') \<and>
     cl_output c' = [] \<and> io_sent c' = [1, 2, 3]"
proof -
  let ?c = "sample_client\<lparr>cl_output := map sample_chunk [[1, 2, 3]]\<rparr>"
  have "client_ok ?c" by (rule sample_client_queue) simp
  moreover have "\<forall>x \<in> set (io_sends ?c). harmless x"
    by (simp add: sample_client_def harmless_def accepting_def EINTR_def)
  moreover have "length (queue_bytes ?c) + length (cl_output ?c) \<le> length (filter accepting (io_sends ?c))"
    by (simp only: sample_client_queue(2)) (simp add: sample_client_def accepting_def)
  ultimately show ?thesis
    using drain_output_live [of ?c] sample_client_queue(2) [of "[[1, 2, 3]]"] by (simp add: sample_client_def)
qed

text \<open>
  C7: \<open>drain_output\<close> is safe and loses nothing, whatever the socket does.  From a well-formed
  client it never faults, whichever results the calls to \<open>send\<close> return; the client stays
  well-formed, and the bytes the socket has accepted followed by the bytes still queued are the
  same stream as before: no byte is lost, repeated or reordered.
\<close>

theorem drain_output_keeps_stream:
  assumes "client_ok c"
  shows "\<exists>ok c'. drain_output c = Done (ok, c') \<and> client_ok c' \<and> stream c' = stream c"
  using drain_output_spec [OF assms] by blast

theorem drain_output_keeps_stream_witness:
  "\<exists>ok c'. drain_output (sample_client\<lparr>cl_output := map sample_chunk [[1, 2, 3], [4]]\<rparr>) = Done (ok, c') \<and> stream c' = [1, 2, 3, 4]"
  using drain_output_keeps_stream [OF sample_client_queue(1), of "[[1, 2, 3], [4]]"]
    sample_client_queue(2) [of "[[1, 2, 3], [4]]"]
  by (auto simp: stream_def sample_client_def)

text \<open>
  \<open>spool_output\<close> appends.  When the output queue is empty and a chunk can be allocated, or holds
  one chunk, and the data fits in the room of that chunk, spooling succeeds, the client stays
  well-formed, the stream is the old one followed by the data, and there is as much less room.
\<close>

lemma spool_output_appends:
  assumes "spool_ready n c" and "length data \<le> n"
  shows "\<exists>c'. spool_output data c = Done (PROTOCOL_BINARY_RESPONSE_SUCCESS, c') \<and>
    spool_ready (n - length data) c' \<and> stream c' = stream c @ data"
  using spool_output_ready [OF assms] by blast

text \<open>
  C25: Data that does not fit in one chunk is not spooled correctly: the copy into the next chunk
  starts at the beginning of the data again.  On an empty queue, data longer than one chunk and no
  longer than two leaves in the queue its first 2048 bytes followed by as many of its first bytes
  as were still missing, and the function reports success.
\<close>

theorem spool_output_repeats:
  assumes ok: "client_ok c" and mute: "\<not> cl_mute c" and out: "cl_output c = []" and grant: "heaps_grant 2 c"
    and len: "CHUNK_BUFFERSIZE < length data" "length data \<le> 2 * CHUNK_BUFFERSIZE"
  shows "\<exists>c'. spool_output data c = Done (PROTOCOL_BINARY_RESPONSE_SUCCESS, c') \<and>
    queue_bytes c' = take CHUNK_BUFFERSIZE data @ take (length data - CHUNK_BUFFERSIZE) data"
proof -
  let ?B = CHUNK_BUFFERSIZE and ?rest = "length data - CHUNK_BUFFERSIZE"
  have grant': "heaps_grant (Suc (Suc 0)) c" using grant by (simp add: numeral_2_eq_2)
  obtain c1 where alloc1: "allocate_output_chunk c = (True, c1)" and g1: "heaps_grant (Suc 0) c1"
    using allocate_granted [OF ok grant'] by blast
  note a1 = allocate_output_chunk_spec [OF ok alloc1]
  obtain k1 where out1: "cl_output c1 = [k1]" and k1: "chunk_offset k1 = 0" "chunk_nbytes k1 = 0"
      "chunk_size k1 = ?B" "chunk_ok (rt_ndebug c) k1"
    using a1(5) out by auto
  have room1: "chunk_room k1 = ?B" using k1 by (simp add: chunk_room_def)
  let ?d1 = "take ?B data"
  let ?c2 = "c1\<lparr>cl_output := [filled k1 ?d1]\<rparr>"
  note f1 = filled_spec [OF k1(4), of ?d1]
  have room_f1: "chunk_room (filled k1 ?d1) = 0" using f1(3) room1 len by simp
  have ok2: "client_ok ?c2"
    using a1(1) f1(1) room1 len frameD(2) [OF a1(2)] by (intro client_ok_output) simp_all
  have g2: "heaps_grant (Suc 0) ?c2" using g1 by (simp add: heaps_grant_def)
  obtain c3 where alloc2: "allocate_output_chunk ?c2 = (True, c3)" using allocate_granted [OF ok2 g2] by blast
  note a2 = allocate_output_chunk_spec [OF ok2 alloc2]
  obtain k2 where out2: "cl_output c3 = [filled k1 ?d1, k2]" and k2: "chunk_offset k2 = 0" "chunk_nbytes k2 = 0"
      "chunk_size k2 = ?B" "chunk_ok (rt_ndebug ?c2) k2"
    using a2(5) by auto
  have room2: "chunk_room k2 = ?B" using k2 by (simp add: chunk_room_def)
  let ?d2 = "take ?rest data"
  let ?c4 = "c3\<lparr>cl_output := [filled k1 ?d1, filled k2 ?d2]\<rparr>"
  note f2 = filled_spec [OF k2(4), of ?d2]
  have pos: "0 < ?B" by (simp add: CHUNK_BUFFERSIZE_def)
  with len(1) have "data \<noteq> []" by auto
  then have "spool_loop data 0 None c = spool_loop data 0 (Some 0) c1"
    using spool_loop_allocate [OF _ alloc1, of 0 data None] out len by auto
  also have "\<dots> = spool_loop data ?B (Some 0) ?c2"
    using spool_loop_chunk [OF a1(1), of 0 0 data] out1 room1 len pos \<open>data \<noteq> []\<close> by (simp add: Let_def)
  also have "\<dots> = spool_loop data ?B (Some 1) c3"
    using spool_loop_allocate [OF len(1) alloc2, of "Some 0"] room_f1 by simp
  also have "\<dots> = spool_loop data (length data) (Some 1) ?c4"
    using spool_loop_chunk [OF a2(1) _ len(1), of 1] out2 room2 len pos by (simp add: Let_def)
  finally have "spool_output data c = Done (PROTOCOL_BINARY_RESPONSE_SUCCESS, ?c4)"
    using out mute by (simp add: spool_output_def spool_loop_done)
  moreover have "pending k1 = []" "pending k2 = []" using k1 k2 by (simp_all add: pending_def segment_def)
  ultimately show ?thesis
    using f1(2) f2(2) room1 room2 len by (simp add: queue_bytes_def)
qed

theorem spool_output_repeats_witness:
  "\<exists>c'. spool_output (replicate 2048 1 @ [2, 3]) sample_client = Done (PROTOCOL_BINARY_RESPONSE_SUCCESS, c') \<and>
     queue_bytes c' = replicate 2048 1 @ replicate 2 1"
proof -
  have "heaps_grant 2 sample_client" by (simp add: heaps_grant_def sample_client_def small_heap_def)
  then show ?thesis
    using spool_output_repeats [OF sample_client_ok, of "replicate 2048 1 @ [2, 3]"]
    by (simp add: sample_client_def CHUNK_BUFFERSIZE_def)
qed

text \<open>
  C26: Spooling starts at the first chunk of the queue, not at the last.  With a second chunk behind
  a first one that has room, the new data overtakes what the second chunk holds.
\<close>

theorem spool_output_overtakes:
  assumes ok: "client_ok c" and mute: "\<not> cl_mute c" and out: "cl_output c = [k1, k2]"
    and len: "0 < length data" "length data \<le> chunk_room k1"
  shows "\<exists>c'. spool_output data c = Done (PROTOCOL_BINARY_RESPONSE_SUCCESS, c') \<and>
    queue_bytes c' = pending k1 @ data @ pending k2"
proof -
  have k1: "chunk_ok (rt_ndebug c) k1" using ok out by (simp add: client_ok_def)
  have "spool_output data c = Done (PROTOCOL_BINARY_RESPONSE_SUCCESS, c\<lparr>cl_output := [filled k1 data, k2]\<rparr>)"
    using spool_loop_chunk [OF ok, of 0 0 data] out len mute
    by (simp add: spool_output_def Let_def min_absorb1 spool_loop_done)
  then show ?thesis using filled_spec(2) [OF k1 len(2)] by (simp add: queue_bytes_def)
qed

theorem spool_output_overtakes_witness:
  "\<exists>c'. spool_output [9] (sample_client\<lparr>cl_output := map sample_chunk [[1, 2], [3]]\<rparr>) = Done (PROTOCOL_BINARY_RESPONSE_SUCCESS, c') \<and>
     queue_bytes c' = [1, 2, 9, 3]"
  using spool_output_overtakes [OF sample_client_queue(1), of "[[1, 2], [3]]" "sample_chunk [1, 2]" "sample_chunk [3]" "[9]"]
  by (simp add: sample_chunk_ok sample_client_def)

end
