(* ===== verification/Pedantic.thy ===== *)
theory Pedantic
  imports Protocol_Binary
begin

text \<open>
  The packet checks of \<open>libmemcachedprotocol/pedantic.c\<close>: which request and response headers obey
  the binary protocol.  A \<open>switch\<close> over the opcode is a chain of membership tests; every
  \<open>ensure\<close> is a conjunct.
\<close>

definition is_cmd :: "u8 \<Rightarrow> protocol_binary_command list \<Rightarrow> bool" where
  "is_cmd cc cs \<longleftrightarrow> cc \<in> set (map cmd_code cs)"

definition memcached_binary_protocol_pedantic_check_request :: "protocol_binary_request_header \<Rightarrow> bool" where
  "memcached_binary_protocol_pedantic_check_request request =
     (let opcode = req_opcode request; keylen = ntohs (req_keylen request); extlen = req_extlen request;
          bodylen = ntohl (req_bodylen request)
      in req_magic request = PROTOCOL_BINARY_REQ \<and> req_datatype request = PROTOCOL_BINARY_RAW_BYTES \<and>
         request_bytes request ! 6 = 0 \<and> request_bytes request ! 7 = 0 \<and>
         bodylen \<ge> unsigned keylen + unsigned extlen \<and>
         (if is_cmd opcode [PROTOCOL_BINARY_CMD_GET, PROTOCOL_BINARY_CMD_GETK,
              PROTOCOL_BINARY_CMD_GETKQ, PROTOCOL_BINARY_CMD_GETQ]
          then extlen = 0 \<and> keylen > 0 \<and> unsigned keylen = bodylen \<and> req_cas request = 0
          else if is_cmd opcode [PROTOCOL_BINARY_CMD_ADD, PROTOCOL_BINARY_CMD_ADDQ]
          then req_cas request = 0 \<and> keylen > 0 \<and> extlen = 8
          else if is_cmd opcode [PROTOCOL_BINARY_CMD_SET, PROTOCOL_BINARY_CMD_SETQ,
              PROTOCOL_BINARY_CMD_REPLACE, PROTOCOL_BINARY_CMD_REPLACEQ]
          then keylen > 0 \<and> extlen = 8
          else if is_cmd opcode [PROTOCOL_BINARY_CMD_DELETE, PROTOCOL_BINARY_CMD_DELETEQ]
          then extlen = 0 \<and> keylen > 0 \<and> unsigned keylen = bodylen
          else if is_cmd opcode [PROTOCOL_BINARY_CMD_INCREMENT, PROTOCOL_BINARY_CMD_INCREMENTQ,
              PROTOCOL_BINARY_CMD_DECREMENT, PROTOCOL_BINARY_CMD_DECREMENTQ]
          then extlen = 20 \<and> keylen > 0 \<and> unsigned keylen + unsigned extlen = bodylen
          else if is_cmd opcode [PROTOCOL_BINARY_CMD_QUIT, PROTOCOL_BINARY_CMD_QUITQ,
              PROTOCOL_BINARY_CMD_NOOP, PROTOCOL_BINARY_CMD_VERSION]
          then extlen = 0 \<and> keylen = 0 \<and> bodylen = 0
          else if is_cmd opcode [PROTOCOL_BINARY_CMD_FLUSH, PROTOCOL_BINARY_CMD_FLUSHQ]
          then (extlen = 0 \<or> extlen = 4) \<and> keylen = 0 \<and> bodylen = unsigned extlen
          else if is_cmd opcode [PROTOCOL_BINARY_CMD_STAT]
          then extlen = 0 \<and> unsigned keylen = bodylen
          else if is_cmd opcode [PROTOCOL_BINARY_CMD_APPEND, PROTOCOL_BINARY_CMD_APPENDQ,
              PROTOCOL_BINARY_CMD_PREPEND, PROTOCOL_BINARY_CMD_PREPENDQ]
          then extlen = 0 \<and> keylen > 0
          else True))"

definition memcached_binary_protocol_pedantic_check_response ::
  "protocol_binary_request_header \<Rightarrow> protocol_binary_response_header \<Rightarrow> bool" where
  "memcached_binary_protocol_pedantic_check_response request response =
     (let status = ntohs (res_status response); opcode = res_opcode response
      in res_magic response = PROTOCOL_BINARY_RES \<and> res_datatype response = PROTOCOL_BINARY_RAW_BYTES \<and>
         res_opaque response = req_opaque request \<and>
         (if status = status_code PROTOCOL_BINARY_RESPONSE_SUCCESS then
            \<not> is_cmd opcode [PROTOCOL_BINARY_CMD_ADDQ, PROTOCOL_BINARY_CMD_APPENDQ,
                PROTOCOL_BINARY_CMD_DECREMENTQ, PROTOCOL_BINARY_CMD_DELETEQ, PROTOCOL_BINARY_CMD_FLUSHQ,
                PROTOCOL_BINARY_CMD_INCREMENTQ, PROTOCOL_BINARY_CMD_PREPENDQ, PROTOCOL_BINARY_CMD_QUITQ,
                PROTOCOL_BINARY_CMD_REPLACEQ, PROTOCOL_BINARY_CMD_SETQ] \<and>
            (if is_cmd opcode [PROTOCOL_BINARY_CMD_ADD, PROTOCOL_BINARY_CMD_REPLACE,
                PROTOCOL_BINARY_CMD_SET, PROTOCOL_BINARY_CMD_APPEND, PROTOCOL_BINARY_CMD_PREPEND]
             then res_keylen response = 0 \<and> res_extlen response = 0 \<and> res_bodylen response = 0 \<and>
                  res_cas response \<noteq> 0
             else if is_cmd opcode [PROTOCOL_BINARY_CMD_FLUSH, PROTOCOL_BINARY_CMD_NOOP,
                PROTOCOL_BINARY_CMD_QUIT, PROTOCOL_BINARY_CMD_DELETE]
             then res_keylen response = 0 \<and> res_extlen response = 0 \<and> res_bodylen response = 0 \<and>
                  res_cas response = 0
             else if is_cmd opcode [PROTOCOL_BINARY_CMD_DECREMENT, PROTOCOL_BINARY_CMD_INCREMENT]
             then res_keylen response = 0 \<and> res_extlen response = 0 \<and>
                  ntohl (res_bodylen response) = 8 \<and> res_cas response \<noteq> 0
             else if is_cmd opcode [PROTOCOL_BINARY_CMD_STAT]
             then res_extlen response = 0 \<and> res_cas response = 0
             else if is_cmd opcode [PROTOCOL_BINARY_CMD_VERSION]
             then res_keylen response = 0 \<and> res_extlen response = 0 \<and> res_bodylen response \<noteq> 0 \<and>
                  res_cas response = 0
             else if is_cmd opcode [PROTOCOL_BINARY_CMD_GET, PROTOCOL_BINARY_CMD_GETQ]
             then res_keylen response = 0 \<and> res_extlen response = 4 \<and> res_cas response \<noteq> 0
             else if is_cmd opcode [PROTOCOL_BINARY_CMD_GETK, PROTOCOL_BINARY_CMD_GETKQ]
             then res_keylen response \<noteq> 0 \<and> res_extlen response = 4 \<and> res_cas response \<noteq> 0
             else True)
          else
            res_cas response = 0 \<and> res_extlen response = 0 \<and>
            (opcode = cmd_code PROTOCOL_BINARY_CMD_GETK \<or> res_keylen response = 0)))"

lemma is_cmd_code [simp]: "is_cmd (cmd_code c) cs \<longleftrightarrow> c \<in> set cs"
  by (auto simp: is_cmd_def)

text \<open>What the checks promise about the layout of a request: the parts lie within the body.\<close>

lemma pedantic_request_parts:
  assumes "memcached_binary_protocol_pedantic_check_request h"
  shows "unat (ntohs (req_keylen h)) + unat (req_extlen h) \<le> unat (ntohl (req_bodylen h))"
proof -
  let ?k = "ntohs (req_keylen h)" and ?e = "req_extlen h"
  have "unat (unsigned ?k + unsigned ?e :: u32) = unat ?k + unat ?e"
    using unat_bounds(1) [of ?e] unat_bounds(2) [of ?k]
    by (simp add: unat_word_ariths unat_widen)
  moreover have "(unsigned ?k + unsigned ?e :: u32) \<le> ntohl (req_bodylen h)"
    using assms by (simp add: memcached_binary_protocol_pedantic_check_request_def Let_def)
  ultimately show ?thesis by (simp add: word_le_nat_alt)
qed

lemma pedantic_request_extlen:
  assumes "memcached_binary_protocol_pedantic_check_request h" and "req_opcode h = cmd_code c"
  shows "c \<in> {PROTOCOL_BINARY_CMD_ADD, PROTOCOL_BINARY_CMD_ADDQ, PROTOCOL_BINARY_CMD_SET, PROTOCOL_BINARY_CMD_SETQ,
      PROTOCOL_BINARY_CMD_REPLACE, PROTOCOL_BINARY_CMD_REPLACEQ} \<Longrightarrow> req_extlen h = 8"
    and "c \<in> {PROTOCOL_BINARY_CMD_INCREMENT, PROTOCOL_BINARY_CMD_INCREMENTQ, PROTOCOL_BINARY_CMD_DECREMENT,
      PROTOCOL_BINARY_CMD_DECREMENTQ} \<Longrightarrow> req_extlen h = 20"
  using assms by (auto simp: memcached_binary_protocol_pedantic_check_request_def Let_def)

end
