(* ===== verification/Binary_Handler.thy ===== *)
theory Binary_Handler
  imports Protocol_Output Pedantic
begin

text \<open>
  The server side of the binary protocol, \<open>libmemcachedprotocol/binary_handler.c\<close>: the translation
  of packets into calls of the application's callbacks and of their results into packets, the
  execution of one command and the loop over the packets of a buffer.

  The application is a parameter.  A callback that may answer through a response handler is a tree
  of interactions: it returns, or it sends a response and continues with the status the handler
  gave it.  Handlers see the input buffer from the packet on; a callback is given the bytes its
  pointer and length denote, and \<open>Fault\<close> stands for a range that leaves the buffer and for
  \<open>abort()\<close>.
\<close>

subsection \<open>The application\<close>

datatype ('r, 'a) app =
    Ret protocol_binary_response_status 'a
  | Call 'r "protocol_binary_response_status \<Rightarrow> ('r, 'a) app"

primrec run_app ::
  "('r \<Rightarrow> client \<Rightarrow> (protocol_binary_response_status \<times> client) outcome) \<Rightarrow> ('r, 'a) app \<Rightarrow> client \<Rightarrow>
     (protocol_binary_response_status \<times> 'a \<times> client) outcome" where
  "run_app h (Ret st a) = (\<lambda>c. Done (st, a, c))"
| "run_app h (Call r k) = (\<lambda>c. obind (h r c) (\<lambda>(st, c'). run_app h (k st) c'))"

record get_item =
  it_key :: bytes
  it_body :: bytes
  it_flags :: u32
  it_cas :: u64

type_synonym stat_item = "bytes option \<times> bytes"

text \<open>\<open>memcached_binary_protocol_callback_v1_st\<close>: a missing callback is \<^const>\<open>None\<close>.\<close>

record 'a callbacks_v1 =
  v1_add :: "(bytes \<Rightarrow> bytes \<Rightarrow> u32 \<Rightarrow> u32 \<Rightarrow> 'a \<Rightarrow> protocol_binary_response_status \<times> u64 \<times> 'a) option"
  v1_append :: "(bytes \<Rightarrow> bytes \<Rightarrow> u64 \<Rightarrow> 'a \<Rightarrow> protocol_binary_response_status \<times> u64 \<times> 'a) option"
  v1_decrement :: "(bytes \<Rightarrow> u64 \<Rightarrow> u64 \<Rightarrow> u32 \<Rightarrow> 'a \<Rightarrow> protocol_binary_response_status \<times> u64 \<times> u64 \<times> 'a) option"
  v1_delete_object :: "(bytes \<Rightarrow> u64 \<Rightarrow> 'a \<Rightarrow> protocol_binary_response_status \<times> 'a) option"
  v1_flush_object :: "(u32 \<Rightarrow> 'a \<Rightarrow> protocol_binary_response_status \<times> 'a) option"
  v1_get :: "(bytes \<Rightarrow> 'a \<Rightarrow> (get_item, 'a) app) option"
  v1_increment :: "(bytes \<Rightarrow> u64 \<Rightarrow> u64 \<Rightarrow> u32 \<Rightarrow> 'a \<Rightarrow> protocol_binary_response_status \<times> u64 \<times> u64 \<times> 'a) option"
  v1_noop :: "('a \<Rightarrow> 'a) option"
  v1_prepend :: "(bytes \<Rightarrow> bytes \<Rightarrow> u64 \<Rightarrow> 'a \<Rightarrow> protocol_binary_response_status \<times> u64 \<times> 'a) option"
  v1_quit :: "('a \<Rightarrow> 'a) option"
  v1_replace :: "(bytes \<Rightarrow> bytes \<Rightarrow> u32 \<Rightarrow> u32 \<Rightarrow> u64 \<Rightarrow> 'a \<Rightarrow> protocol_binary_response_status \<times> u64 \<times> 'a) option"
  v1_set :: "(bytes \<Rightarrow> bytes \<Rightarrow> u32 \<Rightarrow> u32 \<Rightarrow> u64 \<Rightarrow> 'a \<Rightarrow> protocol_binary_response_status \<times> u64 \<times> 'a) option"
  v1_stat :: "(bytes \<Rightarrow> 'a \<Rightarrow> (stat_item, 'a) app) option"
  v1_version :: "('a \<Rightarrow> (bytes, 'a) app) option"

text \<open>
  \<open>memcached_binary_protocol_callback_st\<close>.  A low-level handler is given the message and sends raw
  response packets; \<open>pre_execute\<close> and \<open>post_execute\<close> get the message, or none in the text protocol.
\<close>

record 'a callback_st =
  interface_version :: nat
  pre_execute :: "(bytes option \<Rightarrow> 'a \<Rightarrow> 'a) option"
  post_execute :: "(bytes option \<Rightarrow> 'a \<Rightarrow> 'a) option"
  unknown :: "(bytes \<Rightarrow> 'a \<Rightarrow> (bytes option, 'a) app) option"
  v0_comcode :: "u8 \<Rightarrow> (bytes \<Rightarrow> 'a \<Rightarrow> (bytes option, 'a) app) option"
  v1 :: "'a callbacks_v1"

type_synonym 'a result = "(protocol_binary_response_status \<times> 'a \<times> client) outcome"


subsection \<open>Sending a packet\<close>

text \<open>The direct writes of \<open>binary_raw_response_handler\<close>: how many bytes were sent, or an error.\<close>

function raw_send_loop :: "bytes \<Rightarrow> nat \<Rightarrow> client \<Rightarrow> nat option \<times> client" where
  "raw_send_loop pkt offset c =
     (case sock_send (drop offset pkt) c of
        (Send_error e, c1) \<Rightarrow>
          if e = EWOULDBLOCK then (Some offset, c1)
          else if e \<noteq> EINTR then (None, c1\<lparr>cl_error := e\<rparr>)
          else if offset < length pkt then raw_send_loop pkt offset c1 else (Some offset, c1)
      | (Sent nw, c1) \<Rightarrow>
          if offset + nw < length pkt then raw_send_loop pkt (offset + nw) c1 else (Some (offset + nw), c1))"
  by pat_completeness auto

termination
  by (relation "measure (\<lambda>(_, _, c). length (io_sends c))")
    (auto simp: EINTR_def EWOULDBLOCK_def dest!: sock_send_sends [OF sym])

declare raw_send_loop.simps [simp del]

definition binary_raw_response_handler ::
  "bytes \<Rightarrow> bytes option \<Rightarrow> client \<Rightarrow> (protocol_binary_response_status \<times> client) outcome" where
  "binary_raw_response_handler request response c =
     (if (case response of
            None \<Rightarrow> False
          | Some r \<Rightarrow> rt_pedantic c \<and>
              \<not> memcached_binary_protocol_pedantic_check_response (load_request request) (load_response r))
      then Done (PROTOCOL_BINARY_RESPONSE_EINVAL, c)
      else obind (drain_output c) (\<lambda>(ok, c1).
        if \<not> ok then Done (PROTOCOL_BINARY_RESPONSE_EINTERNAL, c1)
        else
          (case response of
             None \<Rightarrow> Done (PROTOCOL_BINARY_RESPONSE_SUCCESS, c1)
           | Some r \<Rightarrow>
               (let len = 24 + unat (htonl (res_bodylen (load_response r)))
                in if length r < len then Fault
                   else
                     (case (if cl_output c1 = [] then raw_send_loop (take len r) 0 c1 else (Some 0, c1)) of
                        (None, c2) \<Rightarrow> Done (PROTOCOL_BINARY_RESPONSE_EINTERNAL, c2)
                      | (Some offset, c2) \<Rightarrow> spool_output (take (len - offset) r) c2)))))"

text \<open>The trace line of \<open>print_cmd\<close>; a code without a name aborts.\<close>

definition print_cmd :: "u8 \<Rightarrow> protocol_binary_command outcome" where
  "print_cmd cc = (case command_of cc of None \<Rightarrow> Fault | Some cmd \<Rightarrow> Done cmd)"


subsection \<open>Response handlers\<close>

definition response_header :: "u8 \<Rightarrow> u16 \<Rightarrow> u32 \<Rightarrow> u64 \<Rightarrow> u16 \<Rightarrow> u8 \<Rightarrow> u32 \<Rightarrow> protocol_binary_response_header" where
  "response_header opcode status opaque cas keylen extlen bodylen =
     \<lparr>res_magic = PROTOCOL_BINARY_RES, res_opcode = opcode, res_keylen = keylen, res_extlen = extlen,
      res_datatype = 0, res_status = status, res_bodylen = bodylen, res_opaque = opaque, res_cas = cas\<rparr>"

definition get_response_handler :: "get_item \<Rightarrow> client \<Rightarrow> (protocol_binary_response_status \<times> client) outcome" where
  "get_response_handler item c =
     (let opcode = req_opcode (cl_command c);
          key = (if is_cmd opcode [PROTOCOL_BINARY_CMD_GET, PROTOCOL_BINARY_CMD_GETQ] then [] else it_key item);
          keylen = word_of_nat (length key) :: u16; bodylen = word_of_nat (length (it_body item)) :: u32;
          response = response_header opcode (htons (status_code PROTOCOL_BINARY_RESPONSE_SUCCESS))
            (req_opaque (cl_command c)) (memcached_htonll (it_cas item)) (htons keylen) 4
            (htonl (bodylen + unsigned keylen + 4))
      in spool_seq spool_output
           [response_bytes response @ le_store 4 (htonl (it_flags item)), key, it_body item] c)"

definition stat_response_handler :: "stat_item \<Rightarrow> client \<Rightarrow> (protocol_binary_response_status \<times> client) outcome" where
  "stat_response_handler item c =
     (let key = (case fst item of None \<Rightarrow> [] | Some k \<Rightarrow> k); body = snd item;
          keylen = word_of_nat (length key) :: u16; bodylen = word_of_nat (length body) :: u32;
          response = response_header (req_opcode (cl_command c)) (htons (status_code PROTOCOL_BINARY_RESPONSE_SUCCESS))
            (req_opaque (cl_command c)) 0 (htons keylen) 0 (htonl (bodylen + unsigned keylen))
      in spool_seq spool_output [response_bytes response, key, body] c)"

definition version_response_handler :: "bytes \<Rightarrow> client \<Rightarrow> (protocol_binary_response_status \<times> client) outcome" where
  "version_response_handler text c =
     (let textlen = word_of_nat (length text) :: u32;
          response = response_header (req_opcode (cl_command c)) (htons (status_code PROTOCOL_BINARY_RESPONSE_SUCCESS))
            (req_opaque (cl_command c)) 0 0 0 (htonl textlen)
      in spool_seq spool_output [response_bytes response, text] c)"


subsection \<open>Command handlers\<close>

definition read_at :: "bytes \<Rightarrow> nat \<Rightarrow> nat \<Rightarrow> bytes outcome" where
  "read_at packet off n = (if off + n \<le> length packet then Done (segment off n packet) else Fault)"

definition read32 :: "bytes \<Rightarrow> nat \<Rightarrow> u32 outcome" where
  "read32 packet off = obind (read_at packet off 4) (\<lambda>bs. Done (ntohl (le_load bs)))"

definition read64 :: "bytes \<Rightarrow> nat \<Rightarrow> u64 outcome" where
  "read64 packet off = obind (read_at packet off 8) (\<lambda>bs. Done (memcached_ntohll (le_load bs)))"

text \<open>A positive response without body; it is sent when the command is not the quiet one.\<close>

definition no_extras_response :: "protocol_binary_command \<Rightarrow> u32 \<Rightarrow> u64 \<Rightarrow> bytes" where
  "no_extras_response cmd opaque cas =
     response_bytes (response_header (cmd_code cmd) (htons (status_code PROTOCOL_BINARY_RESPONSE_SUCCESS)) opaque cas 0 0 0)"

definition respond :: "bytes \<Rightarrow> protocol_binary_command \<Rightarrow> bytes \<Rightarrow> protocol_binary_response_status \<Rightarrow> 'a \<Rightarrow> client \<Rightarrow> 'a result" where
  "respond packet cmd response rval a c =
     (if rval = PROTOCOL_BINARY_RESPONSE_SUCCESS \<and> req_opcode (load_request packet) = cmd_code cmd
      then obind (binary_raw_response_handler packet (Some response) c) (\<lambda>(rval', c'). Done (rval', a, c'))
      else Done (rval, a, c))"

definition add_command_handler :: "'a callbacks_v1 \<Rightarrow> bytes \<Rightarrow> 'a \<Rightarrow> client \<Rightarrow> 'a result" where
  "add_command_handler cb packet a c =
     (case v1_add cb of
        None \<Rightarrow> Done (PROTOCOL_BINARY_RESPONSE_UNKNOWN_COMMAND, a, c)
      | Some add \<Rightarrow>
          (let header = load_request packet; keylen = ntohs (req_keylen header);
               datalen = ntohl (req_bodylen header) - unsigned keylen - 8
           in obind (read32 packet 24) (\<lambda>flags. obind (read32 packet 28) (\<lambda>timeout.
              obind (read_at packet 32 (unat keylen)) (\<lambda>key.
              obind (read_at packet (32 + unat keylen) (unat datalen)) (\<lambda>data.
              (let (rval, cas, a') = add key data flags timeout a
               in respond packet PROTOCOL_BINARY_CMD_ADD
                    (no_extras_response PROTOCOL_BINARY_CMD_ADD (req_opaque header) (memcached_ntohll cas)) rval a' c)))))))"

definition replace_command_handler :: "'a callbacks_v1 \<Rightarrow> bytes \<Rightarrow> 'a \<Rightarrow> client \<Rightarrow> 'a result" where
  "replace_command_handler cb packet a c =
     (case v1_replace cb of
        None \<Rightarrow> Done (PROTOCOL_BINARY_RESPONSE_UNKNOWN_COMMAND, a, c)
      | Some replace \<Rightarrow>
          (let header = load_request packet; keylen = ntohs (req_keylen header);
               datalen = ntohl (req_bodylen header) - unsigned keylen - 8; cas = memcached_ntohll (req_cas header)
           in obind (read32 packet 24) (\<lambda>flags. obind (read32 packet 28) (\<lambda>timeout.
              obind (read_at packet 32 (unat keylen)) (\<lambda>key.
              obind (read_at packet (32 + unat keylen) (unat datalen)) (\<lambda>data.
              (let (rval, result_cas, a') = replace key data flags timeout cas a
               in respond packet PROTOCOL_BINARY_CMD_REPLACE
                    (no_extras_response PROTOCOL_BINARY_CMD_REPLACE (req_opaque header) (memcached_ntohll result_cas)) rval a' c)))))))"

definition set_command_handler :: "'a callbacks_v1 \<Rightarrow> bytes \<Rightarrow> 'a \<Rightarrow> client \<Rightarrow> 'a result" where
  "set_command_handler cb packet a c =
     (case v1_set cb of
        None \<Rightarrow> Done (PROTOCOL_BINARY_RESPONSE_UNKNOWN_COMMAND, a, c)
      | Some set_cb \<Rightarrow>
          (let header = load_request packet; keylen = ntohs (req_keylen header);
               datalen = ntohl (req_bodylen header) - unsigned keylen - 8; cas = memcached_ntohll (req_cas header)
           in obind (read32 packet 24) (\<lambda>flags. obind (read32 packet 28) (\<lambda>timeout.
              obind (read_at packet 32 (unat keylen)) (\<lambda>key.
              obind (read_at packet (32 + unat keylen) (unat datalen)) (\<lambda>data.
              (let (rval, result_cas, a') = set_cb key data flags timeout cas a
               in respond packet PROTOCOL_BINARY_CMD_SET
                    (no_extras_response PROTOCOL_BINARY_CMD_SET (req_opaque header) (memcached_ntohll result_cas)) rval a' c)))))))"

definition delete_command_handler :: "'a callbacks_v1 \<Rightarrow> bytes \<Rightarrow> 'a \<Rightarrow> client \<Rightarrow> 'a result" where
  "delete_command_handler cb packet a c =
     (case v1_delete_object cb of
        None \<Rightarrow> Done (PROTOCOL_BINARY_RESPONSE_UNKNOWN_COMMAND, a, c)
      | Some delete_object \<Rightarrow>
          (let header = load_request packet; keylen = ntohs (req_keylen header); cas = memcached_ntohll (req_cas header)
           in obind (read_at packet 24 (unat keylen)) (\<lambda>key.
              (let (rval, a') = delete_object key cas a
               in respond packet PROTOCOL_BINARY_CMD_DELETE
                    (no_extras_response PROTOCOL_BINARY_CMD_DELETE (req_opaque header) 0) rval a' c))))"

definition flush_command_handler :: "'a callbacks_v1 \<Rightarrow> bytes \<Rightarrow> 'a \<Rightarrow> client \<Rightarrow> 'a result" where
  "flush_command_handler cb packet a c =
     (case v1_flush_object cb of
        None \<Rightarrow> Done (PROTOCOL_BINARY_RESPONSE_UNKNOWN_COMMAND, a, c)
      | Some flush_object \<Rightarrow>
          (let header = load_request packet
           in obind (if htonl (req_bodylen header) = 4 then read32 packet 24 else Done 0) (\<lambda>timeout.
              (let (rval, a') = flush_object timeout a
               in respond packet PROTOCOL_BINARY_CMD_FLUSH
                    (no_extras_response PROTOCOL_BINARY_CMD_FLUSH (req_opaque header) 0) rval a' c))))"

definition get_command_handler :: "'a callbacks_v1 \<Rightarrow> bytes \<Rightarrow> 'a \<Rightarrow> client \<Rightarrow> 'a result" where
  "get_command_handler cb packet a c =
     (case v1_get cb of
        None \<Rightarrow> Done (PROTOCOL_BINARY_RESPONSE_UNKNOWN_COMMAND, a, c)
      | Some get \<Rightarrow>
          (let header = load_request packet; keylen = ntohs (req_keylen header)
           in obind (read_at packet 24 (unat keylen)) (\<lambda>key.
              obind (run_app get_response_handler (get key a) c) (\<lambda>(rval, a', c').
              Done (if rval = PROTOCOL_BINARY_RESPONSE_KEY_ENOENT \<and>
                       is_cmd (req_opcode header) [PROTOCOL_BINARY_CMD_GETQ, PROTOCOL_BINARY_CMD_GETKQ]
                    then PROTOCOL_BINARY_RESPONSE_SUCCESS else rval, a', c')))))"

text \<open>A positive response of \<open>INCREMENT\<close> and \<open>DECREMENT\<close>, which carries the new value.\<close>

definition counter_response :: "protocol_binary_command \<Rightarrow> u32 \<Rightarrow> u64 \<Rightarrow> u64 \<Rightarrow> bytes" where
  "counter_response cmd opaque cas value =
     response_bytes (response_header (cmd_code cmd) (htons (status_code PROTOCOL_BINARY_RESPONSE_SUCCESS)) opaque cas 0 0 (htonl 8)) @
     le_store 8 value"

definition decrement_command_handler :: "'a callbacks_v1 \<Rightarrow> bytes \<Rightarrow> 'a \<Rightarrow> client \<Rightarrow> 'a result" where
  "decrement_command_handler cb packet a c =
     (case v1_decrement cb of
        None \<Rightarrow> Done (PROTOCOL_BINARY_RESPONSE_UNKNOWN_COMMAND, a, c)
      | Some decrement \<Rightarrow>
          (let header = load_request packet; keylen = ntohs (req_keylen header)
           in obind (read64 packet 32) (\<lambda>init. obind (read64 packet 24) (\<lambda>delta. obind (read32 packet 40) (\<lambda>timeout.
              obind (read_at packet 44 (unat keylen)) (\<lambda>key.
              (let (rval, result, cas, a') = decrement key delta init timeout a
               in respond packet PROTOCOL_BINARY_CMD_DECREMENT
                    (counter_response PROTOCOL_BINARY_CMD_DECREMENT (req_opaque header) (memcached_ntohll cas) (memcached_htonll result))
                    rval a' c)))))))"

definition increment_command_handler :: "'a callbacks_v1 \<Rightarrow> bytes \<Rightarrow> 'a \<Rightarrow> client \<Rightarrow> 'a result" where
  "increment_command_handler cb packet a c =
     (case v1_increment cb of
        None \<Rightarrow> Done (PROTOCOL_BINARY_RESPONSE_UNKNOWN_COMMAND, a, c)
      | Some increment \<Rightarrow>
          (let header = load_request packet; keylen = ntohs (req_keylen header)
           in obind (read64 packet 32) (\<lambda>init. obind (read64 packet 24) (\<lambda>delta. obind (read32 packet 40) (\<lambda>timeout.
              obind (read_at packet 44 (unat keylen)) (\<lambda>key.
              (let (rval, result, cas, a') = increment key delta init timeout a
               in respond packet PROTOCOL_BINARY_CMD_INCREMENT
                    (counter_response PROTOCOL_BINARY_CMD_INCREMENT (req_opaque header) (memcached_ntohll cas) (memcached_htonll result))
                    rval a' c)))))))"

definition noop_command_handler :: "'a callbacks_v1 \<Rightarrow> bytes \<Rightarrow> 'a \<Rightarrow> client \<Rightarrow> 'a result" where
  "noop_command_handler cb packet a c =
     (let a' = (case v1_noop cb of None \<Rightarrow> a | Some noop \<Rightarrow> noop a)
      in obind (binary_raw_response_handler packet
           (Some (no_extras_response PROTOCOL_BINARY_CMD_NOOP (req_opaque (load_request packet)) 0)) c)
           (\<lambda>(rval, c'). Done (rval, a', c')))"

definition append_command_handler :: "'a callbacks_v1 \<Rightarrow> bytes \<Rightarrow> 'a \<Rightarrow> client \<Rightarrow> 'a result" where
  "append_command_handler cb packet a c =
     (case v1_append cb of
        None \<Rightarrow> Done (PROTOCOL_BINARY_RESPONSE_UNKNOWN_COMMAND, a, c)
      | Some append_cb \<Rightarrow>
          (let header = load_request packet; keylen = ntohs (req_keylen header);
               datalen = ntohl (req_bodylen header) - unsigned keylen; cas = memcached_ntohll (req_cas header)
           in obind (read_at packet 24 (unat keylen)) (\<lambda>key.
              obind (read_at packet (24 + unat keylen) (unat datalen)) (\<lambda>data.
              (let (rval, result_cas, a') = append_cb key data cas a
               in respond packet PROTOCOL_BINARY_CMD_APPEND
                    (no_extras_response PROTOCOL_BINARY_CMD_APPEND (req_opaque header) (memcached_ntohll result_cas)) rval a' c)))))"

definition prepend_command_handler :: "'a callbacks_v1 \<Rightarrow> bytes \<Rightarrow> 'a \<Rightarrow> client \<Rightarrow> 'a result" where
  "prepend_command_handler cb packet a c =
     (case v1_prepend cb of
        None \<Rightarrow> Done (PROTOCOL_BINARY_RESPONSE_UNKNOWN_COMMAND, a, c)
      | Some prepend \<Rightarrow>
          (let header = load_request packet; keylen = ntohs (req_keylen header);
               datalen = ntohl (req_bodylen header) - unsigned keylen; cas = memcached_ntohll (req_cas header)
           in obind (read_at packet 24 (unat keylen)) (\<lambda>key.
              obind (read_at packet (24 + unat keylen) (unat datalen)) (\<lambda>data.
              (let (rval, result_cas, a') = prepend key data cas a
               in respond packet PROTOCOL_BINARY_CMD_PREPEND
                    (no_extras_response PROTOCOL_BINARY_CMD_PREPEND (req_opaque header) (memcached_ntohll result_cas)) rval a' c)))))"

definition quit_command_handler :: "'a callbacks_v1 \<Rightarrow> bytes \<Rightarrow> 'a \<Rightarrow> client \<Rightarrow> 'a result" where
  "quit_command_handler cb packet a c =
     (let a' = (case v1_quit cb of None \<Rightarrow> a | Some quit \<Rightarrow> quit a); header = load_request packet
      in if req_opcode header = cmd_code PROTOCOL_BINARY_CMD_QUIT
         then obind (binary_raw_response_handler packet (Some (no_extras_response PROTOCOL_BINARY_CMD_QUIT (req_opaque header) 0)) c)
                (\<lambda>(_, c'). Done (PROTOCOL_BINARY_RESPONSE_EINTERNAL, a', c'))
         else Done (PROTOCOL_BINARY_RESPONSE_EINTERNAL, a', c))"

definition stat_command_handler :: "'a callbacks_v1 \<Rightarrow> bytes \<Rightarrow> 'a \<Rightarrow> client \<Rightarrow> 'a result" where
  "stat_command_handler cb packet a c =
     (case v1_stat cb of
        None \<Rightarrow> Done (PROTOCOL_BINARY_RESPONSE_UNKNOWN_COMMAND, a, c)
      | Some stat \<Rightarrow>
          (let header = load_request packet; keylen = ntohs (req_keylen header)
           in obind (read_at packet 24 (unat keylen)) (\<lambda>key.
              obind (run_app stat_response_handler (stat key a) c) (\<lambda>(rval, a', c').
              if rval = PROTOCOL_BINARY_RESPONSE_SUCCESS
              then obind (binary_raw_response_handler packet (Some (no_extras_response PROTOCOL_BINARY_CMD_STAT (req_opaque header) 0)) c')
                     (\<lambda>(rval', c''). Done (rval', a', c''))
              else Done (rval, a', c')))))"

definition version_command_handler :: "'a callbacks_v1 \<Rightarrow> bytes \<Rightarrow> 'a \<Rightarrow> client \<Rightarrow> 'a result" where
  "version_command_handler cb packet a c =
     (case v1_version cb of
        None \<Rightarrow> Done (PROTOCOL_BINARY_RESPONSE_UNKNOWN_COMMAND, a, c)
      | Some version \<Rightarrow>
          obind (run_app version_response_handler (version a) c) (\<lambda>(rval, a', c').
            if rval = PROTOCOL_BINARY_RESPONSE_SUCCESS
            then obind (binary_raw_response_handler packet None c') (\<lambda>(rval', c''). Done (rval', a', c''))
            else Done (rval, a', c')))"

definition comcode_v0_v1_remap :: "u8 \<Rightarrow> ('a callbacks_v1 \<Rightarrow> bytes \<Rightarrow> 'a \<Rightarrow> client \<Rightarrow> 'a result) option" where
  "comcode_v0_v1_remap cc =
     (if is_cmd cc [PROTOCOL_BINARY_CMD_ADDQ, PROTOCOL_BINARY_CMD_ADD] then Some add_command_handler
      else if is_cmd cc [PROTOCOL_BINARY_CMD_APPENDQ, PROTOCOL_BINARY_CMD_APPEND] then Some append_command_handler
      else if is_cmd cc [PROTOCOL_BINARY_CMD_DECREMENTQ, PROTOCOL_BINARY_CMD_DECREMENT] then Some decrement_command_handler
      else if is_cmd cc [PROTOCOL_BINARY_CMD_DELETEQ, PROTOCOL_BINARY_CMD_DELETE] then Some delete_command_handler
      else if is_cmd cc [PROTOCOL_BINARY_CMD_FLUSHQ, PROTOCOL_BINARY_CMD_FLUSH] then Some flush_command_handler
      else if is_cmd cc [PROTOCOL_BINARY_CMD_GETKQ, PROTOCOL_BINARY_CMD_GETK, PROTOCOL_BINARY_CMD_GETQ,
          PROTOCOL_BINARY_CMD_GET] then Some get_command_handler
      else if is_cmd cc [PROTOCOL_BINARY_CMD_INCREMENTQ, PROTOCOL_BINARY_CMD_INCREMENT] then Some increment_command_handler
      else if is_cmd cc [PROTOCOL_BINARY_CMD_NOOP] then Some noop_command_handler
      else if is_cmd cc [PROTOCOL_BINARY_CMD_PREPENDQ, PROTOCOL_BINARY_CMD_PREPEND] then Some prepend_command_handler
      else if is_cmd cc [PROTOCOL_BINARY_CMD_QUITQ, PROTOCOL_BINARY_CMD_QUIT] then Some quit_command_handler
      else if is_cmd cc [PROTOCOL_BINARY_CMD_REPLACEQ, PROTOCOL_BINARY_CMD_REPLACE] then Some replace_command_handler
      else if is_cmd cc [PROTOCOL_BINARY_CMD_SETQ, PROTOCOL_BINARY_CMD_SET] then Some set_command_handler
      else if is_cmd cc [PROTOCOL_BINARY_CMD_STAT] then Some stat_command_handler
      else if is_cmd cc [PROTOCOL_BINARY_CMD_VERSION] then Some version_command_handler
      else None)"


subsection \<open>Executing one command\<close>

text \<open>The message a packet holds: the header and the announced body.\<close>

definition message :: "bytes \<Rightarrow> bytes" where
  "message packet = take (24 + unat (ntohl (req_bodylen (load_request packet)))) packet"

definition run_hook :: "(bytes option \<Rightarrow> 'a \<Rightarrow> 'a) option \<Rightarrow> bytes option \<Rightarrow> 'a \<Rightarrow> 'a" where
  "run_hook hook msg a = (case hook of None \<Rightarrow> a | Some f \<Rightarrow> f msg a)"

text \<open>The switch over the interface version.\<close>

definition dispatch_command :: "'a callback_st \<Rightarrow> bytes \<Rightarrow> 'a \<Rightarrow> client \<Rightarrow> 'a result" where
  "dispatch_command cb packet a c =
     (let cc = req_opcode (load_request packet)
      in if interface_version cb = 0 then
           (case v0_comcode cb cc of
              None \<Rightarrow> Done (PROTOCOL_BINARY_RESPONSE_UNKNOWN_COMMAND, a, c)
            | Some f \<Rightarrow> run_app (binary_raw_response_handler packet) (f (message packet) a) c)
         else if interface_version cb = 1 then
           (case comcode_v0_v1_remap cc of
              None \<Rightarrow> Done (PROTOCOL_BINARY_RESPONSE_UNKNOWN_COMMAND, a, c)
            | Some handler \<Rightarrow> handler (v1 cb) packet a c)
         else Fault)"

definition call_unknown :: "'a callback_st \<Rightarrow> bytes \<Rightarrow> protocol_binary_response_status \<Rightarrow> 'a \<Rightarrow> client \<Rightarrow> 'a result" where
  "call_unknown cb packet rval a c =
     (case unknown cb of
        Some f \<Rightarrow> if rval = PROTOCOL_BINARY_RESPONSE_UNKNOWN_COMMAND
                  then run_app (binary_raw_response_handler packet) (f (message packet) a) c else Done (rval, a, c)
      | None \<Rightarrow> Done (rval, a, c))"

definition error_response :: "bytes \<Rightarrow> protocol_binary_response_status \<Rightarrow> bytes" where
  "error_response packet rval =
     response_bytes (response_header (req_opcode (load_request packet)) (htons (status_code rval))
       (req_opaque (load_request packet)) 0 0 0 0)"

definition answer_error :: "bytes \<Rightarrow> protocol_binary_response_status \<Rightarrow> 'a \<Rightarrow> client \<Rightarrow> 'a result" where
  "answer_error packet rval a c =
     (if rval \<noteq> PROTOCOL_BINARY_RESPONSE_SUCCESS \<and> rval \<noteq> PROTOCOL_BINARY_RESPONSE_EINTERNAL \<and>
         rval \<noteq> PROTOCOL_BINARY_RESPONSE_NOT_SUPPORTED
      then obind (binary_raw_response_handler packet (Some (error_response packet rval)) c) (\<lambda>(rval', c'). Done (rval', a, c'))
      else Done (rval, a, c))"

text \<open>
  The request check of pedantic mode guards an empty block, so it has no effect.
\<close>

definition execute_command :: "'a callback_st \<Rightarrow> bytes \<Rightarrow> 'a \<Rightarrow> client \<Rightarrow> 'a result" where
  "execute_command cb packet a c =
     (let a1 = run_hook (pre_execute cb) (Some (message packet)) a
      in obind (if cl_verbose c then print_cmd (req_opcode (load_request packet)) else Done PROTOCOL_BINARY_CMD_NOOP) (\<lambda>_.
         obind (dispatch_command cb packet a1 c) (\<lambda>(rval, a2, c2).
         obind (call_unknown cb packet rval a2 c2) (\<lambda>(rval3, a3, c3).
         obind (answer_error packet rval3 a3 c3) (\<lambda>(rval4, a4, c4).
         Done (rval4, run_hook (post_execute cb) (Some (message packet)) a4, c4))))))"


subsection \<open>The packets of a buffer\<close>

definition MEMCACHED_PROTOCOL_ERROR_EVENT :: u32 where "MEMCACHED_PROTOCOL_ERROR_EVENT = 1"
definition MEMCACHED_PROTOCOL_READ_EVENT :: u32 where "MEMCACHED_PROTOCOL_READ_EVENT = 2"
definition MEMCACHED_PROTOCOL_WRITE_EVENT :: u32 where "MEMCACHED_PROTOCOL_WRITE_EVENT = 4"
definition MEMCACHED_PROTOCOL_PAUSE_EVENT :: u32 where "MEMCACHED_PROTOCOL_PAUSE_EVENT = 8"

text \<open>
  What a \<open>process_data\<close> function returns: the event, the number of bytes left (\<open>*length\<close>), where
  they start in the input buffer (\<open>*endptr\<close>, \<^const>\<open>None\<close> when it was not written), and the state.
\<close>

record 'a processed =
  ev_event :: u32
  ev_length :: nat
  ev_endptr :: "nat option"
  ev_app :: 'a
  ev_client :: client

definition packet_size :: "bytes \<Rightarrow> nat" where
  "packet_size packet = 24 + unat (ntohl (req_bodylen (load_request packet)))"

text \<open>The next header: in place when it is aligned (the buffer is), else moved to the front.\<close>

definition next_packet :: "nat \<Rightarrow> nat \<Rightarrow> nat \<Rightarrow> client \<Rightarrow> nat \<times> client" where
  "next_packet header consumed len c =
     (if 0 < len then
        (if (header + consumed) mod 8 = 0 then (header + consumed, c)
         else (0, c\<lparr>rt_input := segment (header + consumed) len (rt_input c) @ drop len (rt_input c)\<rparr>))
      else (header, c))"

function binary_loop :: "'a callback_st \<Rightarrow> nat \<Rightarrow> nat \<Rightarrow> nat \<Rightarrow> nat option \<Rightarrow> 'a \<Rightarrow> client \<Rightarrow> 'a processed outcome" where
  "binary_loop cb header len length_out endptr a c =
     (let packet = drop header (rt_input c)
      in if 24 \<le> len \<and> packet_size packet \<le> len then
           obind (execute_command cb packet a (c\<lparr>cl_command := load_request packet\<rparr>)) (\<lambda>(rv, a1, c1).
             if rv = PROTOCOL_BINARY_RESPONSE_EINTERNAL then
               Done \<lparr>ev_event = MEMCACHED_PROTOCOL_ERROR_EVENT, ev_length = len, ev_endptr = Some header, ev_app = a1, ev_client = c1\<rparr>
             else if rv = PROTOCOL_BINARY_RESPONSE_NOT_SUPPORTED then
               Done \<lparr>ev_event = MEMCACHED_PROTOCOL_PAUSE_EVENT, ev_length = length_out, ev_endptr = endptr, ev_app = a1, ev_client = c1\<rparr>
             else
               (let consumed = packet_size packet; len1 = len - consumed;
                    (header1, c2) = next_packet header consumed len1 c1
                in binary_loop cb header1 len1 len1 (Some header1) a1 c2))
         else
           Done \<lparr>ev_event = MEMCACHED_PROTOCOL_READ_EVENT, ev_length = length_out, ev_endptr = endptr, ev_app = a, ev_client = c\<rparr>)"
  by pat_completeness auto

termination
  by (relation "measure (\<lambda>(_, _, len, _). len)") (auto simp: packet_size_def)

declare binary_loop.simps [simp del]

definition memcached_binary_protocol_process_data :: "'a callback_st \<Rightarrow> nat \<Rightarrow> 'a \<Rightarrow> client \<Rightarrow> 'a processed outcome" where
  "memcached_binary_protocol_process_data cb length_in a c =
     (if req_magic (load_request (rt_input c)) \<noteq> PROTOCOL_BINARY_REQ then
        Done \<lparr>ev_event = MEMCACHED_PROTOCOL_ERROR_EVENT, ev_length = length_in, ev_endptr = None, ev_app = a,
              ev_client = c\<lparr>cl_error := EINVAL\<rparr>\<rparr>
      else binary_loop cb 0 length_in length_in None a c)"


subsection \<open>A handler only looks at its message\<close>

lemma load_request_append: "24 \<le> length p \<Longrightarrow> load_request (p @ q) = load_request p"
  by (simp add: load_request_def segment_within)

lemma read_at_append: "off + n \<le> length p \<Longrightarrow> read_at (p @ q) off n = read_at p off n"
  by (simp add: read_at_def segment_within)

lemma read_at_Done: "off + n \<le> length p \<Longrightarrow> read_at p off n = Done (segment off n p)"
  by (simp add: read_at_def)

lemma read_word_append:
  "off + 4 \<le> length p \<Longrightarrow> read32 (p @ q) off = read32 p off"
  "off + 8 \<le> length p \<Longrightarrow> read64 (p @ q) off = read64 p off"
  by (simp_all add: read32_def read64_def read_at_append)

lemma raw_response_append:
  "24 \<le> length p \<Longrightarrow> binary_raw_response_handler (p @ q) = binary_raw_response_handler p"
  by (rule ext, rule ext, rename_tac r c, case_tac r) (simp_all add: binary_raw_response_handler_def load_request_append)

lemma respond_append: "24 \<le> length p \<Longrightarrow> respond (p @ q) = respond p"
  by (simp add: respond_def raw_response_append load_request_append fun_eq_iff)

lemma unat_datalen:
  fixes bodylen :: u32 and keylen :: u16
  assumes "unat keylen + 8 \<le> unat bodylen"
  shows "unat (bodylen - unsigned keylen - 8) = unat bodylen - unat keylen - 8"
proof -
  have "unsigned keylen \<le> bodylen" using assms by (simp add: word_le_nat_alt unat_widen)
  then have k: "unat (bodylen - unsigned keylen) = unat bodylen - unat keylen"
    by (simp add: unat_sub unat_widen)
  have "8 \<le> bodylen - unsigned keylen" using assms by (simp add: word_le_nat_alt k)
  then show ?thesis by (simp add: unat_sub k)
qed

lemma unat_datalen_no_extras:
  fixes bodylen :: u32 and keylen :: u16
  assumes "unat keylen \<le> unat bodylen"
  shows "unat (bodylen - unsigned keylen) = unat bodylen - unat keylen"
  using assms by (simp add: unat_sub word_le_nat_alt unat_widen)

text \<open>A complete and legal message, as the request check of \<open>pedantic.c\<close> defines it.\<close>

definition legal_message :: "bytes \<Rightarrow> bool" where
  "legal_message p \<longleftrightarrow> 24 \<le> length p \<and> length p = packet_size p \<and>
     memcached_binary_protocol_pedantic_check_request (load_request p)"

lemma legal_message_lengths:
  assumes "legal_message p"
  shows "24 \<le> length p" and "length p = 24 + unat (ntohl (req_bodylen (load_request p)))"
    and "24 + unat (ntohs (req_keylen (load_request p))) + unat (req_extlen (load_request p)) \<le> length p"
  using assms pedantic_request_parts [of "load_request p"] by (auto simp: legal_message_def packet_size_def)

lemma message_append: "legal_message p \<Longrightarrow> message (p @ q) = p"
  using legal_message_lengths [of p] by (simp add: message_def load_request_append)

lemmas handler_defs =
  add_command_handler_def append_command_handler_def decrement_command_handler_def delete_command_handler_def
  flush_command_handler_def get_command_handler_def increment_command_handler_def noop_command_handler_def
  prepend_command_handler_def quit_command_handler_def replace_command_handler_def set_command_handler_def
  stat_command_handler_def version_command_handler_def

lemmas append_rules = load_request_append read_at_append read_word_append raw_response_append respond_append

lemma is_cmd_cases: "is_cmd cc cs \<longleftrightarrow> (\<exists>cmd \<in> set cs. cc = cmd_code cmd)"
  by (auto simp: is_cmd_def)

lemma storage_handlers_append:
  assumes "legal_message p"
    and "is_cmd (req_opcode (load_request p)) [PROTOCOL_BINARY_CMD_ADD, PROTOCOL_BINARY_CMD_ADDQ,
      PROTOCOL_BINARY_CMD_SET, PROTOCOL_BINARY_CMD_SETQ, PROTOCOL_BINARY_CMD_REPLACE, PROTOCOL_BINARY_CMD_REPLACEQ]"
  shows "add_command_handler cb (p @ q) = add_command_handler cb p"
    and "set_command_handler cb (p @ q) = set_command_handler cb p"
    and "replace_command_handler cb (p @ q) = replace_command_handler cb p"
proof -
  let ?h = "load_request p"
  have ext: "req_extlen ?h = 8" 
    using pedantic_request_extlen(1) [of ?h] assms by (auto simp: legal_message_def is_cmd_cases)
  note l = legal_message_lengths [OF assms(1)]
  have "unat (ntohs (req_keylen ?h)) + 8 \<le> unat (ntohl (req_bodylen ?h))" using l ext by simp
  then have d: "32 + unat (ntohs (req_keylen ?h)) + unat (ntohl (req_bodylen ?h) - unsigned (ntohs (req_keylen ?h)) - 8) \<le> length p"
    using l by (simp add: unat_datalen)
  show "add_command_handler cb (p @ q) = add_command_handler cb p"
    and "set_command_handler cb (p @ q) = set_command_handler cb p"
    and "replace_command_handler cb (p @ q) = replace_command_handler cb p"
    using l ext d by (simp_all add: handler_defs append_rules fun_eq_iff Let_def split: option.splits)
qed

lemma counter_handlers_append:
  assumes "legal_message p"
    and "is_cmd (req_opcode (load_request p)) [PROTOCOL_BINARY_CMD_INCREMENT, PROTOCOL_BINARY_CMD_INCREMENTQ,
      PROTOCOL_BINARY_CMD_DECREMENT, PROTOCOL_BINARY_CMD_DECREMENTQ]"
  shows "increment_command_handler cb (p @ q) = increment_command_handler cb p"
    and "decrement_command_handler cb (p @ q) = decrement_command_handler cb p"
proof -
  have ext: "req_extlen (load_request p) = 20"
    using pedantic_request_extlen(2) [of "load_request p"] assms by (auto simp: legal_message_def is_cmd_cases)
  note l = legal_message_lengths [OF assms(1)]
  show "increment_command_handler cb (p @ q) = increment_command_handler cb p"
    and "decrement_command_handler cb (p @ q) = decrement_command_handler cb p"
    using l ext by (simp_all add: handler_defs append_rules fun_eq_iff Let_def split: option.splits)
qed

lemma plain_handlers_append:
  assumes "legal_message p"
  shows "delete_command_handler cb (p @ q) = delete_command_handler cb p"
    and "flush_command_handler cb (p @ q) = flush_command_handler cb p"
    and "get_command_handler cb (p @ q) = get_command_handler cb p"
    and "noop_command_handler cb (p @ q) = noop_command_handler cb p"
    and "append_command_handler cb (p @ q) = append_command_handler cb p"
    and "prepend_command_handler cb (p @ q) = prepend_command_handler cb p"
    and "quit_command_handler cb (p @ q) = quit_command_handler cb p"
    and "stat_command_handler cb (p @ q) = stat_command_handler cb p"
    and "version_command_handler cb (p @ q) = version_command_handler cb p"
proof -
  let ?h = "load_request p"
  note l = legal_message_lengths [OF assms]
  have "unat (ntohs (req_keylen ?h)) \<le> unat (ntohl (req_bodylen ?h))" using l by simp
  then have d: "24 + unat (ntohs (req_keylen ?h)) + unat (ntohl (req_bodylen ?h) - unsigned (ntohs (req_keylen ?h))) \<le> length p"
    using l by (simp add: unat_datalen_no_extras)
  have f: "htonl (req_bodylen ?h) = 4 \<Longrightarrow> 28 \<le> length p" using l(2) by (simp add: htonl_def ntohl_def)
  show "delete_command_handler cb (p @ q) = delete_command_handler cb p"
    and "flush_command_handler cb (p @ q) = flush_command_handler cb p"
    and "get_command_handler cb (p @ q) = get_command_handler cb p"
    and "noop_command_handler cb (p @ q) = noop_command_handler cb p"
    and "append_command_handler cb (p @ q) = append_command_handler cb p"
    and "prepend_command_handler cb (p @ q) = prepend_command_handler cb p"
    and "quit_command_handler cb (p @ q) = quit_command_handler cb p"
    and "stat_command_handler cb (p @ q) = stat_command_handler cb p"
    and "version_command_handler cb (p @ q) = version_command_handler cb p"
    using l d f
    by (simp_all add: handler_defs append_rules fun_eq_iff Let_def cong: if_cong prod.case_cong split: option.splits)
qed

lemma dispatch_command_append:
  assumes "legal_message p"
  shows "dispatch_command cb (p @ q) = dispatch_command cb p"
proof -
  have v1: "comcode_v0_v1_remap (req_opcode (load_request p)) = Some handler \<Longrightarrow> handler (v1 cb) (p @ q) = handler (v1 cb) p"
    for handler
    using storage_handlers_append [OF assms] counter_handlers_append [OF assms] plain_handlers_append [OF assms]
    by (auto simp: comcode_v0_v1_remap_def is_cmd_cases split: if_splits)
  have "message (p @ q) = p" "message p = p" using message_append [OF assms, of q] message_append [OF assms, of "[]"] by simp_all
  then show ?thesis
    using v1 legal_message_lengths(1) [OF assms]
    by (auto simp: dispatch_command_def Let_def append_rules fun_eq_iff split: option.splits)
qed

lemma execute_command_append:
  assumes "legal_message p"
  shows "execute_command cb (p @ q) = execute_command cb p"
proof -
  have "message (p @ q) = p" "message p = p" using message_append [OF assms, of q] message_append [OF assms, of "[]"] by simp_all
  moreover have "24 \<le> length p" using legal_message_lengths(1) [OF assms] .
  ultimately show ?thesis
    by (simp add: execute_command_def dispatch_command_append [OF assms] call_unknown_def answer_error_def
      error_response_def append_rules fun_eq_iff Let_def cong: option.case_cong if_cong prod.case_cong)
qed


subsection \<open>Storage requests\<close>

text \<open>The packet of a storage request with the given fields, as the protocol lays it out.\<close>

definition storage_header :: "protocol_binary_command \<Rightarrow> nat \<Rightarrow> nat \<Rightarrow> u64 \<Rightarrow> u32 \<Rightarrow> protocol_binary_request_header" where
  "storage_header cmd keylen datalen cas opaque =
     \<lparr>req_magic = PROTOCOL_BINARY_REQ, req_opcode = cmd_code cmd, req_keylen = htons (word_of_nat keylen),
      req_extlen = 8, req_datatype = 0, req_vbucket = 0, req_bodylen = htonl (word_of_nat (keylen + datalen + 8)),
      req_opaque = opaque, req_cas = memcached_htonll cas\<rparr>"

definition storage_request :: "protocol_binary_command \<Rightarrow> bytes \<Rightarrow> bytes \<Rightarrow> u32 \<Rightarrow> u32 \<Rightarrow> u64 \<Rightarrow> u32 \<Rightarrow> bytes" where
  "storage_request cmd key data flags exptime cas opaque =
     request_bytes (storage_header cmd (length key) (length data) cas opaque) @
     le_store 4 (htonl flags) @ le_store 4 (htonl exptime) @ key @ data"

lemma unat_word_of_nat:
  "n < 65536 \<Longrightarrow> unat (word_of_nat n :: u16) = n" "n < 4294967296 \<Longrightarrow> unat (word_of_nat n :: u32) = n"
  by (simp_all add: unsigned_of_nat take_bit_eq_mod)

lemma storage_request_parts:
  fixes key data :: bytes and flags exptime opaque :: u32 and cas :: u64 and cmd :: protocol_binary_command
  defines "p \<equiv> storage_request cmd key data flags exptime cas opaque"
  assumes "length key < 65536" and "length key + length data + 8 < 4294967296"
  shows "load_request p = storage_header cmd (length key) (length data) cas opaque"
    and "read32 p 24 = Done flags" "read32 p 28 = Done exptime"
    and "read_at p 32 (length key) = Done key" "read_at p (32 + length key) (length data) = Done data"
    and "unat (ntohs (req_keylen (load_request p))) = length key"
    and "unat (ntohl (req_bodylen (load_request p)) - unsigned (ntohs (req_keylen (load_request p))) - 8) = length data"
    and "length p = 32 + length key + length data"
proof -
  show h: "load_request p = storage_header cmd (length key) (length data) cas opaque"
    by (simp add: p_def storage_request_def)
  show "read32 p 24 = Done flags" "read32 p 28 = Done exptime"
    "read_at p 32 (length key) = Done key" "read_at p (32 + length key) (length data) = Done data"
    by (simp_all add: p_def storage_request_def read32_def read_at_def) (simp add: segment_def)
  show k: "unat (ntohs (req_keylen (load_request p))) = length key"
    using assms(2) by (simp add: h storage_header_def unat_word_of_nat)
  have b: "unat (ntohl (req_bodylen (load_request p))) = length key + length data + 8"
    using assms(3) by (simp only: h storage_header_def protocol_binary_request_header.simps net_involution unat_word_of_nat)
  show "unat (ntohl (req_bodylen (load_request p)) - unsigned (ntohs (req_keylen (load_request p))) - 8) = length data"
    using unat_datalen [of "ntohs (req_keylen (load_request p))" "ntohl (req_bodylen (load_request p))"] k b by simp
  show "length p = 32 + length key + length data" by (simp add: p_def storage_request_def)
qed

lemma set_handler_request:
  assumes "length key < 65536" and "length key + length data + 8 < 4294967296" and "v1_set cb = Some f"
  shows "set_command_handler cb (storage_request cmd key data flags exptime cas opaque) a c =
    (let (rval, result_cas, a') = f key data flags exptime cas a
     in respond (storage_request cmd key data flags exptime cas opaque) PROTOCOL_BINARY_CMD_SET
          (no_extras_response PROTOCOL_BINARY_CMD_SET opaque (memcached_ntohll result_cas)) rval a' c)"
proof -
  note parts = storage_request_parts [OF assms(1,2), where cmd = cmd and flags = flags and exptime = exptime and cas = cas and opaque = opaque]
  have "memcached_ntohll (req_cas (storage_header cmd (length key) (length data) cas opaque)) = cas"
    and "req_opaque (storage_header cmd (length key) (length data) cas opaque) = opaque"
    by (simp_all add: storage_header_def)
  then show ?thesis
    by (simp add: set_command_handler_def Let_def assms(3) parts(1-5) parts(6,7) [unfolded parts(1)])
qed

text \<open>An application for examples: it counts the values stored in it.\<close>

definition sample_v1 :: "nat callbacks_v1" where
  "sample_v1 =
     \<lparr>v1_add = None, v1_append = None, v1_decrement = None, v1_delete_object = None, v1_flush_object = None,
      v1_get = None, v1_increment = None, v1_noop = None, v1_prepend = None, v1_quit = None, v1_replace = None,
      v1_set = Some (\<lambda>_ _ _ _ _ a. (PROTOCOL_BINARY_RESPONSE_SUCCESS, 7, Suc a)), v1_stat = None, v1_version = None\<rparr>"

definition sample_cb :: "nat callback_st" where
  "sample_cb = \<lparr>interface_version = 1, pre_execute = None, post_execute = None, unknown = None,
     v0_comcode = (\<lambda>_. None), v1 = sample_v1\<rparr>"


subsection \<open>Responses\<close>

lemma drain_output_Nil: "cl_output c = [] \<Longrightarrow> drain_output c = Done (True, c)"
  by (subst drain_output.simps) simp

lemma load_response_response_bytes [simp]: "load_response (response_bytes h) = h"
  using load_response_bytes [of h "[]"] by simp

text \<open>
  C27: Pedantic mode lets the library's own answers pass.  For every request, the response check
  accepts every error packet \<open>execute_command\<close> builds and the positive answers to \<open>DELETE\<close>, \<open>FLUSH\<close>,
  \<open>NOOP\<close>, \<open>QUIT\<close> and \<open>STAT\<close>; it accepts a positive answer to a storage or counter command exactly
  when the application returned a CAS value other than zero.
\<close>

theorem pedantic_accepts_own_responses:
  "(\<forall>rval. rval \<noteq> PROTOCOL_BINARY_RESPONSE_SUCCESS \<longrightarrow>
      memcached_binary_protocol_pedantic_check_response (load_request packet) (load_response (error_response packet rval))) \<and>
   (\<forall>cmd \<in> {PROTOCOL_BINARY_CMD_DELETE, PROTOCOL_BINARY_CMD_FLUSH, PROTOCOL_BINARY_CMD_NOOP, PROTOCOL_BINARY_CMD_QUIT,
        PROTOCOL_BINARY_CMD_STAT}.
      memcached_binary_protocol_pedantic_check_response (load_request packet)
        (load_response (no_extras_response cmd (req_opaque (load_request packet)) 0))) \<and>
   (\<forall>cas. \<forall>cmd \<in> {PROTOCOL_BINARY_CMD_ADD, PROTOCOL_BINARY_CMD_REPLACE, PROTOCOL_BINARY_CMD_SET,
        PROTOCOL_BINARY_CMD_APPEND, PROTOCOL_BINARY_CMD_PREPEND}.
      memcached_binary_protocol_pedantic_check_response (load_request packet)
        (load_response (no_extras_response cmd (req_opaque (load_request packet)) (memcached_ntohll cas))) \<longleftrightarrow> cas \<noteq> 0) \<and>
   (\<forall>cas value. \<forall>cmd \<in> {PROTOCOL_BINARY_CMD_INCREMENT, PROTOCOL_BINARY_CMD_DECREMENT}.
      memcached_binary_protocol_pedantic_check_response (load_request packet)
        (load_response (counter_response cmd (req_opaque (load_request packet)) (memcached_ntohll cas) value)) \<longleftrightarrow> cas \<noteq> 0)"
  by (auto simp: memcached_binary_protocol_pedantic_check_response_def error_response_def no_extras_response_def
    counter_response_def response_header_def PROTOCOL_BINARY_RAW_BYTES_def Let_def)

theorem pedantic_accepts_own_responses_witness:
  "memcached_binary_protocol_pedantic_check_response (load_request [])
     (load_response (error_response [] PROTOCOL_BINARY_RESPONSE_KEY_ENOENT)) \<and>
   \<not> memcached_binary_protocol_pedantic_check_response (load_request [])
     (load_response (no_extras_response PROTOCOL_BINARY_CMD_SET (req_opaque (load_request [])) (memcached_ntohll 0)))"
  using pedantic_accepts_own_responses [of "[]"] by blast

text \<open>
  C28: A quiet command that succeeds is silent.  When the application's callback for a quiet
  storage, counter, delete or flush command reports success, executing the command returns success and
  leaves the client as it was: nothing is queued and nothing is sent.
\<close>

theorem quiet_success_silent:
  assumes "is_cmd (req_opcode (load_request packet)) [PROTOCOL_BINARY_CMD_ADDQ, PROTOCOL_BINARY_CMD_APPENDQ,
      PROTOCOL_BINARY_CMD_DECREMENTQ, PROTOCOL_BINARY_CMD_DELETEQ, PROTOCOL_BINARY_CMD_FLUSHQ,
      PROTOCOL_BINARY_CMD_INCREMENTQ, PROTOCOL_BINARY_CMD_PREPENDQ, PROTOCOL_BINARY_CMD_REPLACEQ, PROTOCOL_BINARY_CMD_SETQ]"
    and "interface_version cb = 1"
    and "dispatch_command cb packet (run_hook (pre_execute cb) (Some (message packet)) a) c =
      Done (PROTOCOL_BINARY_RESPONSE_SUCCESS, a', c')"
  shows "execute_command cb packet a c =
    Done (PROTOCOL_BINARY_RESPONSE_SUCCESS, run_hook (post_execute cb) (Some (message packet)) a', c)"
proof -
  have "c' = c"
    using assms
    by (auto simp: dispatch_command_def comcode_v0_v1_remap_def is_cmd_cases Let_def handler_defs respond_def obind_Done_iff
      case_prod_unfold split: option.splits if_splits)
  moreover have "obind (if cl_verbose c then print_cmd (req_opcode (load_request packet)) else Done PROTOCOL_BINARY_CMD_NOOP) f = f cmd"
    if "\<And>x. f x = f cmd" for f :: "protocol_binary_command \<Rightarrow> 'a result" and cmd
    using assms(1) that by (auto simp: print_cmd_def is_cmd_cases)
  ultimately show ?thesis
    using assms(3) by (simp add: execute_command_def Let_def call_unknown_def answer_error_def split: option.splits)
qed

theorem quiet_success_silent_witness:
  "execute_command sample_cb (storage_request PROTOCOL_BINARY_CMD_SETQ [107] [1, 2] 3 4 0 9) 0 sample_client =
     Done (PROTOCOL_BINARY_RESPONSE_SUCCESS, 1, sample_client)"
proof -
  let ?p = "storage_request PROTOCOL_BINARY_CMD_SETQ [107] [1, 2] 3 4 0 9"
  have op: "req_opcode (load_request ?p) = cmd_code PROTOCOL_BINARY_CMD_SETQ"
    by (simp add: storage_request_def storage_header_def)
  have "set_command_handler sample_v1 ?p 0 sample_client =
      respond ?p PROTOCOL_BINARY_CMD_SET (no_extras_response PROTOCOL_BINARY_CMD_SET 9 (memcached_ntohll 7))
        PROTOCOL_BINARY_RESPONSE_SUCCESS 1 sample_client"
    using set_handler_request [of "[107]" "[1, 2]" sample_v1 "\<lambda>_ _ _ _ _ a. (PROTOCOL_BINARY_RESPONSE_SUCCESS, 7, Suc a)"]
    by (simp add: sample_v1_def)
  then have "dispatch_command sample_cb ?p 0 sample_client = Done (PROTOCOL_BINARY_RESPONSE_SUCCESS, 1, sample_client)"
    by (simp add: dispatch_command_def Let_def comcode_v0_v1_remap_def op sample_cb_def respond_def)
  then show ?thesis
    using quiet_success_silent [of ?p sample_cb 0 sample_client 1 sample_client]
    by (simp add: op sample_cb_def run_hook_def)
qed

lemma spool_ready_io [simp]: "spool_ready n (c\<lparr>io_sends := x, io_sent := t\<rparr>) = spool_ready n c"
  unfolding spool_ready_def client_ok_def heaps_grant_def by (cases "cl_output c") simp_all

lemma spool_ready_mono: "spool_ready m c \<Longrightarrow> n \<le> m \<Longrightarrow> spool_ready n c"
  by (auto simp: spool_ready_def split: list.splits)

lemma raw_send_loop_blocked: "io_sends c = [] \<Longrightarrow> raw_send_loop pkt off c = (Some off, c)"
  by (subst raw_send_loop.simps) (simp add: sock_send_def)

lemma raw_send_loop_whole:
  "io_sends c = Sent n # rest \<Longrightarrow> length pkt - off \<le> n \<Longrightarrow> off \<le> length pkt \<Longrightarrow>
     raw_send_loop pkt off c = (Some (length pkt), c\<lparr>io_sends := rest, io_sent := io_sent c @ drop off pkt\<rparr>)"
  by (subst raw_send_loop.simps) (simp add: sock_send_def min_absorb2 Let_def)

lemma raw_send_loop_partial:
  "io_sends c = Sent n # rest \<Longrightarrow> off + n < length pkt \<Longrightarrow>
     raw_send_loop pkt off c = raw_send_loop pkt (off + n) (c\<lparr>io_sends := rest, io_sent := io_sent c @ take n (drop off pkt)\<rparr>)"
  by (subst raw_send_loop.simps) (simp add: sock_send_def min_absorb1 Let_def)

text \<open>
  C29: A response that the socket takes in one piece, or not at all, reaches the stream unchanged.
  With an empty output queue and room for the packet in a chunk, \<open>binary_raw_response_handler\<close>
  reports success and the stream grows by exactly the packet; when pedantic mode is on this
  holds for the responses its check accepts.
\<close>

theorem raw_response_sends_packet:
  assumes ready: "spool_ready (length r) c" and out: "cl_output c = []"
    and len: "length r = 24 + unat (htonl (res_bodylen (load_response r)))"
    and ped: "rt_pedantic c \<Longrightarrow> memcached_binary_protocol_pedantic_check_response (load_request packet) (load_response r)"
    and sock: "case io_sends c of [] \<Rightarrow> True | Sent n # _ \<Rightarrow> length r \<le> n | _ \<Rightarrow> False"
  shows "\<exists>c'. binary_raw_response_handler packet (Some r) c = Done (PROTOCOL_BINARY_RESPONSE_SUCCESS, c') \<and>
    stream c' = stream c @ r \<and> frame c' = frame c"
proof (cases "io_sends c")
  case Nil
  obtain c' where "spool_output r c = Done (PROTOCOL_BINARY_RESPONSE_SUCCESS, c')" "stream c' = stream c @ r" "frame c' = frame c"
    using out.spool_appends [OF ready] by auto
  with Nil out len ped show ?thesis
    by (auto simp: binary_raw_response_handler_def drain_output_Nil raw_send_loop_blocked Let_def)
next
  case (Cons x rest)
  with sock obtain n where n: "io_sends c = Sent n # rest" "length r \<le> n" by (cases x) auto
  let ?c = "c\<lparr>io_sends := rest, io_sent := io_sent c @ r\<rparr>"
  have "spool_ready 0 ?c" using spool_ready_mono [OF ready] by simp
  then have "spool_output [] ?c = Done (PROTOCOL_BINARY_RESPONSE_SUCCESS, ?c)"
    by (simp add: spool_output_def spool_loop_done spool_ready_def)
  with n out len ped show ?thesis
    by (auto simp: binary_raw_response_handler_def drain_output_Nil raw_send_loop_whole Let_def stream_def queue_bytes_def)
qed

lemma sample_client_ready: "n \<le> 2048 \<Longrightarrow> spool_ready n (sample_client\<lparr>io_sends := x\<rparr>)"
  using sample_client_ok
  by (simp add: spool_ready_def sample_client_def heaps_grant_def small_heap_def CHUNK_BUFFERSIZE_def client_ok_def)

lemma no_extras_response_length:
  "length (no_extras_response cmd opaque cas) = 24"
  "res_bodylen (load_response (no_extras_response cmd opaque cas)) = 0"
  by (simp_all add: no_extras_response_def response_header_def)

theorem raw_response_sends_packet_witness:
  "\<exists>c'. binary_raw_response_handler [] (Some (no_extras_response PROTOCOL_BINARY_CMD_NOOP 1 0)) (sample_client\<lparr>io_sends := [Sent 30]\<rparr>) =
       Done (PROTOCOL_BINARY_RESPONSE_SUCCESS, c') \<and> stream c' = no_extras_response PROTOCOL_BINARY_CMD_NOOP 1 0"
  using raw_response_sends_packet [of "no_extras_response PROTOCOL_BINARY_CMD_NOOP 1 0" "sample_client\<lparr>io_sends := [Sent 30]\<rparr>" "[]"]
    sample_client_ready [of 24]
  by (auto simp: no_extras_response_length stream_def queue_bytes_def sample_client_def)

text \<open>
  C30: After a partial write the rest of a response is lost.  When the socket takes only the first
  \<open>n\<close> bytes of the packet, what \<open>binary_raw_response_handler\<close> queues is the beginning of the packet
  again, as many bytes as are still missing, although it reports success.
\<close>

theorem raw_response_partial_write:
  assumes ready: "spool_ready (length r) c" and out: "cl_output c = []"
    and len: "length r = 24 + unat (htonl (res_bodylen (load_response r)))" and ped: "\<not> rt_pedantic c"
    and sock: "io_sends c = [Sent n]" and n: "n < length r"
  shows "\<exists>c'. binary_raw_response_handler packet (Some r) c = Done (PROTOCOL_BINARY_RESPONSE_SUCCESS, c') \<and>
    stream c' = stream c @ take n r @ take (length r - n) r"
proof -
  let ?c = "c\<lparr>io_sends := [], io_sent := io_sent c @ take n r\<rparr>"
  have "spool_ready (length r) ?c" using ready by simp
  then obtain c' where "spool_output (take (length r - n) r) ?c = Done (PROTOCOL_BINARY_RESPONSE_SUCCESS, c')"
      "stream c' = stream ?c @ take (length r - n) r"
    using out.spool_appends [of "length r" ?c "take (length r - n) r"] by auto
  with sock n out len ped show ?thesis
    by (auto simp: binary_raw_response_handler_def drain_output_Nil raw_send_loop_partial raw_send_loop_blocked Let_def
      stream_def queue_bytes_def)
qed

theorem raw_response_partial_write_witness:
  "\<exists>c'. binary_raw_response_handler [] (Some (no_extras_response PROTOCOL_BINARY_CMD_NOOP 1 0)) (sample_client\<lparr>io_sends := [Sent 10]\<rparr>) =
       Done (PROTOCOL_BINARY_RESPONSE_SUCCESS, c') \<and>
     stream c' = take 10 (no_extras_response PROTOCOL_BINARY_CMD_NOOP 1 0) @ take 14 (no_extras_response PROTOCOL_BINARY_CMD_NOOP 1 0)"
  using raw_response_partial_write [of "no_extras_response PROTOCOL_BINARY_CMD_NOOP 1 0" "sample_client\<lparr>io_sends := [Sent 10]\<rparr>" 10 "[]"]
    sample_client_ready [of 24]
  by (auto simp: no_extras_response_length stream_def queue_bytes_def sample_client_def)

text \<open>
  C31: The length fields of a request are not checked before use.  A \<open>SET\<close> packet whose body is
  shorter than its key and extras makes the data length wrap around, and the range handed to the
  application's callback leaves the input buffer of one mebibyte.
\<close>

theorem set_short_body_faults:
  assumes "length packet \<le> 1024 * 1024" and "v1_set cb = Some f"
    and short: "unat (ntohl (req_bodylen (load_request packet))) < unat (ntohs (req_keylen (load_request packet))) + 8"
  shows "set_command_handler cb packet a c = Fault"
proof -
  define b where "b = ntohl (req_bodylen (load_request packet))"
  define k where "k = ntohs (req_keylen (load_request packet))"
  have k: "unat k < 65536" by (rule unat_bounds(2))
  have "unat (unsigned k + 8 :: u32) = unat k + 8" using k by (simp add: unat_word_ariths unat_widen)
  then have less: "b < unsigned k + 8" using short by (simp add: word_less_nat_alt b_def k_def)
  have "unat (b - (unsigned k + 8)) = unat b + 2 ^ 32 - (unat k + 8)"
    using short k less \<open>unat (unsigned k + 8 :: u32) = unat k + 8\<close>
    by (simp add: unat_sub_if_size word_le_nat_alt b_def k_def word_size not_le)
  then have "1024 * 1024 < unat (b - unsigned k - 8)" using k by (simp add: diff_diff_eq)
  then have "read_at packet (32 + unat k) (unat (b - unsigned k - 8)) = Fault"
    using assms(1) by (simp add: read_at_def)
  then show ?thesis
    using assms(2)
    by (auto simp: set_command_handler_def Let_def b_def k_def read32_def read_at_def)
qed

theorem set_short_body_faults_witness:
  "set_command_handler sample_v1 (request_bytes ((storage_header PROTOCOL_BINARY_CMD_SET 1 0 0 0)\<lparr>req_bodylen := 0\<rparr>)) 0 sample_client = Fault"
proof -
  let ?h = "(storage_header PROTOCOL_BINARY_CMD_SET 1 0 0 0)\<lparr>req_bodylen := 0\<rparr>"
  have "load_request (request_bytes ?h) = ?h" using load_request_bytes [of ?h "[]"] by simp
  then show ?thesis
    by (intro set_short_body_faults) (simp_all add: sample_v1_def storage_header_def)
qed

end
