(* ===== verification/Binary_Framing.thy ===== *)
theory Binary_Framing
  imports Binary_Handler
begin

text \<open>
  The loop over the packets of a buffer refines a function of the received bytes.  The loop works
  in place: it walks through the input buffer, and moves the rest of the input to its front
  whenever the next packet is not aligned.  The reference cuts the packets off a list of bytes.
  First, no operation on a client depends on the input buffer, so moving bytes in it has no other
  effect; then the two agree on every input whose packets are legal.
\<close>

subsection \<open>Independence of the input buffer\<close>

lemma obind_map: "obind (map_outcome f m) g = obind m (\<lambda>x. g (f x))"
  by (cases m) simp_all

lemma map_obind: "map_outcome f (obind m g) = obind m (\<lambda>x. map_outcome f (g x))"
  by (cases m) simp_all

text \<open>An update of the input buffer moves past the other updates.\<close>

lemma input_last:
  "c\<lparr>rt_input := x, cl_output := q\<rparr> = c\<lparr>cl_output := q, rt_input := x\<rparr>"
  "c\<lparr>rt_input := x, rt_cache := k\<rparr> = c\<lparr>rt_cache := k, rt_input := x\<rparr>"
  "c\<lparr>rt_input := x, io_mallocs := h\<rparr> = c\<lparr>io_mallocs := h, rt_input := x\<rparr>"
  "c\<lparr>rt_input := x, cl_error := e\<rparr> = c\<lparr>cl_error := e, rt_input := x\<rparr>"
  "c\<lparr>rt_input := x, cl_command := r\<rparr> = c\<lparr>cl_command := r, rt_input := x\<rparr>"
  by simp_all

lemma sock_send_input: "sock_send buf (c\<lparr>rt_input := x\<rparr>) = apsnd (rt_input_update (\<lambda>_. x)) (sock_send buf c)"
  by (simp add: sock_send_def Let_def split: list.split send_result.split)

lemma next_heap_input [simp]: "next_heap (c\<lparr>rt_input := x\<rparr>) = next_heap c"
  by (simp add: next_heap_def)

lemma release_chunk_input:
  "release_chunk k (c\<lparr>rt_input := x\<rparr>) = map_outcome (rt_input_update (\<lambda>_. x)) (release_chunk k c)"
  by (cases "cache_free (rt_ndebug c) False (next_heap c) (chunk_raw k) (rt_cache c)")
    (simp_all add: release_chunk_def case_prod_unfold)

lemma drain_output_input:
  "drain_output (c\<lparr>rt_input := x\<rparr>) = map_outcome (apsnd (rt_input_update (\<lambda>_. x))) (drain_output c)"
proof (induction c rule: drain_output.induct)
  case (1 c)
  show ?case
  proof (cases "cl_output c")
    case Nil
    then show ?thesis by (subst (1 2) drain_output.simps) simp
  next
    case (Cons k rest)
    let ?buf = "segment (chunk_offset k) (chunk_nbytes k - chunk_offset k) (chunk_data k)"
    obtain r c1 where send: "sock_send ?buf c = (r, c1)" by fastforce
    show ?thesis
    proof (cases r)
      case (Send_error e)
      with send Cons 1(1) [OF Cons send [symmetric] Send_error] show ?thesis
        by (subst (1 2) drain_output.simps) (simp add: sock_send_input input_last)
    next
      case (Sent n)
      define k1 where "k1 = k\<lparr>chunk_offset := chunk_offset k + n\<rparr>"
      have sel: "chunk_offset k1 = chunk_nbytes k1 \<longleftrightarrow> chunk_offset k + n = chunk_nbytes k" by (simp add: k1_def)
      show ?thesis
      proof (cases "chunk_offset k1 = chunk_nbytes k1")
        case True
        have rel: "release_chunk k1 (c1\<lparr>cl_output := rest, rt_input := x\<rparr>) =
            map_outcome (rt_input_update (\<lambda>_. x)) (release_chunk k1 (c1\<lparr>cl_output := rest\<rparr>))"
          using release_chunk_input [of k1 x "c1\<lparr>cl_output := rest\<rparr>"] by simp
        show ?thesis
        proof (cases "release_chunk k1 (c1\<lparr>cl_output := rest\<rparr>)")
          case Fault
          with rel True Sent send Cons k1_def show ?thesis
            by (subst (1 2) drain_output.simps) (simp add: sock_send_input input_last Let_def)
        next
          case (Done c2)
          with rel True Sent send Cons k1_def 1(2) [OF Cons send [symmetric] Sent k1_def True Done] show ?thesis
            by (subst (1 2) drain_output.simps) (simp add: sock_send_input input_last Let_def)
        qed
      next
        case False
        with Sent send Cons k1_def 1(3) [OF Cons send [symmetric] Sent k1_def False] show ?thesis
          by (subst (1 2) drain_output.simps) (simp add: sock_send_input input_last Let_def)
      qed
    qed
  qed
qed

lemma allocate_output_chunk_input:
  "allocate_output_chunk (c\<lparr>rt_input := x\<rparr>) = apsnd (rt_input_update (\<lambda>_. x)) (allocate_output_chunk c)"
  by (simp add: allocate_output_chunk_def chunk_prefix_size_def Let_def split: prod.split option.split)

lemma spool_copy_input:
  "spool_copy data bulk i (c\<lparr>rt_input := x\<rparr>) = map_outcome (rt_input_update (\<lambda>_. x)) (spool_copy data bulk i c)"
  by (simp add: spool_copy_def Let_def)

lemma spool_loop_input:
  "spool_loop data off chunk (c\<lparr>rt_input := x\<rparr>) = map_outcome (apsnd (rt_input_update (\<lambda>_. x))) (spool_loop data off chunk c)"
proof (induction data off chunk c rule: spool_loop.induct)
  case (1 data off chunk c)
  show ?case
  proof (cases "off < length data")
    case False
    then show ?thesis by (simp add: spool_loop_done)
  next
    case True
    let ?sel = "\<lambda>c. case chunk of
        None \<Rightarrow> apfst (\<lambda>ok. if ok then Some (length (cl_output c)) else None) (allocate_output_chunk c)
      | Some i \<Rightarrow> if chunk_room (cl_output c ! i) = 0
          then apfst (\<lambda>ok. if ok then Some (length (cl_output c)) else None) (allocate_output_chunk c)
          else (Some i, c)"
    obtain o1 c2 where sel: "?sel c = (o1, c2)" by fastforce
    have selx: "?sel (c\<lparr>rt_input := x\<rparr>) = (o1, c2\<lparr>rt_input := x\<rparr>)"
      using sel by (auto simp: allocate_output_chunk_input case_prod_unfold apfst_def apsnd_def map_prod_def
        split: option.splits if_splits)
    show ?thesis
    proof (cases o1)
      case None
      with True sel selx show ?thesis by (subst (1 2) spool_loop.simps) simp
    next
      case (Some i)
      let ?bulk = "min (length data - off) (chunk_room (cl_output c2 ! i))"
      show ?thesis
      proof (cases "spool_copy data ?bulk i c2")
        case Fault
        with True sel selx Some show ?thesis
          by (subst (1 2) spool_loop.simps) (simp add: Let_def spool_copy_input)
      next
        case (Done c3)
        with 1 [OF True sel [symmetric] Some refl Done] True sel selx Some show ?thesis
          by (subst (1 2) spool_loop.simps) (simp add: Let_def spool_copy_input)
      qed
    qed
  qed
qed

lemma spool_output_input:
  "spool_output data (c\<lparr>rt_input := x\<rparr>) = map_outcome (apsnd (rt_input_update (\<lambda>_. x))) (spool_output data c)"
  by (simp add: spool_output_def spool_loop_input)

lemma spool_seq_input:
  "spool_seq spool_output ds (c\<lparr>rt_input := x\<rparr>) = map_outcome (apsnd (rt_input_update (\<lambda>_. x))) (spool_seq spool_output ds c)"
proof (induction ds arbitrary: c)
  case (Cons d ds)
  then show ?case by (cases "spool_output d c") (auto simp: spool_output_input)
qed simp

lemma raw_send_loop_input:
  "raw_send_loop pkt off (c\<lparr>rt_input := x\<rparr>) = apsnd (rt_input_update (\<lambda>_. x)) (raw_send_loop pkt off c)"
proof (induction pkt off c rule: raw_send_loop.induct)
  case (1 pkt off c)
  obtain r c1 where send: "sock_send (drop off pkt) c = (r, c1)" by fastforce
  with 1 show ?case
    by (cases r; subst (1 2) raw_send_loop.simps) (simp_all add: sock_send_input input_last)
qed

lemma binary_raw_response_handler_input:
  "binary_raw_response_handler p r (c\<lparr>rt_input := x\<rparr>) =
     map_outcome (apsnd (rt_input_update (\<lambda>_. x))) (binary_raw_response_handler p r c)"
proof (cases r)
  case None
  then show ?thesis
    by (cases "drain_output c") (auto simp: binary_raw_response_handler_def drain_output_input split: prod.split)
next
  case (Some bs)
  show ?thesis
  proof (cases "drain_output c")
    case (Done res)
    obtain ok c1 where res: "res = (ok, c1)" by fastforce
    obtain off c2 where "raw_send_loop (take (24 + unat (htonl (res_bodylen (load_response bs)))) bs) 0 c1 = (off, c2)" by fastforce
    with Done res Some show ?thesis
      by (cases off)
        (simp_all add: binary_raw_response_handler_def drain_output_input raw_send_loop_input spool_output_input Let_def)
  qed (simp add: binary_raw_response_handler_def drain_output_input Some)
qed

lemma response_handlers_input:
  "get_response_handler item (c\<lparr>rt_input := x\<rparr>) = map_outcome (apsnd (rt_input_update (\<lambda>_. x))) (get_response_handler item c)"
  "stat_response_handler st (c\<lparr>rt_input := x\<rparr>) = map_outcome (apsnd (rt_input_update (\<lambda>_. x))) (stat_response_handler st c)"
  "version_response_handler t (c\<lparr>rt_input := x\<rparr>) = map_outcome (apsnd (rt_input_update (\<lambda>_. x))) (version_response_handler t c)"
  by (simp_all add: get_response_handler_def stat_response_handler_def version_response_handler_def Let_def
    spool_seq_input del: spool_seq.simps)

abbreviation set_input :: "bytes \<Rightarrow> protocol_binary_response_status \<times> 'a \<times> client \<Rightarrow> protocol_binary_response_status \<times> 'a \<times> client" where
  "set_input x \<equiv> apsnd (apsnd (rt_input_update (\<lambda>_. x)))"

lemma run_app_input:
  assumes "\<And>r c. h r (c\<lparr>rt_input := x\<rparr>) = map_outcome (apsnd (rt_input_update (\<lambda>_. x))) (h r c)"
  shows "run_app h t (c\<lparr>rt_input := x\<rparr>) = map_outcome (set_input x) (run_app h t c)"
proof (induction t arbitrary: c)
  case (Call r k)
  then show ?case by (cases "h r c") (auto simp: assms)
qed simp

lemmas run_app_inputs =
  run_app_input [of get_response_handler, OF response_handlers_input(1)]
  run_app_input [of stat_response_handler, OF response_handlers_input(2)]
  run_app_input [of version_response_handler, OF response_handlers_input(3)]
  run_app_input [of "binary_raw_response_handler p" for p, OF binary_raw_response_handler_input]

lemma respond_input:
  "respond p cmd r rval a (c\<lparr>rt_input := x\<rparr>) = map_outcome (set_input x) (respond p cmd r rval a c)"
  by (cases "binary_raw_response_handler p (Some r) c") (auto simp: respond_def binary_raw_response_handler_input)

lemma if_outcome: "map_outcome f (if b then m else n) = (if b then map_outcome f m else map_outcome f n)"
  by simp

lemma handlers_input:
  "comcode_v0_v1_remap cc = Some handler \<Longrightarrow>
     handler cb p a (c\<lparr>rt_input := x\<rparr>) = map_outcome (set_input x) (handler cb p a c)"
  by (auto simp: comcode_v0_v1_remap_def handler_defs respond_input run_app_inputs binary_raw_response_handler_input
    obind_map map_obind if_outcome case_prod_unfold Let_def cong: if_cong split: if_splits option.split)

lemma dispatch_command_input:
  "dispatch_command cb p a (c\<lparr>rt_input := x\<rparr>) = map_outcome (set_input x) (dispatch_command cb p a c)"
  by (auto simp: dispatch_command_def handlers_input run_app_inputs Let_def split: option.split)

lemma call_unknown_input:
  "call_unknown cb p rval a (c\<lparr>rt_input := x\<rparr>) = map_outcome (set_input x) (call_unknown cb p rval a c)"
  by (simp add: call_unknown_def run_app_inputs split: option.split)

lemma answer_error_input:
  "answer_error p rval a (c\<lparr>rt_input := x\<rparr>) = map_outcome (set_input x) (answer_error p rval a c)"
  by (simp add: answer_error_def binary_raw_response_handler_input obind_map map_obind case_prod_unfold)

lemma execute_command_input:
  "execute_command cb p a (c\<lparr>rt_input := x\<rparr>) = map_outcome (set_input x) (execute_command cb p a c)"
  by (simp add: execute_command_def dispatch_command_input call_unknown_input answer_error_input
    obind_map map_obind case_prod_unfold Let_def)

lemma execute_command_keeps_input:
  assumes "execute_command cb p a c = Done (rv, a', c')"
  shows "rt_input c' = rt_input c"
  using execute_command_input [of cb p a "rt_input c" c] assms by (auto dest: arg_cong [of _ _ rt_input])


subsection \<open>The reference\<close>

text \<open>
  The bytes received so far start with a complete packet.
\<close>

definition complete_packet :: "bytes \<Rightarrow> bool" where
  "complete_packet bs \<longleftrightarrow> 24 \<le> length bs \<and> packet_size bs \<le> length bs"

function run_packets :: "'a callback_st \<Rightarrow> bytes \<Rightarrow> 'a \<Rightarrow> client \<Rightarrow> (u32 \<times> bytes \<times> 'a \<times> client) outcome" where
  "run_packets cb bs a c =
     (if complete_packet bs then
        (let p = take (packet_size bs) bs
         in obind (execute_command cb p a (c\<lparr>cl_command := load_request p\<rparr>)) (\<lambda>(rv, a1, c1).
              if rv = PROTOCOL_BINARY_RESPONSE_EINTERNAL then Done (MEMCACHED_PROTOCOL_ERROR_EVENT, bs, a1, c1)
              else if rv = PROTOCOL_BINARY_RESPONSE_NOT_SUPPORTED then Done (MEMCACHED_PROTOCOL_PAUSE_EVENT, bs, a1, c1)
              else run_packets cb (drop (packet_size bs) bs) a1 c1))
      else Done (MEMCACHED_PROTOCOL_READ_EVENT, bs, a, c))"
  by pat_completeness auto

termination
  by (relation "measure (\<lambda>(_, bs, _). length bs)") (auto simp: complete_packet_def packet_size_def)

declare run_packets.simps [simp del]

function legal_input :: "bytes \<Rightarrow> bool" where
  "legal_input bs \<longleftrightarrow>
     (complete_packet bs \<longrightarrow>
        memcached_binary_protocol_pedantic_check_request (load_request bs) \<and> legal_input (drop (packet_size bs) bs))"
  by pat_completeness auto

termination
  by (relation "measure length") (auto simp: complete_packet_def packet_size_def)

declare legal_input.simps [simp del]

lemma packet_size_take: "24 \<le> n \<Longrightarrow> n \<le> length bs \<Longrightarrow> packet_size (take n bs) = packet_size bs"
  using load_request_append [of "take n bs" "drop n bs"] by (simp add: packet_size_def)

lemma packet_size_append: "24 \<le> length bs \<Longrightarrow> packet_size (bs @ junk) = packet_size bs"
  by (simp add: packet_size_def load_request_append)

lemma legal_message_take:
  assumes "complete_packet bs" and "memcached_binary_protocol_pedantic_check_request (load_request bs)"
  shows "legal_message (take (packet_size bs) bs)"
proof -
  have "24 \<le> packet_size bs" by (simp add: packet_size_def)
  with assms have "packet_size (take (packet_size bs) bs) = packet_size bs"
    and "load_request (take (packet_size bs) bs) = load_request bs"
    using packet_size_take [of "packet_size bs" bs] load_request_append [of "take (packet_size bs) bs" "drop (packet_size bs) bs"]
    by (simp_all add: complete_packet_def)
  with assms \<open>24 \<le> packet_size bs\<close> show ?thesis by (simp add: legal_message_def complete_packet_def)
qed


subsection \<open>The loop refines the reference\<close>

text \<open>How the result of the loop relates to that of the reference.\<close>

definition agrees :: "nat option \<Rightarrow> 'a processed outcome \<Rightarrow> (u32 \<times> bytes \<times> 'a \<times> client) outcome \<Rightarrow> bool" where
  "agrees e r s \<longleftrightarrow>
     (case s of
        Fault \<Rightarrow> r = Fault
      | Done (ev, left, a, c) \<Rightarrow>
          (\<exists>q. r = Done q \<and> ev_event q = ev \<and> ev_length q = length left \<and> ev_app q = a \<and>
             ev_client q = c\<lparr>rt_input := rt_input (ev_client q)\<rparr> \<and>
             (ev_endptr q = None \<and> e = None \<or>
              (\<exists>h. ev_endptr q = Some h \<and> segment h (length left) (rt_input (ev_client q)) = left))))"

lemma next_packet_spec:
  assumes "drop header (rt_input c) = bs @ junk" and "n \<le> length bs" and "next_packet header n (length bs - n) c = (h, c')"
  shows "\<exists>junk'. drop h (rt_input c') = (if n < length bs then drop n bs @ junk' else bs @ junk)"
    and "c' = c\<lparr>rt_input := rt_input c'\<rparr>"
proof -
  have dropn: "drop (header + n) (rt_input c) = drop n bs @ junk"
    using arg_cong [OF assms(1), of "drop n"] assms(2) by (simp add: add.commute)
  show "\<exists>junk'. drop h (rt_input c') = (if n < length bs then drop n bs @ junk' else bs @ junk)"
    using assms dropn by (auto simp: next_packet_def segment_def split: if_splits)
  show "c' = c\<lparr>rt_input := rt_input c'\<rparr>"
    using assms(3) by (auto simp: next_packet_def split: if_splits)
qed

lemma run_packets_input:
  "run_packets cb bs a (c\<lparr>rt_input := x\<rparr>) =
     map_outcome (apsnd (apsnd (apsnd (rt_input_update (\<lambda>_. x))))) (run_packets cb bs a c)"
proof (induction cb bs a c rule: run_packets.induct)
  case (1 cb bs a c)
  show ?case
  proof (cases "complete_packet bs")
    case False
    then show ?thesis by (subst (1 2) run_packets.simps) simp
  next
    case True
    let ?p = "take (packet_size bs) bs"
    show ?thesis
    proof (cases "execute_command cb ?p a (c\<lparr>cl_command := load_request ?p\<rparr>)")
      case Fault
      with True show ?thesis
        by (subst (1 2) run_packets.simps) (simp add: Let_def input_last execute_command_input)
    next
      case (Done res)
      obtain rv a1 c1 where res: "res = (rv, a1, c1)" by (cases res)
      with 1 [OF True refl Done [unfolded res] refl refl] True Done show ?thesis
        by (subst (1 2) run_packets.simps) (simp add: Let_def input_last execute_command_input)
    qed
  qed
qed

lemma agrees_map:
  "agrees (Some h) r (map_outcome (apsnd (apsnd (apsnd (rt_input_update (\<lambda>_. x))))) s) \<Longrightarrow> agrees e r s"
  by (cases s) (auto simp: agrees_def)

lemma binary_loop_agrees:
  assumes "drop header (rt_input c) = bs @ junk" and "legal_input bs" and "e = None \<or> e = Some header"
  shows "agrees e (binary_loop cb header (length bs) (length bs) e a c) (run_packets cb bs a c)"
  using assms
proof (induction "length bs" arbitrary: bs header junk e a c rule: less_induct)
  case less
  have here: "segment header (length bs) (rt_input c) = bs" using less.prems(1) by (simp add: segment_def)
  show ?case
  proof (cases "complete_packet bs")
    case False
    then have "\<not> (24 \<le> length bs \<and> packet_size (bs @ junk) \<le> length bs)"
      by (auto simp: complete_packet_def packet_size_append)
    with False here less.prems show ?thesis
      by (subst binary_loop.simps, subst run_packets.simps) (auto simp: agrees_def Let_def)
  next
    case True
    define n where "n = packet_size bs"
    have n: "24 \<le> n" "n \<le> length bs" using True by (simp_all add: complete_packet_def n_def packet_size_def)
    have size: "packet_size (bs @ junk) = n" using True by (simp add: complete_packet_def n_def packet_size_append)
    have legal: "legal_message (take n bs)" "legal_input (drop n bs)"
      using less.prems(2) True legal_message_take [OF True] by (subst (asm) legal_input.simps, simp add: n_def)+
    let ?c = "c\<lparr>cl_command := load_request (take n bs)\<rparr>"
    have split: "bs @ junk = take n bs @ (drop n bs @ junk)" by simp
    have exec: "execute_command cb (bs @ junk) = execute_command cb (take n bs)"
      unfolding split by (rule execute_command_append [OF legal(1)])
    have hdr: "load_request (bs @ junk) = load_request (take n bs)"
      unfolding split using n by (intro load_request_append) simp
    have loop: "binary_loop cb header (length bs) (length bs) e a c =
        obind (execute_command cb (take n bs) a ?c) (\<lambda>(rv, a1, c1).
          if rv = PROTOCOL_BINARY_RESPONSE_EINTERNAL then
            Done \<lparr>ev_event = MEMCACHED_PROTOCOL_ERROR_EVENT, ev_length = length bs, ev_endptr = Some header, ev_app = a1, ev_client = c1\<rparr>
          else if rv = PROTOCOL_BINARY_RESPONSE_NOT_SUPPORTED then
            Done \<lparr>ev_event = MEMCACHED_PROTOCOL_PAUSE_EVENT, ev_length = length bs, ev_endptr = e, ev_app = a1, ev_client = c1\<rparr>
          else (let (h, c2) = next_packet header n (length bs - n) c1
                in binary_loop cb h (length bs - n) (length bs - n) (Some h) a1 c2))"
      using n by (subst binary_loop.simps) (simp add: less.prems(1) size exec hdr Let_def cong: if_cong prod.case_cong)
    have ref: "run_packets cb bs a c =
        obind (execute_command cb (take n bs) a ?c) (\<lambda>(rv, a1, c1).
          if rv = PROTOCOL_BINARY_RESPONSE_EINTERNAL then Done (MEMCACHED_PROTOCOL_ERROR_EVENT, bs, a1, c1)
          else if rv = PROTOCOL_BINARY_RESPONSE_NOT_SUPPORTED then Done (MEMCACHED_PROTOCOL_PAUSE_EVENT, bs, a1, c1)
          else run_packets cb (drop n bs) a1 c1)"
      unfolding n_def using True by (subst run_packets.simps) (simp add: Let_def)
    show ?thesis
    proof (cases "execute_command cb (take n bs) a ?c")
      case Fault
      then show ?thesis unfolding loop ref by (simp add: agrees_def)
    next
      case (Done res)
      obtain rv a1 c1 where res: "res = (rv, a1, c1)" by (cases res)
      have same: "rt_input c1 = rt_input c"
        using execute_command_keeps_input [OF Done [unfolded res]] by simp
      show ?thesis
      proof (cases "rv \<in> {PROTOCOL_BINARY_RESPONSE_EINTERNAL, PROTOCOL_BINARY_RESPONSE_NOT_SUPPORTED}")
        case True
        with Done res here same less.prems(3) show ?thesis unfolding loop ref by (auto simp: agrees_def)
      next
        case False
        obtain h c2 where np: "next_packet header n (length bs - n) c1 = (h, c2)" by fastforce
        have "drop header (rt_input c1) = bs @ junk" using less.prems(1) same by simp
        note spec = next_packet_spec [OF this n(2) np]
        obtain junk' where at: "drop h (rt_input c2) = drop n bs @ junk'"
          using spec(1) n by (cases "n < length bs") auto
        have "agrees (Some h) (binary_loop cb h (length (drop n bs)) (length (drop n bs)) (Some h) a1 c2) (run_packets cb (drop n bs) a1 c2)"
          using less.hyps [OF _ at legal(2)] n by simp
        moreover have "run_packets cb (drop n bs) a1 c2 =
            map_outcome (apsnd (apsnd (apsnd (rt_input_update (\<lambda>_. rt_input c2))))) (run_packets cb (drop n bs) a1 c1)"
          using run_packets_input [of cb "drop n bs" a1 "rt_input c2" c1] spec(2) by simp
        ultimately show ?thesis
          using Done res False np unfolding loop ref by (auto intro: agrees_map)
      qed
    qed
  qed
qed

text \<open>
  C5: The packet loop implements the protocol's framing.  Let the input buffer hold the bytes \<open>bs\<close>,
  whose first byte is the request magic and whose complete packets are legal.  Then
  \<open>memcached_binary_protocol_process_data\<close> executes exactly the complete packets of \<open>bs\<close>, each on its
  own bytes and in order, until one pauses or closes the connection: it returns the event, the
  application state and the client of the reference that cuts packets off the list \<open>bs\<close>, reports as
  many bytes left as the reference leaves, and \<open>endptr\<close>, where it is written, points at them.  Where
  the packets lie, how they are aligned and what follows them in the buffer makes no difference.
\<close>

theorem process_data_refines_packets:
  assumes "rt_input c = bs @ junk" and "legal_input bs" and "req_magic (load_request (rt_input c)) = PROTOCOL_BINARY_REQ"
  shows "agrees None (memcached_binary_protocol_process_data cb (length bs) a c) (run_packets cb bs a c)"
  using assms binary_loop_agrees [of 0 c bs junk None]
  by (simp add: memcached_binary_protocol_process_data_def)

lemma legal_input_Nil: "legal_input []"
  by (subst legal_input.simps) (simp add: complete_packet_def)

lemma legal_input_append:
  assumes "legal_message p" and "legal_input bs"
  shows "legal_input (p @ bs)"
proof -
  note l = legal_message_lengths [OF assms(1)]
  have "packet_size (p @ bs) = length p" using l by (simp add: load_request_append packet_size_def)
  with assms l show ?thesis
    by (subst legal_input.simps) (simp add: legal_message_def load_request_append)
qed

lemma storage_request_legal:
  assumes key: "length key < 65536" "0 < length key" and len: "length key + length data + 8 < 4294967296"
    and cmd: "cmd \<in> {PROTOCOL_BINARY_CMD_SET, PROTOCOL_BINARY_CMD_SETQ}"
  shows "legal_message (storage_request cmd key data flags exptime cas opaque)"
proof -
  let ?p = "storage_request cmd key data flags exptime cas opaque"
  let ?h = "storage_header cmd (length key) (length data) cas opaque"
  note parts = storage_request_parts [OF key(1) len, where cmd = cmd and flags = flags and exptime = exptime and cas = cas and opaque = opaque]
  have body: "unat (ntohl (req_bodylen ?h)) = length key + length data + 8"
    using len by (simp only: storage_header_def protocol_binary_request_header.simps net_involution unat_word_of_nat)
  have klen: "unat (ntohs (req_keylen ?h)) = length key" using parts(1,6) by simp
  have size: "length ?p = packet_size ?p" by (simp only: packet_size_def parts(1,8) body)
  have vb: "request_bytes ?h ! 6 = 0" "request_bytes ?h ! 7 = 0"
    by (simp_all add: request_bytes_def storage_header_def nth_append le_store_def)
  have pos: "ntohs (req_keylen ?h) > 0" using klen key(2) by (simp add: word_less_nat_alt)
  have "unat (unsigned (ntohs (req_keylen ?h)) + 8 :: u32) = length key + 8"
    using klen key(1) by (simp add: unat_word_ariths unat_widen)
  then have fits: "unsigned (ntohs (req_keylen ?h)) + 8 \<le> ntohl (req_bodylen ?h)"
    using body by (simp add: word_le_nat_alt)
  have "memcached_binary_protocol_pedantic_check_request ?h"
    using cmd vb pos fits
    unfolding memcached_binary_protocol_pedantic_check_request_def Let_def
    by (auto simp: storage_header_def PROTOCOL_BINARY_RAW_BYTES_def)
  with parts(1,8) size show ?thesis by (simp add: legal_message_def)
qed

definition two_sets :: bytes where
  "two_sets =
     storage_request PROTOCOL_BINARY_CMD_SETQ [107] [1, 2] 3 4 0 9 @ storage_request PROTOCOL_BINARY_CMD_SETQ [107, 108] [] 3 4 0 9"

theorem process_data_refines_packets_witness:
  "agrees None (memcached_binary_protocol_process_data sample_cb (length two_sets) 0 (sample_client\<lparr>rt_input := two_sets @ [0, 0, 0]\<rparr>))
     (run_packets sample_cb two_sets 0 (sample_client\<lparr>rt_input := two_sets @ [0, 0, 0]\<rparr>))"
proof -
  have "legal_input two_sets"
    using legal_input_append [OF storage_request_legal legal_input_append [OF storage_request_legal legal_input_Nil]]
    by (simp add: two_sets_def)
  moreover have "req_magic (load_request (two_sets @ [0, 0, 0])) = PROTOCOL_BINARY_REQ"
    by (simp add: two_sets_def storage_request_def storage_header_def)
  ultimately show ?thesis
    using process_data_refines_packets [of "sample_client\<lparr>rt_input := two_sets @ [0, 0, 0]\<rparr>" two_sets "[0, 0, 0]"] by simp
qed

end
