(* ===== verification/C_Strings.thy ===== *)
theory C_Strings
  imports Memory Protocol_Binary
begin

text \<open>
  The parts of the C library the sources use on text: character classes and numbers in the C locale,
  zero-terminated strings in a buffer, and decimal output.  Numbers survive printing and parsing.
\<close>

subsection \<open>Characters, strings and numbers\<close>

text \<open>The classes of \<open>ctype.h\<close> in the C locale.\<close>

definition isspace :: "u8 \<Rightarrow> bool" where
  "isspace c \<longleftrightarrow> c = 32 \<or> 9 \<le> c \<and> c \<le> 13"

definition iscntrl :: "u8 \<Rightarrow> bool" where
  "iscntrl c \<longleftrightarrow> c < 32 \<or> c = 127"

definition isdigit :: "u8 \<Rightarrow> bool" where
  "isdigit c \<longleftrightarrow> 48 \<le> c \<and> c \<le> 57"

definition isgraph :: "u8 \<Rightarrow> bool" where
  "isgraph c \<longleftrightarrow> 33 \<le> c \<and> c \<le> 126"

text \<open>The bytes of a string literal.\<close>

definition lit :: "string \<Rightarrow> bytes" where
  "lit s = map of_char s"

text \<open>How many characters from the front satisfy a test; reading on past the buffer is a fault.\<close>

fun scan_while :: "(u8 \<Rightarrow> bool) \<Rightarrow> bytes \<Rightarrow> nat outcome" where
  "scan_while P [] = Fault"
| "scan_while P (b # bs) = (if P b then obind (scan_while P bs) (\<lambda>n. Done (Suc n)) else Done 0)"

text \<open>The zero-terminated string at a position.\<close>

definition c_string :: "bytes \<Rightarrow> nat \<Rightarrow> bytes outcome" where
  "c_string buf pos = obind (scan_while (\<lambda>b. b \<noteq> 0) (drop pos buf)) (\<lambda>n. Done (segment pos n buf))"

definition digit_value :: "u8 \<Rightarrow> nat" where
  "digit_value c = unat (c - 48)"

definition digits_value :: "bytes \<Rightarrow> nat" where
  "digits_value ds = fold (\<lambda>d n. 10 * n + digit_value d) ds 0"

text \<open>
  \<open>strtoul\<close> in base ten (\<open>strtoull\<close> is the same function): the value and whether \<open>errno\<close> was set.
\<close>

definition strtoul :: "bytes \<Rightarrow> u64 \<times> bool" where
  "strtoul s =
     (let t = dropWhile isspace s;
          neg = (t \<noteq> [] \<and> hd t = 45);
          u = (if t \<noteq> [] \<and> (hd t = 45 \<or> hd t = 43) then tl t else t);
          v = digits_value (takeWhile isdigit u)
      in if 18446744073709551615 < v then (- 1, True)
         else (if neg then - word_of_nat v else word_of_nat v, False))"

text \<open>Decimal output, the \<open>%u\<close> of \<open>printf\<close>.\<close>

fun decimal :: "nat \<Rightarrow> bytes" where
  "decimal n = (if n < 10 then [word_of_nat (48 + n)] else decimal (n div 10) @ [word_of_nat (48 + n mod 10)])"

declare decimal.simps [simp del]


lemma isspace_32 [simp]: "isspace 32"
  by (simp add: isspace_def)

subsection \<open>Strings in a buffer\<close>

lemma scan_while_stop: "\<forall>b \<in> set v. P b \<Longrightarrow> \<not> P x \<Longrightarrow> scan_while P (v @ x # rest) = Done (length v)"
  by (induction v) simp_all

lemma c_string_eq:
  assumes "drop pos buf = v @ 0 # rest" and "0 \<notin> set v"
  shows "c_string buf pos = Done v"
proof -
  have "\<forall>b \<in> set v. b \<noteq> 0" using assms(2) by auto
  then show ?thesis using assms scan_while_stop [of v "\<lambda>b. b \<noteq> 0" 0 rest] by (simp add: c_string_def segment_def)
qed


lemma scan_while_Done:
  "scan_while P bs = Done n \<Longrightarrow> \<exists>v x rest. bs = v @ x # rest \<and> length v = n \<and> (\<forall>b \<in> set v. P b) \<and> \<not> P x"
proof (induction bs arbitrary: n)
  case (Cons b bs)
  show ?case
  proof (cases "P b")
    case True
    then obtain m where "scan_while P bs = Done m" "n = Suc m" using Cons.prems by (auto simp: obind_Done_iff)
    with Cons.IH [of m] obtain v x rest where "bs = v @ x # rest" "length v = m" "\<forall>b \<in> set v. P b" "\<not> P x" by auto
    with True \<open>n = Suc m\<close> show ?thesis by (intro exI [of _ "b # v"] exI [of _ x] exI [of _ rest]) simp
  next
    case False
    then show ?thesis using Cons.prems by (auto intro: exI [of _ "[]"])
  qed
qed simp

lemma c_string_Done:
  assumes "c_string buf pos = Done v"
  shows "\<exists>rest. drop pos buf = v @ 0 # rest" and "0 \<notin> set v"
proof -
  obtain n where n: "scan_while (\<lambda>b. b \<noteq> 0) (drop pos buf) = Done n" "v = take n (drop pos buf)"
    using assms by (auto simp: c_string_def obind_Done_iff segment_def)
  from scan_while_Done [OF n(1)] n(2) show "\<exists>rest. drop pos buf = v @ 0 # rest" "0 \<notin> set v" by auto
qed


subsection \<open>Numbers\<close>

lemma digit_char:
  assumes "n < 10"
  shows "isdigit (word_of_nat (48 + n))" "digit_value (word_of_nat (48 + n)) = n"
    "\<not> isspace (word_of_nat (48 + n))" "(word_of_nat (48 + n) :: u8) \<noteq> 45" "(word_of_nat (48 + n) :: u8) \<noteq> 43"
    "\<not> iscntrl (word_of_nat (48 + n))" "(word_of_nat (48 + n) :: u8) \<noteq> 0"
proof -
  have "n \<in> {0, 1, 2, 3, 4, 5, 6, 7, 8, 9}" using assms by auto
  then show "isdigit (word_of_nat (48 + n))" "digit_value (word_of_nat (48 + n)) = n"
    "\<not> isspace (word_of_nat (48 + n))" "(word_of_nat (48 + n) :: u8) \<noteq> 45" "(word_of_nat (48 + n) :: u8) \<noteq> 43"
    "\<not> iscntrl (word_of_nat (48 + n))" "(word_of_nat (48 + n) :: u8) \<noteq> 0"
    by (auto simp: isdigit_def digit_value_def isspace_def iscntrl_def)
qed

lemma decimal_isdigit: "\<forall>d \<in> set (decimal n). isdigit d"
proof (induction n rule: decimal.induct)
  case (1 n)
  then show ?case by (subst decimal.simps) (simp add: digit_char(1) [simplified])
qed

lemma digits_value_snoc: "digits_value (ds @ [d]) = 10 * digits_value ds + digit_value d"
  by (simp add: digits_value_def)

lemma digits_value_decimal: "digits_value (decimal n) = n"
proof (induction n rule: decimal.induct)
  case (1 n)
  show ?case
  proof (cases "n < 10")
    case True
    then show ?thesis using digit_char(2) [of n] by (subst decimal.simps) (simp add: digits_value_def)
  next
    case False
    then show ?thesis using 1 digit_char(2) [of "n mod 10"]
      by (subst decimal.simps) (simp add: digits_value_snoc)
  qed
qed

lemma decimal_nonempty: "decimal n \<noteq> []"
  by (subst decimal.simps) simp

lemma strtoul_digits:
  assumes "ds \<noteq> []" and "\<forall>d \<in> set ds. isdigit d" and "digits_value ds < 18446744073709551616"
  shows "strtoul ds = (word_of_nat (digits_value ds), False)"
proof -
  obtain d more where ds: "ds = d # more" using assms(1) by (cases ds) auto
  have d: "\<not> isspace d" "d \<noteq> 45" "d \<noteq> 43"
    using assms(2) ds by (auto simp: isdigit_def isspace_def word_le_nat_alt)
  have "takeWhile isdigit ds = ds" using assms(2) by (simp add: takeWhile_eq_all_conv)
  with assms(3) d show ?thesis by (simp add: strtoul_def ds)
qed

lemma strtoul_decimal: "n < 18446744073709551616 \<Longrightarrow> strtoul (decimal n) = (word_of_nat n, False)"
  using strtoul_digits [OF decimal_nonempty, of n] decimal_isdigit [of n] by (simp add: digits_value_decimal)

end
