(* ===== verification/Ascii_Handler.thy ===== *)
theory Ascii_Handler
  imports Binary_Handler C_Strings
begin

text \<open>
  The server side of the text protocol, \<open>libmemcachedprotocol/ascii_handler.c\<close>: parsing of command
  lines in the input buffer, the translation into the same callbacks the binary protocol uses, and
  the loop over the commands of a buffer.  Pointers into the buffer are positions; the tokeniser
  writes zero bytes into the buffer as the code does.  \<open>Fault\<close> is a read or write outside of the
  buffer, of an array on the stack, or a failed assertion.
\<close>

subsection \<open>Keys and responses\<close>

definition print_ascii_command :: "ascii_cmd \<Rightarrow> string" where
  "print_ascii_command cmd =
     (case cmd of
        SET_CMD \<Rightarrow> ''SET_CMD'' | ADD_CMD \<Rightarrow> ''ADD_CMD'' | REPLACE_CMD \<Rightarrow> ''REPLACE_CMD'' | CAS_CMD \<Rightarrow> ''CAS_CMD''
      | APPEND_CMD \<Rightarrow> ''APPEND_CMD'' | PREPEND_CMD \<Rightarrow> ''PREPEND_CMD'' | DELETE_CMD \<Rightarrow> ''DELETE_CMD''
      | INCR_CMD \<Rightarrow> ''INCR_CMD'' | DECR_CMD \<Rightarrow> ''DECR_CMD'' | STATS_CMD \<Rightarrow> ''STATS_CMD''
      | FLUSH_ALL_CMD \<Rightarrow> ''FLUSH_ALL_CMD'' | VERSION_CMD \<Rightarrow> ''VERSION_CMD'' | QUIT_CMD \<Rightarrow> ''QUIT_CMD''
      | VERBOSITY_CMD \<Rightarrow> ''VERBOSITY_CMD'' | GET_CMD \<Rightarrow> ''GET_CMD'' | GETS_CMD \<Rightarrow> ''GETS_CMD''
      | UNKNOWN_CMD \<Rightarrow> ''UNKNOWN_CMD'')"

definition key_char :: "u8 \<Rightarrow> bool" where
  "key_char c \<longleftrightarrow> c \<noteq> 0 \<and> \<not> isspace c \<and> \<not> iscntrl c"

text \<open>Where the key starts and its length, zero for an illegal key.  The length is a \<open>uint16_t\<close>.\<close>

definition parse_ascii_key :: "bytes \<Rightarrow> nat \<Rightarrow> (nat \<times> u16) outcome" where
  "parse_ascii_key buf pos =
     obind (scan_while isspace (drop pos buf)) (\<lambda>blanks.
     (let start = pos + blanks
      in obind (scan_while key_char (drop start buf)) (\<lambda>n.
         (let len = word_of_nat n :: u16; c = buf ! (start + n)
          in Done (start, if len = 0 \<or> len > 240 \<or> (c \<noteq> 0 \<and> c \<noteq> 13 \<and> iscntrl c) then 0 else len)))))"

definition ascii_raw_response_handler :: "bytes \<Rightarrow> client \<Rightarrow> (protocol_binary_response_status \<times> client) outcome" where
  "ascii_raw_response_handler text c =
     obind (drain_output c) (\<lambda>(ok, c1).
       if \<not> ok then Done (PROTOCOL_BINARY_RESPONSE_EINTERNAL, c1)
       else if \<not> rt_ndebug c1 \<and> cl_output c1 = [] then Fault
       else spool_output text c1)"

text \<open>A call whose result the code ignores.\<close>

definition say :: "bytes \<Rightarrow> client \<Rightarrow> client outcome" where
  "say text c = obind (ascii_raw_response_handler text c) (\<lambda>(_, c'). Done c')"

definition put :: "bytes \<Rightarrow> client \<Rightarrow> client outcome" where
  "put text c = obind (spool_output text c) (\<lambda>(_, c'). Done c')"

definition usage :: "ascii_cmd \<Rightarrow> string" where
  "usage cmd =
     (case cmd of
        GET_CMD \<Rightarrow> ''CLIENT_ERROR: Syntax error: get <key>*''
      | GETS_CMD \<Rightarrow> ''CLIENT_ERROR: Syntax error: gets <key>*''
      | SET_CMD \<Rightarrow> ''CLIENT_ERROR: Syntax error: set <key> <flags> <exptime> <bytes> [noreply]''
      | ADD_CMD \<Rightarrow> ''CLIENT_ERROR: Syntax error: add <key> <flags> <exptime> <bytes> [noreply]''
      | REPLACE_CMD \<Rightarrow> ''CLIENT_ERROR: Syntax error: replace <key> <flags> <exptime> <bytes> [noreply]''
      | CAS_CMD \<Rightarrow> ''CLIENT_ERROR: Syntax error: cas <key> <flags> <exptime> <bytes> <casid> [noreply]''
      | APPEND_CMD \<Rightarrow> ''CLIENT_ERROR: Syntax error: append <key> <flags> <exptime> <bytes> [noreply]''
      | PREPEND_CMD \<Rightarrow> ''CLIENT_ERROR: Syntax error: prepend <key> <flags> <exptime> <bytes> [noreply]''
      | DELETE_CMD \<Rightarrow> ''CLIENT_ERROR: Syntax error: delete_object <key> [noreply]''
      | INCR_CMD \<Rightarrow> ''CLIENT_ERROR: Syntax error: incr <key> <value> [noreply]''
      | DECR_CMD \<Rightarrow> ''CLIENT_ERROR: Syntax error: decr <key> <value> [noreply]''
      | STATS_CMD \<Rightarrow> ''CLIENT_ERROR: Syntax error: stats [key]''
      | FLUSH_ALL_CMD \<Rightarrow> ''CLIENT_ERROR: Syntax error: flush_all [timeout] [noreply]''
      | VERSION_CMD \<Rightarrow> ''CLIENT_ERROR: Syntax error: version''
      | QUIT_CMD \<Rightarrow> ''CLIENT_ERROR: Syntax error: quit''
      | VERBOSITY_CMD \<Rightarrow> ''CLIENT_ERROR: Syntax error: verbosity <num>''
      | UNKNOWN_CMD \<Rightarrow> ''CLIENT_ERROR: Unknown command'')"

definition crlf :: bytes where "crlf = [13, 10]"

definition send_command_usage :: "client \<Rightarrow> client outcome" where
  "send_command_usage c = say (lit (usage (cl_ascii c)) @ crlf) (c\<lparr>cl_mute := False\<rparr>)"

definition ascii_version_response_handler :: "bytes \<Rightarrow> client \<Rightarrow> (protocol_binary_response_status \<times> client) outcome" where
  "ascii_version_response_handler text c =
     obind (say (lit ''VERSION '') c) (\<lambda>c1. obind (put text c1) (\<lambda>c2. obind (say crlf c2) (\<lambda>c3.
       Done (PROTOCOL_BINARY_RESPONSE_SUCCESS, c3))))"

text \<open>
  The line is built in an array of 300 bytes: the key is copied without a bound, the rest is cut by
  \<open>snprintf\<close>.
\<close>

definition ascii_get_response_handler :: "get_item \<Rightarrow> client \<Rightarrow> (protocol_binary_response_status \<times> client) outcome" where
  "ascii_get_response_handler item c =
     (let good = length (takeWhile key_char (it_key item)); used = 6 + good;
          rest = lit '' '' @ decimal (unat (it_flags item)) @ lit '' '' @ decimal (length (it_body item)) @
            (if cl_ascii c = GETS_CMD then lit '' '' @ decimal (unat (it_cas item)) else []) @ crlf
      in if 300 < used then Fault
         else if good < length (it_key item) then Done (PROTOCOL_BINARY_RESPONSE_EINVAL, c)
         else if used = 300 then Fault
         else obind (put (lit ''VALUE '' @ it_key item @ take (299 - used) rest) c) (\<lambda>c1.
              obind (put (it_body item) c1) (\<lambda>c2. obind (put crlf c2) (\<lambda>c3. Done (PROTOCOL_BINARY_RESPONSE_SUCCESS, c3)))))"

definition ascii_stat_response_handler :: "stat_item \<Rightarrow> client \<Rightarrow> (protocol_binary_response_status \<times> client) outcome" where
  "ascii_stat_response_handler item c =
     (case fst item of
        Some key \<Rightarrow>
          obind (say (lit ''STAT '') c) (\<lambda>c1. obind (put key c1) (\<lambda>c2. obind (say (lit '' '') c2) (\<lambda>c3.
          obind (put (snd item) c3) (\<lambda>c4. obind (say crlf c4) (\<lambda>c5. Done (PROTOCOL_BINARY_RESPONSE_SUCCESS, c5))))))
      | None \<Rightarrow> obind (say (lit ''END'' @ crlf) c) (\<lambda>c1. Done (PROTOCOL_BINARY_RESPONSE_SUCCESS, c1)))"


subsection \<open>\<open>get\<close> and \<open>gets\<close>\<close>

lemma parse_ascii_key_start: "parse_ascii_key buf pos = Done (start, n) \<Longrightarrow> pos \<le> start"
  by (auto simp: parse_ascii_key_def obind_Done_iff Let_def)

function gets_loop :: "(bytes \<Rightarrow> 'a \<Rightarrow> (get_item, 'a) app) \<Rightarrow> nat \<Rightarrow> nat \<Rightarrow> nat \<Rightarrow> 'a \<Rightarrow> client \<Rightarrow> (nat \<times> 'a \<times> client) outcome" where
  "gets_loop get key line_end num_keys a c =
     (if key < line_end then
        obind (parse_ascii_key (rt_input c) key) (\<lambda>(start, nkey).
          if nkey = 0 then Done (num_keys, a, c)
          else obind (run_app ascii_get_response_handler (get (segment start (unat nkey) (rt_input c)) a) c) (\<lambda>(_, a1, c1).
               gets_loop get (start + unat nkey) line_end (Suc num_keys) a1 c1))
      else Done (num_keys, a, c))"
  by pat_completeness auto

termination
  by (relation "measure (\<lambda>(_, key, line_end, _). line_end - key)")
    (auto dest!: parse_ascii_key_start simp: unat_gt_0 intro!: diff_less_mono2 le_less_trans [OF _ less_add_same_cancel1 [THEN iffD2]])

declare gets_loop.simps [simp del]

definition ascii_process_gets :: "(bytes \<Rightarrow> 'a \<Rightarrow> (get_item, 'a) app) \<Rightarrow> nat \<Rightarrow> nat \<Rightarrow> 'a \<Rightarrow> client \<Rightarrow> ('a \<times> client) outcome" where
  "ascii_process_gets get buffer line_end a c =
     obind (gets_loop get (buffer + (if cl_ascii c = GETS_CMD then 5 else 4)) line_end 0 a c) (\<lambda>(num_keys, a1, c1).
       obind (if num_keys = 0 then send_command_usage c1 else put (lit ''END'' @ crlf) c1) (\<lambda>c2. Done (a1, c2)))"


subsection \<open>Tokens\<close>

text \<open>The positions of the tokens, and the buffer with the zero bytes that end them.\<close>

function tokenize_loop :: "bytes \<Rightarrow> nat \<Rightarrow> nat \<Rightarrow> nat list \<Rightarrow> nat \<Rightarrow> nat list \<times> bytes" where
  "tokenize_loop buf str line_end vec max_tokens =
     (if str < line_end then
        (let start = str + length (takeWhile isspace (segment str (line_end - str) buf))
         in if start = line_end then (vec, buf)
            else
              (let stop = start + length (takeWhile (\<lambda>b. \<not> isspace b) (segment start (line_end - start) buf));
                   vec1 = vec @ [start]; buf1 = buf[stop := 0]
               in if length vec1 = max_tokens then (vec1, buf1) else tokenize_loop buf1 (stop + 1) line_end vec1 max_tokens))
      else (vec, buf))"
  by pat_completeness auto

termination
  by (relation "measure (\<lambda>(_, str, line_end, _). line_end - str)") auto

declare tokenize_loop.simps [simp del]

definition ascii_tokenize_command :: "bytes \<Rightarrow> nat \<Rightarrow> nat \<Rightarrow> nat \<Rightarrow> nat list \<times> bytes" where
  "ascii_tokenize_command buf str line_end max_tokens = tokenize_loop buf str line_end [] max_tokens"

definition recover_tokenize_command :: "bytes \<Rightarrow> nat \<Rightarrow> nat \<Rightarrow> bytes" where
  "recover_tokenize_command buf start line_end =
     (take start buf @ map (\<lambda>b. if b = 0 then 32 else b) (segment start (line_end - start) buf) @ drop line_end buf)
       [line_end := 10]"

text \<open>The name and the number of characters compared; the entry of \<open>delete\<close> has the longer name.\<close>

definition commands :: "(string \<times> nat \<times> ascii_cmd) list" where
  "commands =
     [(''get'', 3, GET_CMD), (''gets'', 4, GETS_CMD), (''set'', 3, SET_CMD), (''add'', 3, ADD_CMD),
      (''replace'', 7, REPLACE_CMD), (''cas'', 3, CAS_CMD), (''append'', 6, APPEND_CMD), (''prepend'', 7, PREPEND_CMD),
      (''delete_object'', 6, DELETE_CMD), (''incr'', 4, INCR_CMD), (''decr'', 4, DECR_CMD), (''stats'', 5, STATS_CMD),
      (''flush_all'', 9, FLUSH_ALL_CMD), (''version'', 7, VERSION_CMD), (''quit'', 4, QUIT_CMD),
      (''verbosity'', 9, VERBOSITY_CMD)]"

fun find_command :: "(string \<times> nat \<times> ascii_cmd) list \<Rightarrow> bytes \<Rightarrow> ascii_cmd" where
  "find_command [] s = UNKNOWN_CMD"
| "find_command ((cmd, len, cc) # rest) s =
     (if len \<le> length s \<and> take len s = take len (lit cmd) \<and> (length s = len \<or> isspace (s ! len)) then cc
      else find_command rest s)"

definition ascii_to_cmd :: "bytes \<Rightarrow> ascii_cmd" where
  "ascii_to_cmd s = find_command commands s"


subsection \<open>Commands\<close>

definition not_implemented :: bytes where
  "not_implemented = lit ''SERVER_ERROR: callback not implemented'' @ crlf"

definition process_delete :: "'a callbacks_v1 \<Rightarrow> nat list \<Rightarrow> nat \<Rightarrow> 'a \<Rightarrow> client \<Rightarrow> ('a \<times> client) outcome" where
  "process_delete cb tokens ntokens a c =
     obind (if ntokens = 2 then parse_ascii_key (rt_input c) (tokens ! 1) else Done (0, 0)) (\<lambda>(start, nkey).
       if nkey = 0 then map_outcome (Pair a) (send_command_usage c)
       else
         (case v1_delete_object cb of
            None \<Rightarrow> map_outcome (Pair a) (say not_implemented c)
          | Some delete_object \<Rightarrow>
              (let (rval, a1) = delete_object (segment start (unat nkey) (rt_input c)) 0 a
               in map_outcome (Pair a1)
                    (say (if rval = PROTOCOL_BINARY_RESPONSE_SUCCESS then lit ''DELETED'' @ crlf
                          else if rval = PROTOCOL_BINARY_RESPONSE_KEY_ENOENT then lit ''NOT_FOUND'' @ crlf
                          else lit ''SERVER_ERROR: delete_object failed '' @ decimal (unat (status_code rval)) @ crlf) c))))"

text \<open>The value of a token and whether \<open>errno\<close> was set.\<close>

definition token_number :: "nat list \<Rightarrow> nat \<Rightarrow> client \<Rightarrow> (u64 \<times> bool) outcome" where
  "token_number tokens i c = obind (c_string (rt_input c) (tokens ! i)) (\<lambda>s. Done (strtoul s))"

definition process_arithmetic :: "'a callbacks_v1 \<Rightarrow> nat list \<Rightarrow> nat \<Rightarrow> 'a \<Rightarrow> client \<Rightarrow> ('a \<times> client) outcome" where
  "process_arithmetic cb tokens ntokens a c =
     obind (if ntokens = 3 then parse_ascii_key (rt_input c) (tokens ! 1) else Done (0, 0)) (\<lambda>(start, nkey).
       if nkey = 0 then map_outcome (Pair a) (send_command_usage c)
       else obind (token_number tokens 2 c) (\<lambda>(delta, err).
         if err then Done (a, c)
         else
           (case (if cl_ascii c = INCR_CMD then v1_increment cb else v1_decrement cb) of
              None \<Rightarrow> map_outcome (Pair a) (say not_implemented c)
            | Some f \<Rightarrow>
                (let (rval, result, cas, a1) = f (segment start (unat nkey) (rt_input c)) delta 0 0 a
                 in map_outcome (Pair a1)
                      (say (if rval = PROTOCOL_BINARY_RESPONSE_SUCCESS then decimal (unat result) @ crlf
                            else lit ''NOT_FOUND'' @ crlf) c)))))"

text \<open>The key runs from the first character that is no blank; its length is cut to a \<open>uint16_t\<close>.\<close>

definition process_stats :: "'a callbacks_v1 \<Rightarrow> nat \<Rightarrow> nat \<Rightarrow> 'a \<Rightarrow> client \<Rightarrow> ('a \<times> client) outcome" where
  "process_stats cb key line_end a c =
     (case v1_stat cb of
        None \<Rightarrow> map_outcome (Pair a) (say not_implemented c)
      | Some stat \<Rightarrow>
          obind (scan_while isspace (drop key (rt_input c))) (\<lambda>blanks.
            (let start = key + blanks; nkey = word_of_int (int line_end - int start) :: u16
             in obind (read_at (rt_input c) start (unat nkey)) (\<lambda>name.
                obind (run_app ascii_stat_response_handler (stat name a) c) (\<lambda>(_, a1, c1). Done (a1, c1))))))"

definition process_version :: "'a callbacks_v1 \<Rightarrow> nat \<Rightarrow> 'a \<Rightarrow> client \<Rightarrow> ('a \<times> client) outcome" where
  "process_version cb ntokens a c =
     (if ntokens \<noteq> 1 then map_outcome (Pair a) (send_command_usage c)
      else
        (case v1_version cb of
           None \<Rightarrow> map_outcome (Pair a) (say not_implemented c)
         | Some version \<Rightarrow>
             obind (run_app ascii_version_response_handler (version a) c) (\<lambda>(_, a1, c1). Done (a1, c1))))"

definition process_flush :: "'a callbacks_v1 \<Rightarrow> nat list \<Rightarrow> nat \<Rightarrow> 'a \<Rightarrow> client \<Rightarrow> ('a \<times> client) outcome" where
  "process_flush cb tokens ntokens a c =
     (if 2 < ntokens then map_outcome (Pair a) (send_command_usage c)
      else
        (case v1_flush_object cb of
           None \<Rightarrow> map_outcome (Pair a) (say not_implemented c)
         | Some flush_object \<Rightarrow>
             obind (if ntokens = 2 then token_number tokens 1 c else Done (0, False)) (\<lambda>(timeout, err).
               if err then Done (a, c)
               else
                 (let (rval, a1) = flush_object (ucast timeout) a
                  in map_outcome (Pair a1)
                       (say (if rval = PROTOCOL_BINARY_RESPONSE_SUCCESS then lit ''OK'' @ crlf
                             else lit ''SERVER_ERROR: internal error'' @ crlf) c)))))"


subsection \<open>Storage commands\<close>

text \<open>
  The call of the callback by \<open>process_storage_command\<close>: its status, or none when the number of a
  \<open>cas\<close> command is out of range.  The callers have checked that the callback exists.
\<close>

definition store_call ::
  "'a callbacks_v1 \<Rightarrow> nat list \<Rightarrow> bytes \<Rightarrow> bytes \<Rightarrow> u32 \<Rightarrow> u32 \<Rightarrow> 'a \<Rightarrow> client \<Rightarrow>
     (protocol_binary_response_status option \<times> 'a) outcome" where
  "store_call cb tokens key data flags timeout a c =
     (let done_with = (\<lambda>r. case r of (rval, result_cas :: u64, a1) \<Rightarrow> Done (Some rval, a1));
          call = (\<lambda>f. case f of None \<Rightarrow> Fault | Some g \<Rightarrow> done_with (g a))
      in case cl_ascii c of
           SET_CMD \<Rightarrow> call (map_option (\<lambda>f. f key data flags timeout 0) (v1_set cb))
         | ADD_CMD \<Rightarrow> call (map_option (\<lambda>f. f key data flags timeout) (v1_add cb))
         | CAS_CMD \<Rightarrow>
             obind (token_number tokens 5 c) (\<lambda>(cas, err).
               if err then Done (None, a)
               else call (map_option (\<lambda>f. f key data flags timeout cas) (v1_replace cb)))
         | REPLACE_CMD \<Rightarrow> call (map_option (\<lambda>f. f key data flags timeout 0) (v1_replace cb))
         | APPEND_CMD \<Rightarrow> call (map_option (\<lambda>f. f key data 0) (v1_append cb))
         | PREPEND_CMD \<Rightarrow> call (map_option (\<lambda>f. f key data 0) (v1_prepend cb))
         | _ \<Rightarrow> Fault)"

definition storage_reply :: "ascii_cmd \<Rightarrow> protocol_binary_response_status \<Rightarrow> bytes" where
  "storage_reply cmd rval =
     (if rval = PROTOCOL_BINARY_RESPONSE_SUCCESS then lit ''STORED''
      else if cmd = CAS_CMD then
        (if rval = PROTOCOL_BINARY_RESPONSE_KEY_EEXISTS then lit ''EXISTS''
         else if rval = PROTOCOL_BINARY_RESPONSE_KEY_ENOENT then lit ''NOT_FOUND'' else lit ''NOT_STORED'')
      else lit ''NOT_STORED'') @ crlf"

text \<open>The result of a command: the error code, and how far it moved the end of the line.\<close>

type_synonym 'a command_result = "(int \<times> nat \<times> 'a \<times> client) outcome"

definition bad_key :: "'a \<Rightarrow> client \<Rightarrow> 'a command_result" where
  "bad_key a c = obind (say (lit ''CLIENT_ERROR: bad key'' @ crlf) c) (\<lambda>c1. Done (- 1, 0, a, c1))"

definition process_storage_command :: "'a callbacks_v1 \<Rightarrow> nat list \<Rightarrow> nat \<Rightarrow> nat \<Rightarrow> nat \<Rightarrow> 'a \<Rightarrow> client \<Rightarrow> 'a command_result" where
  "process_storage_command cb tokens start line_end len a c =
     obind (parse_ascii_key (rt_input c) (tokens ! 1)) (\<lambda>(kpos, nkey).
     if nkey = 0 then bad_key a c
     else obind (token_number tokens 2 c) (\<lambda>(flags, err).
     if err then bad_key a c
     else obind (token_number tokens 3 c) (\<lambda>(timeout, err).
     if err then bad_key a c
     else obind (token_number tokens 4 c) (\<lambda>(nbytes, err).
     if err then bad_key a c
     else
       (let need = nbytes + word_of_nat (line_end - start + 1) + 2
        in if int len < sint need
           then Done (1, 0, a, c\<lparr>rt_input := recover_tokenize_command (rt_input c) start line_end\<rparr>)
           else obind (read_at (rt_input c) (line_end + 1) (unat (ucast nbytes :: u32))) (\<lambda>data.
                obind (store_call cb tokens (segment kpos (unat nkey) (rt_input c)) data (ucast flags) (ucast timeout) a c)
                  (\<lambda>(rval, a1).
                case rval of
                  None \<Rightarrow> bad_key a1 c
                | Some st \<Rightarrow>
                    obind (say (storage_reply (cl_ascii c) st) c) (\<lambda>c1.
                    if line_end + unat nbytes + 2 \<le> length (rt_input c) then Done (0, unat nbytes + 2, a1, c1) else Fault))))))))"

text \<open>
  \<open>process_set_command\<close> and the five functions like it: the number of tokens and the callback are
  checked first.
\<close>

definition checked_storage :: "nat \<Rightarrow> bool \<Rightarrow> 'a callbacks_v1 \<Rightarrow> nat list \<Rightarrow> nat \<Rightarrow> nat \<Rightarrow> nat \<Rightarrow> nat \<Rightarrow> 'a \<Rightarrow> client \<Rightarrow> 'a command_result" where
  "checked_storage arity implemented cb tokens ntokens start line_end len a c =
     (if ntokens \<noteq> arity then obind (send_command_usage c) (\<lambda>c1. Done (0, 0, a, c1))
      else if \<not> implemented then obind (say not_implemented c) (\<lambda>c1. Done (0, 0, a, c1))
      else process_storage_command cb tokens start line_end len a c)"

definition process_cas_command where
  "process_cas_command cb = checked_storage 6 (v1_replace cb \<noteq> None) cb"
definition process_set_command where
  "process_set_command cb = checked_storage 5 (v1_set cb \<noteq> None) cb"
definition process_add_command where
  "process_add_command cb = checked_storage 5 (v1_add cb \<noteq> None) cb"
definition process_replace_command where
  "process_replace_command cb = checked_storage 5 (v1_replace cb \<noteq> None) cb"
definition process_append_command where
  "process_append_command cb = checked_storage 5 (v1_append cb \<noteq> None) cb"
definition process_prepend_command where
  "process_prepend_command cb = checked_storage 5 (v1_prepend cb \<noteq> None) cb"

definition command_done :: "('a \<times> client) outcome \<Rightarrow> 'a command_result" where
  "command_done r = map_outcome (\<lambda>(a, c). (0, 0, a, c)) r"


subsection \<open>The commands of a buffer\<close>

text \<open>
  The number of tokens without \<open>noreply\<close>, which is recognised when there are less than ten tokens.
  A line without a token reads the element before the first.
\<close>

definition take_noreply :: "nat list \<Rightarrow> client \<Rightarrow> (nat \<times> client) outcome" where
  "take_noreply tokens c =
     (let ntokens = length tokens
      in if ntokens < 10 then
           (if ntokens = 0 then Fault
            else obind (c_string (rt_input c) (tokens ! (ntokens - 1))) (\<lambda>s.
              (let mute = (s = lit ''noreply'')
               in Done (if mute then ntokens - 1 else ntokens, c\<lparr>cl_mute := mute\<rparr>))))
         else Done (ntokens, c))"

text \<open>The switch over the commands.  \<open>quit\<close> returns the error event, like the error code \<open>-1\<close>.\<close>

definition ascii_switch :: "'a callbacks_v1 \<Rightarrow> nat list \<Rightarrow> nat \<Rightarrow> nat \<Rightarrow> nat \<Rightarrow> nat \<Rightarrow> 'a \<Rightarrow> client \<Rightarrow> 'a command_result" where
  "ascii_switch cb tokens ntokens ptr line_end len a c =
     (case cl_ascii c of
        SET_CMD \<Rightarrow> process_set_command cb tokens ntokens ptr line_end len a c
      | ADD_CMD \<Rightarrow> process_add_command cb tokens ntokens ptr line_end len a c
      | REPLACE_CMD \<Rightarrow> process_replace_command cb tokens ntokens ptr line_end len a c
      | CAS_CMD \<Rightarrow> process_cas_command cb tokens ntokens ptr line_end len a c
      | APPEND_CMD \<Rightarrow> process_append_command cb tokens ntokens ptr line_end len a c
      | PREPEND_CMD \<Rightarrow> process_prepend_command cb tokens ntokens ptr line_end len a c
      | DELETE_CMD \<Rightarrow> command_done (process_delete cb tokens ntokens a c)
      | INCR_CMD \<Rightarrow> command_done (process_arithmetic cb tokens ntokens a c)
      | DECR_CMD \<Rightarrow> command_done (process_arithmetic cb tokens ntokens a c)
      | STATS_CMD \<Rightarrow>
          command_done (if cl_mute c then map_outcome (Pair a) (send_command_usage c)
            else process_stats cb (ptr + 6) line_end a (c\<lparr>rt_input := recover_tokenize_command (rt_input c) ptr line_end\<rparr>))
      | FLUSH_ALL_CMD \<Rightarrow> command_done (process_flush cb tokens ntokens a c)
      | VERSION_CMD \<Rightarrow>
          command_done (if cl_mute c then map_outcome (Pair a) (send_command_usage c) else process_version cb ntokens a c)
      | QUIT_CMD \<Rightarrow>
          if ntokens \<noteq> 1 \<or> cl_mute c then command_done (map_outcome (Pair a) (send_command_usage c))
          else Done (- 1, 0, case v1_quit cb of None \<Rightarrow> a | Some quit \<Rightarrow> quit a, c)
      | VERBOSITY_CMD \<Rightarrow>
          command_done (map_outcome (Pair a) (if ntokens \<noteq> 2 then send_command_usage c else say (lit ''OK'' @ crlf) c))
      | UNKNOWN_CMD \<Rightarrow> command_done (map_outcome (Pair a) (send_command_usage c))
      | _ \<Rightarrow> Fault)"

definition ascii_command :: "'a callbacks_v1 \<Rightarrow> nat \<Rightarrow> nat \<Rightarrow> nat \<Rightarrow> 'a \<Rightarrow> client \<Rightarrow> 'a command_result" where
  "ascii_command cb ptr line_end len a c =
     (if cl_ascii c = GET_CMD \<or> cl_ascii c = GETS_CMD then
        (case v1_get cb of
           Some get \<Rightarrow> command_done (ascii_process_gets get ptr line_end a c)
         | None \<Rightarrow> command_done (map_outcome (Pair a) (say (lit ''SERVER_ERROR: Command not implemented'' @ [10]) c)))
      else
        (let (tokens, buf) = ascii_tokenize_command (rt_input c) ptr line_end 10
         in obind (take_noreply tokens (c\<lparr>rt_input := buf\<rparr>)) (\<lambda>(ntokens, c1).
            ascii_switch cb tokens ntokens ptr line_end len a c1)))"

definition memchr :: "u8 \<Rightarrow> bytes \<Rightarrow> nat option" where
  "memchr b bs = (let n = length (takeWhile (\<lambda>x. x \<noteq> b) bs) in if n < length bs then Some n else None)"

function ascii_loop :: "'a callback_st \<Rightarrow> nat \<Rightarrow> nat \<Rightarrow> 'a \<Rightarrow> client \<Rightarrow> 'a processed outcome" where
  "ascii_loop cb ptr len a c =
     (case memchr 10 (segment ptr len (rt_input c)) of
        None \<Rightarrow>
          Done \<lparr>ev_event = MEMCACHED_PROTOCOL_READ_EVENT, ev_length = len, ev_endptr = Some ptr, ev_app = a, ev_client = c\<rparr>
      | Some n \<Rightarrow>
          (let line_end = ptr + n;
               c1 = c\<lparr>cl_ascii := ascii_to_cmd (segment ptr len (rt_input c))\<rparr>;
               a1 = run_hook (pre_execute cb) None a
           in obind (ascii_command (v1 cb) ptr line_end len a1 c1) (\<lambda>(error, advance, a2, c2).
                if error = - 1 then
                  Done \<lparr>ev_event = MEMCACHED_PROTOCOL_ERROR_EVENT, ev_length = len, ev_endptr = Some 0, ev_app = a2, ev_client = c2\<rparr>
                else if error = 1 then
                  Done \<lparr>ev_event = MEMCACHED_PROTOCOL_READ_EVENT, ev_length = len, ev_endptr = Some 0, ev_app = a2, ev_client = c2\<rparr>
                else
                  (let a3 = run_hook (post_execute cb) None a2; next_line = line_end + advance + 1;
                       len1 = len - (next_line - ptr)
                   in if 0 < len1 then ascii_loop cb next_line len1 a3 c2
                      else Done \<lparr>ev_event = MEMCACHED_PROTOCOL_READ_EVENT, ev_length = len1, ev_endptr = Some next_line,
                                 ev_app = a3, ev_client = c2\<rparr>))))"
  by pat_completeness auto

termination
  by (relation "measure (\<lambda>(_, _, len, _). len)") auto

declare ascii_loop.simps [simp del]

definition memcached_ascii_protocol_process_data :: "'a callback_st \<Rightarrow> nat \<Rightarrow> 'a \<Rightarrow> client \<Rightarrow> 'a processed outcome" where
  "memcached_ascii_protocol_process_data cb length_in a c = ascii_loop cb 0 length_in a c"

end
