(* ===== verification/Protocol_Invariant.thy ===== *)
theory Protocol_Invariant
  imports Binary_Framing Ascii_Handler
begin

text \<open>
  What the protocol handlers keep of the client's state.  \<open>ensures Q m\<close> is partial correctness of a
  computation that may fault.  The locale \<open>client_invariant\<close> holds the contract of a state invariant:
  it survives sending, draining and spooling, and the assignments the handlers make; its lemmas carry
  the invariant through every handler of both protocols.  It is interpreted for the queue and cache
  invariant \<^const>\<open>client_ok\<close> and for the parts of the state no handler touches.
\<close>

subsection \<open>Partial correctness\<close>

fun ensures :: "('r \<Rightarrow> bool) \<Rightarrow> 'r outcome \<Rightarrow> bool" where
  "ensures Q Fault = True"
| "ensures Q (Done r) = Q r"

lemma ensures_obind [simp]: "ensures Q (obind m f) = ensures (\<lambda>x. ensures Q (f x)) m"
  by (cases m) simp_all

lemma ensures_map [simp]: "ensures Q (map_outcome f m) = ensures (\<lambda>x. Q (f x)) m"
  by (cases m) simp_all

lemma ensures_mono: "ensures P m \<Longrightarrow> (\<And>r. m = Done r \<Longrightarrow> P r \<Longrightarrow> Q r) \<Longrightarrow> ensures Q m"
  by (cases m) simp_all

lemma ensures_any: "(\<And>r. m = Done r \<Longrightarrow> Q r) \<Longrightarrow> ensures Q m"
  by (cases m) simp_all

lemma ensures_iff: "ensures Q m \<longleftrightarrow> (\<forall>r. m = Done r \<longrightarrow> Q r)"
  by (cases m) simp_all


subsection \<open>Output leaves the rest of the state alone\<close>

lemma release_chunk_frame: "release_chunk k c = Done c' \<Longrightarrow> frame c' = frame c"
  by (auto simp: release_chunk_def obind_Done_iff case_prod_unfold)

lemma drain_output_frame: "ensures (\<lambda>r. frame (snd r) = frame c) (drain_output c)"
proof (induction c rule: drain_output.induct)
  case (1 c)
  show ?case
  proof (cases "cl_output c")
    case Nil then show ?thesis by (subst drain_output.simps) simp
  next
    case (Cons k rest)
    obtain r c1 where s: "sock_send (segment (chunk_offset k) (chunk_nbytes k - chunk_offset k) (chunk_data k)) c = (r, c1)"
      by (meson surj_pair)
    note f = sock_send_spec(1) [OF s]
    show ?thesis
    proof (cases r)
      case (Send_error e)
      then show ?thesis using 1(1) [OF Cons s [symmetric] _ _] s Cons f
        by (subst drain_output.simps) (auto elim: ensures_mono)
    next
      case (Sent len)
      let ?k = "k\<lparr>chunk_offset := chunk_offset k + len\<rparr>"
      have "frame c2 = frame c" if "release_chunk ?k (c1\<lparr>cl_output := rest\<rparr>) = Done c2" for c2
        using release_chunk_frame [OF that] f by simp
      then show ?thesis using 1(2,3) [OF Cons s [symmetric] Sent refl] s Cons f Sent
        by (subst drain_output.simps) (auto simp: Let_def intro!: ensures_any elim: ensures_mono)
    qed
  qed
qed

lemma allocate_output_chunk_frame: "frame (snd (allocate_output_chunk c)) = frame c"
  by (simp add: allocate_output_chunk_def Let_def split: prod.split option.split)

lemma spool_copy_frame: "spool_copy data bulk i c = Done c' \<Longrightarrow> frame c' = frame c"
  by (auto simp: spool_copy_def Let_def split: if_splits)

lemma spool_loop_frame: "ensures (\<lambda>r. frame (snd r) = frame c) (spool_loop data off chunk c)"
proof (induction data off chunk c rule: spool_loop.induct)
  case (1 data off chunk c)
  let ?sel = "case chunk of
      None \<Rightarrow> apfst (\<lambda>ok. if ok then Some (length (cl_output c)) else None) (allocate_output_chunk c)
    | Some i \<Rightarrow> if chunk_room (cl_output c ! i) = 0
        then apfst (\<lambda>ok. if ok then Some (length (cl_output c)) else None) (allocate_output_chunk c) else (Some i, c)"
  obtain r c1 where sel: "?sel = (r, c1)" by (meson surj_pair)
  have f: "frame c1 = frame c"
    using sel allocate_output_chunk_frame [of c] by (cases "allocate_output_chunk c") (auto split: option.splits if_splits)
  show ?case
  proof (cases "off < length data")
    case True
    show ?thesis
    proof (cases r)
      case None then show ?thesis using True sel f by (subst spool_loop.simps) simp
    next
      case (Some i)
      show ?thesis
        using 1 [OF True sel [symmetric] Some refl] sel True Some f spool_copy_frame
        by (subst spool_loop.simps) (auto simp: Let_def intro!: ensures_any elim!: ensures_mono)
    qed
  qed (subst spool_loop.simps, simp)
qed

lemma spool_output_frame: "ensures (\<lambda>r. frame (snd r) = frame c) (spool_output data c)"
  by (simp add: spool_output_def spool_loop_frame)

lemma spool_output_ok: "client_ok c \<Longrightarrow> ensures (\<lambda>r. client_ok (snd r)) (spool_output data c)"
  using spool_loop_safe [of c "if cl_output c = [] then None else Some 0" data 0] by (auto simp: spool_output_def)

lemma raw_send_loop_frame:
  "frame (snd (raw_send_loop pkt off c)) = frame c \<and> (client_ok c \<longrightarrow> client_ok (snd (raw_send_loop pkt off c)))"
proof (induction pkt off c rule: raw_send_loop.induct)
  case (1 pkt off c)
  obtain r c1 where s: "sock_send (drop off pkt) c = (r, c1)" by (meson surj_pair)
  note f = sock_send_spec(1,3) [OF s]
  have e: "client_ok (c1\<lparr>cl_error := e\<rparr>)" if "client_ok c1" for e using that by (simp add: client_ok_def)
  show ?case using 1 [OF s [symmetric]] s f e by (cases r) (auto simp: raw_send_loop.simps [of pkt off c])
qed


lemma length_tokenize_loop: "length (snd (tokenize_loop buf str line_end vec n)) = length buf"
proof (induction buf str line_end vec n rule: tokenize_loop.induct)
  case (1 buf str line_end vec n)
  then show ?case by (subst tokenize_loop.simps) (auto simp: Let_def)
qed

lemma length_tokenize: "length (snd (ascii_tokenize_command buf str line_end n)) = length buf"
  by (simp add: ascii_tokenize_command_def length_tokenize_loop)

lemma length_recover: "start \<le> line_end \<Longrightarrow> line_end \<le> length buf \<Longrightarrow> length (recover_tokenize_command buf start line_end) = length buf"
  by (simp add: recover_tokenize_command_def segment_def)

lemmas storage_commands = process_cas_command_def process_set_command_def process_add_command_def
  process_replace_command_def process_append_command_def process_prepend_command_def


subsection \<open>The contract of an invariant\<close>

locale client_invariant =
  fixes I :: "client \<Rightarrow> bool"
  assumes drain: "I c \<Longrightarrow> ensures (\<lambda>r. I (snd r)) (drain_output c)"
    and spool: "I c \<Longrightarrow> ensures (\<lambda>r. I (snd r)) (spool_output data c)"
    and raw_send: "I c \<Longrightarrow> I (snd (raw_send_loop pkt off c))"
    and assigns: "I c \<Longrightarrow> I (c\<lparr>cl_error := e\<rparr>)" "I c \<Longrightarrow> I (c\<lparr>cl_command := h\<rparr>)"
      "I c \<Longrightarrow> I (c\<lparr>cl_ascii := cmd\<rparr>)" "I c \<Longrightarrow> I (c\<lparr>cl_mute := m\<rparr>)"
      "I c \<Longrightarrow> I (c\<lparr>cl_work := w\<rparr>)"
    and input: "I c \<Longrightarrow> length buf = length (rt_input c) \<Longrightarrow> I (c\<lparr>rt_input := buf\<rparr>)"
begin

lemma send_then_spool:
  "I c \<Longrightarrow> ensures (\<lambda>r. I (snd r))
     (case raw_send_loop pkt off c of (None, c2) \<Rightarrow> Done (st, c2) | (Some n, c2) \<Rightarrow> spool_output (f n) c2)"
  using raw_send [of c pkt off] spool by (cases "raw_send_loop pkt off c") (auto split: option.split)

lemma raw_response: "I c \<Longrightarrow> ensures (\<lambda>r. I (snd r)) (binary_raw_response_handler request response c)"
  by (auto simp: binary_raw_response_handler_def Let_def intro!: ensures_mono [OF drain] send_then_spool spool
      split: option.split)

lemma spool_seq: "I c \<Longrightarrow> ensures (\<lambda>r. I (snd r)) (spool_seq spool_output ds c)"
  by (induction ds arbitrary: c) (auto intro!: ensures_mono [OF spool])

lemma binary_responses:
  "I c \<Longrightarrow> ensures (\<lambda>r. I (snd r)) (get_response_handler item c)"
  "I c \<Longrightarrow> ensures (\<lambda>r. I (snd r)) (stat_response_handler st c)"
  "I c \<Longrightarrow> ensures (\<lambda>r. I (snd r)) (version_response_handler text c)"
  by (simp_all add: get_response_handler_def stat_response_handler_def version_response_handler_def Let_def spool_seq
      del: spool_seq.simps)

lemma run_app:
  assumes "\<And>r c. I c \<Longrightarrow> ensures (\<lambda>r. I (snd r)) (h r c)"
  shows "I c \<Longrightarrow> ensures (\<lambda>r. I (snd (snd r))) (run_app h t c)"
  by (induction t arbitrary: c) (auto simp: case_prod_unfold intro!: ensures_mono [OF assms])

lemmas run_apps = run_app [OF binary_responses(1)] run_app [OF binary_responses(2)] run_app [OF binary_responses(3)]
  run_app [of "binary_raw_response_handler packet" for packet, OF raw_response]

lemma respond: "I c \<Longrightarrow> ensures (\<lambda>r. I (snd (snd r))) (respond packet cmd response rval a c)"
  by (auto simp: respond_def case_prod_unfold intro!: ensures_mono [OF raw_response])

lemma binary_handler:
  assumes "I c" and "comcode_v0_v1_remap cc = Some handler"
  shows "ensures (\<lambda>r. I (snd (snd r))) (handler cb packet a c)"
  using assms
  by (auto simp: comcode_v0_v1_remap_def handler_defs Let_def case_prod_unfold
      intro!: ensures_any [of "read_at p i n" for p i n] ensures_any [of "read32 p i" for p i] ensures_any [of "read64 p i" for p i]
        respond ensures_mono [OF raw_response] ensures_mono [OF run_apps(1)] ensures_mono [OF run_apps(2)] ensures_mono [OF run_apps(3)]
      split: if_splits option.split)

lemma execute_command: "I c \<Longrightarrow> ensures (\<lambda>r. I (snd (snd r))) (execute_command cb packet a c)"
proof -
  assume c: "I c"
  have d: "ensures (\<lambda>r. I (snd (snd r))) (dispatch_command cb packet a' c)" for a'
    using c by (auto simp: dispatch_command_def Let_def intro: binary_handler run_apps split: option.split)
  have u: "I c1 \<Longrightarrow> ensures (\<lambda>r. I (snd (snd r))) (call_unknown cb packet rval a1 c1)" for rval a1 c1
    by (auto simp: call_unknown_def intro: run_apps split: option.split)
  have e: "I c1 \<Longrightarrow> ensures (\<lambda>r. I (snd (snd r))) (answer_error packet rval a1 c1)" for rval a1 c1
    by (auto simp: answer_error_def case_prod_unfold intro!: ensures_mono [OF raw_response])
  show ?thesis
    using c by (auto simp: execute_command_def Let_def intro!: ensures_any [of "print_cmd x" for x]
        ensures_mono [OF d] ensures_mono [OF u] ensures_mono [OF e])
qed

lemma next_packet:
  assumes "I c" and "header + consumed + len \<le> length (rt_input c)" and "next_packet header consumed len c = (h, c')"
  shows "I c'" and "h + len \<le> length (rt_input c')"
  using assms by (auto simp: next_packet_def segment_def intro!: input split: if_splits)

lemma binary_loop:
  "I c \<Longrightarrow> header + len \<le> length (rt_input c) \<Longrightarrow> ensures (\<lambda>r. I (ev_client r)) (binary_loop cb header len out endptr a c)"
proof (induction cb header len out endptr a c rule: binary_loop.induct)
  case (1 cb header len out endptr a c)
  let ?packet = "drop header (rt_input c)"
  let ?run = "execute_command cb ?packet a (c\<lparr>cl_command := load_request ?packet\<rparr>)"
  have "I (snd (snd r)) \<and> length (rt_input (snd (snd r))) = length (rt_input c)" if "?run = Done r" for r
    using that execute_command [of "c\<lparr>cl_command := load_request ?packet\<rparr>" cb ?packet a] "1.prems" assigns
      execute_command_keeps_input [of cb ?packet a _ "fst r" "fst (snd r)" "snd (snd r)"]
    by simp
  note run = ensures_any [of ?run, OF this]
  have step: "ensures (\<lambda>r. I (ev_client r)) (binary_loop cb h l l (Some h) a1 c2)"
    if "24 \<le> len" "packet_size ?packet \<le> len" "?run = Done (rv, a1, c1)" "rv \<noteq> PROTOCOL_BINARY_RESPONSE_EINTERNAL"
      "rv \<noteq> PROTOCOL_BINARY_RESPONSE_NOT_SUPPORTED" "I c1" "length (rt_input c1) = length (rt_input c)"
      "l = len - packet_size ?packet" "next_packet header (packet_size ?packet) l c1 = (h, c2)"
    for rv a1 c1 h c2 l
    using 1(1) [OF refl _ that(3) refl refl that(4,5) refl that(8)] that "1.prems" next_packet [OF that(6) _ that(9)] by simp
  show ?case
    using "1.prems" step
    by (subst binary_loop.simps) (auto simp: Let_def split: prod.split intro!: ensures_mono [OF run])
qed

lemma binary_process_data:
  "I c \<Longrightarrow> len \<le> length (rt_input c) \<Longrightarrow> ensures (\<lambda>r. I (ev_client r)) (memcached_binary_protocol_process_data cb len a c)"
  by (simp add: memcached_binary_protocol_process_data_def binary_loop assigns)

lemma ascii_raw_response: "I c \<Longrightarrow> ensures (\<lambda>r. I (snd r)) (ascii_raw_response_handler text c)"
  by (auto simp: ascii_raw_response_handler_def intro!: ensures_mono [OF drain] spool)

lemma say: "I c \<Longrightarrow> ensures I (say text c)"
  by (auto simp: say_def intro!: ensures_mono [OF ascii_raw_response])

lemma put: "I c \<Longrightarrow> ensures I (put text c)"
  by (auto simp: put_def intro!: ensures_mono [OF spool])

lemma usage: "I c \<Longrightarrow> ensures I (send_command_usage c)"
  by (simp add: send_command_usage_def say assigns)

lemma ascii_responses:
  "I c \<Longrightarrow> ensures (\<lambda>r. I (snd r)) (ascii_get_response_handler item c)"
  "I c \<Longrightarrow> ensures (\<lambda>r. I (snd r)) (ascii_stat_response_handler st c)"
  "I c \<Longrightarrow> ensures (\<lambda>r. I (snd r)) (ascii_version_response_handler text c)"
  by (auto simp: ascii_get_response_handler_def ascii_stat_response_handler_def ascii_version_response_handler_def Let_def
      intro!: ensures_mono [OF say] ensures_mono [OF put] split: option.split)

lemmas ascii_apps = run_app [OF ascii_responses(1)] run_app [OF ascii_responses(2)] run_app [OF ascii_responses(3)]

lemma gets_loop: "I c \<Longrightarrow> ensures (\<lambda>r. I (snd (snd r))) (gets_loop get key line_end n a c)"
proof (induction get key line_end n a c rule: gets_loop.induct)
  case (1 get key line_end n a c)
  show ?case
    using "1.prems" 1(1)
    by (subst gets_loop.simps)
      (auto intro!: ensures_any [of "parse_ascii_key b i" for b i] ensures_mono [OF ascii_apps(1)])
qed

lemma process_gets: "I c \<Longrightarrow> ensures (\<lambda>r. I (snd r)) (ascii_process_gets get buffer line_end a c)"
  by (auto simp: ascii_process_gets_def intro!: ensures_mono [OF gets_loop] ensures_mono [OF usage] ensures_mono [OF put])

lemma ascii_functions:
  assumes "I c"
  shows "ensures (\<lambda>r. I (snd r)) (process_delete cb tokens ntokens a c)"
    and "ensures (\<lambda>r. I (snd r)) (process_arithmetic cb tokens ntokens a c)"
    and "ensures (\<lambda>r. I (snd r)) (process_stats cb key line_end a c)"
    and "ensures (\<lambda>r. I (snd r)) (process_version cb ntokens a c)"
    and "ensures (\<lambda>r. I (snd r)) (process_flush cb tokens ntokens a c)"
  using assms
  by (auto simp: process_delete_def process_arithmetic_def process_stats_def process_version_def process_flush_def
      Let_def case_prod_unfold
      intro!: ensures_any [of "parse_ascii_key b i" for b i] ensures_any [of "token_number t i c" for t i c]
        ensures_any [of "scan_while P bs" for P bs] ensures_any [of "read_at b i n" for b i n]
        ensures_any [of "if b then token_number t i c else Done x" for b t i c x]
        usage say ensures_mono [OF ascii_apps(2)] ensures_mono [OF ascii_apps(3)]
      split: option.split)

lemma bad_key: "I c \<Longrightarrow> ensures (\<lambda>r. I (snd (snd (snd r)))) (bad_key a c)"
  by (auto simp: bad_key_def intro!: ensures_mono [OF say])

lemma storage_command:
  "I c \<Longrightarrow> start \<le> line_end \<Longrightarrow> line_end \<le> length (rt_input c) \<Longrightarrow> 
     ensures (\<lambda>r. I (snd (snd (snd r)))) (process_storage_command cb tokens start line_end len a c)"
  by (auto simp: process_storage_command_def Let_def length_recover
      intro!: ensures_any [of "parse_ascii_key b i" for b i] ensures_any [of "token_number t i c" for t i c]
        ensures_any [of "read_at b i n" for b i n] ensures_any [of "store_call cb t k d f e a c" for cb t k d f e a c]
        bad_key input ensures_mono [OF say]
      split: option.split)

lemma checked_storage:
  "I c \<Longrightarrow> start \<le> line_end \<Longrightarrow> line_end \<le> length (rt_input c) \<Longrightarrow> 
     ensures (\<lambda>r. I (snd (snd (snd r)))) (checked_storage n ok cb tokens ntokens start line_end len a c)"
  by (auto simp: checked_storage_def storage_command intro!: ensures_mono [OF say] ensures_mono [OF usage])

lemma ascii_switch:
  "I c \<Longrightarrow> ptr \<le> line_end \<Longrightarrow> line_end \<le> length (rt_input c) \<Longrightarrow> 
     ensures (\<lambda>r. I (snd (snd (snd r)))) (ascii_switch cb tokens ntokens ptr line_end len a c)"
  by (auto simp: ascii_switch_def storage_commands command_done_def case_prod_unfold checked_storage ascii_functions
      length_recover usage say input intro: ascii_functions split: ascii_cmd.split)

lemma ascii_command:
  "I c \<Longrightarrow> ptr \<le> line_end \<Longrightarrow> line_end \<le> length (rt_input c) \<Longrightarrow> 
     ensures (\<lambda>r. I (snd (snd (snd r)))) (ascii_command cb ptr line_end len a c)"
proof -
  assume c: "I c" "ptr \<le> line_end" "line_end \<le> length (rt_input c)"
  have n: "I c1 \<and> length (rt_input c1) = len1 \<Longrightarrow> ensures (\<lambda>r. I (snd r) \<and> length (rt_input (snd r)) = len1) (take_noreply tokens c1)"
    for c1 tokens len1
    by (auto simp: take_noreply_def Let_def assigns intro!: ensures_any [of "c_string b i" for b i])
  show ?thesis
    using c by (auto simp: ascii_command_def command_done_def case_prod_unfold Let_def length_tokenize
        intro!: process_gets say ensures_mono [OF n [of _ "length (rt_input c)"]] ascii_switch input split: option.split)
qed

lemma ascii_loop: "I c \<Longrightarrow> ensures (\<lambda>r. I (ev_client r)) (ascii_loop cb ptr len a c)"
proof (induction cb ptr len a c rule: ascii_loop.induct)
  case (1 cb ptr len a c)
  have "ptr + n \<le> length (rt_input c)" if "memchr 10 (segment ptr len (rt_input c)) = Some n" for n
    using that by (auto simp: memchr_def segment_def Let_def split: if_splits)
  then show ?case
    using "1.prems" 1(1)
    by (subst ascii_loop.simps) (auto simp: Let_def assigns intro!: ensures_mono [OF ascii_command] split: option.split)
qed

end


subsection \<open>Invariants of the handlers\<close>

lemma drain_output_ok: "client_ok c \<Longrightarrow> ensures (\<lambda>r. client_ok (snd r)) (drain_output c)"
  using drain_output_spec [of c] by auto

lemma client_ok_assigns:
  "client_ok (c\<lparr>cl_error := e\<rparr>) = client_ok c" "client_ok (c\<lparr>cl_command := h\<rparr>) = client_ok c"
  "client_ok (c\<lparr>cl_ascii := cmd\<rparr>) = client_ok c" "client_ok (c\<lparr>cl_mute := m\<rparr>) = client_ok c"
  "client_ok (c\<lparr>cl_work := w\<rparr>) = client_ok c" "client_ok (c\<lparr>rt_input := buf\<rparr>) = client_ok c"
  by (simp_all add: client_ok_def)

interpretation queue: client_invariant client_ok
  by unfold_locales (simp_all add: drain_output_ok spool_output_ok raw_send_loop_frame client_ok_assigns)

text \<open>The network input, the bytes saved from it and the size of the buffer.\<close>

definition input_state :: "client \<Rightarrow> recv_result list \<times> bytes \<times> nat" where
  "input_state c = (io_recvs c, cl_saved c, length (rt_input c))"

lemma input_state_frame: "frame c' = frame c \<Longrightarrow> input_state c' = input_state c"
  by (simp add: frame_def input_state_def)

interpretation inputs: client_invariant "\<lambda>c. input_state c = s" for s
proof
  fix c and data :: bytes
  assume c: "input_state c = s"
  show "ensures (\<lambda>r. input_state (snd r) = s) (drain_output c)"
    and "ensures (\<lambda>r. input_state (snd r) = s) (spool_output data c)"
    using c by (auto intro!: ensures_mono [OF drain_output_frame] ensures_mono [OF spool_output_frame] dest!: input_state_frame)
  show "input_state (snd (raw_send_loop pkt off c)) = s" for pkt off
    using c raw_send_loop_frame [of pkt off c] by (auto dest!: input_state_frame)
qed (simp_all add: input_state_def)

end
