(* ===== verification/Ascii_Tokens.thy ===== *)
theory Ascii_Tokens
  imports Protocol_Invariant
begin

text \<open>
  Correctness of the line parser of \<open>ascii_handler.c\<close>.  The reference is \<open>words\<close>, the maximal runs of
  characters that are no blanks.  The tokeniser, which writes zero bytes into the line, finds the
  first words of it as zero-terminated strings, and the recovery after an incomplete storage command
  restores a line with the same words.  Key and number tokens have the values their texts denote.
\<close>

subsection \<open>Words\<close>

fun words_from :: "bytes \<Rightarrow> bytes \<Rightarrow> bytes list" where
  "words_from w [] = (if w = [] then [] else [w])"
| "words_from w (b # bs) =
     (if isspace b then (if w = [] then [] else [w]) @ words_from [] bs else words_from (w @ [b]) bs)"

definition words :: "bytes \<Rightarrow> bytes list" where
  "words bs = words_from [] bs"

lemma words_from_run: "\<forall>b \<in> set v. \<not> isspace b \<Longrightarrow> words_from w (v @ bs) = words_from (w @ v) bs"
  by (induction v arbitrary: w) simp_all

lemma words_blanks: "\<forall>b \<in> set v. isspace b \<Longrightarrow> words (v @ bs) = words bs"
  by (induction v) (simp_all add: words_def)

lemma words_word:
  assumes "v \<noteq> []" and "\<forall>b \<in> set v. \<not> isspace b"
  shows "words v = [v]" and "isspace b \<Longrightarrow> words (v @ b # rest) = v # words rest"
  using assms words_from_run [of v "[]"] words_from_run [of v "[]" "[]"] by (simp_all add: words_def)

lemma words_Nil [simp]: "words [] = []"
  by (simp add: words_def)

text \<open>Words only depend on which characters are blanks.\<close>

definition blanked :: "u8 \<Rightarrow> u8" where
  "blanked b = (if isspace b then 32 else b)"

lemma isspace_blanked [simp]: "isspace (blanked b) = isspace b"
  by (simp add: blanked_def)

lemma words_from_blanked: "words_from w (map blanked bs) = words_from w bs"
  by (induction bs arbitrary: w) (simp_all, simp_all add: blanked_def)

lemma words_blanked: "map blanked xs = map blanked ys \<Longrightarrow> words xs = words ys"
  by (metis words_def words_from_blanked)


subsection \<open>The tokeniser\<close>

text \<open>Recovery of a line.\<close>

definition unzero :: "u8 \<Rightarrow> u8" where
  "unzero b = (if b = 0 then 32 else b)"

lemma split_line:
  obtains sp w tail where "line = sp @ w @ tail" "\<forall>b \<in> set sp. isspace b" "\<forall>b \<in> set w. \<not> isspace b"
    "takeWhile isspace line = sp" "takeWhile (\<lambda>b. \<not> isspace b) (w @ tail) = w" "w = [] \<Longrightarrow> tail = []"
    "tail = [] \<or> (\<exists>b more. tail = b # more \<and> isspace b)"
proof
  let ?t = "dropWhile isspace line"
  let ?w = "takeWhile (\<lambda>b. \<not> isspace b) ?t"
  let ?tail = "dropWhile (\<lambda>b. \<not> isspace b) ?t"
  show "line = takeWhile isspace line @ ?w @ ?tail" by simp
  show "\<forall>b \<in> set (takeWhile isspace line). isspace b" "\<forall>b \<in> set ?w. \<not> isspace b" by (auto dest: set_takeWhileD)
  show "takeWhile isspace line = takeWhile isspace line" "takeWhile (\<lambda>b. \<not> isspace b) (?w @ ?tail) = ?w" by simp_all
  have t: "xs = [] \<or> \<not> P (hd xs)" if "xs = dropWhile P ys" for xs ys and P :: "u8 \<Rightarrow> bool"
    using hd_dropWhile [of P ys] that by auto
  have n: "takeWhile (\<lambda>b. \<not> isspace b) xs = [] \<Longrightarrow> xs = [] \<or> \<not> isspace (hd xs) \<Longrightarrow> dropWhile (\<lambda>b. \<not> isspace b) xs = []" for xs
    by (cases xs) auto
  show "?w = [] \<Longrightarrow> ?tail = []"
    using n [OF _ t [OF refl]] .
  show "?tail = [] \<or> (\<exists>b more. ?tail = b # more \<and> isspace b)"
    using t [of ?tail "\<lambda>b. \<not> isspace b" ?t] by (cases ?tail) auto
qed

lemma tokenize_loop_words:
  assumes "0 \<notin> set line" and "length vec < n"
  shows "\<exists>toks line' e'. tokenize_loop (pre @ line @ e # post) (length pre) (length pre + length line) vec n =
      (vec @ toks, pre @ line' @ e' # post) \<and>
    map (c_string (pre @ line' @ e' # post)) toks = map Done (take (n - length vec) (words line)) \<and>
    map (\<lambda>b. blanked (unzero b)) line' = map blanked line"
  using assms
proof (induction line arbitrary: pre vec rule: length_induct)
  case (1 line)
  let ?buf = "pre @ line @ e # post"
  obtain sp w tail where line: "line = sp @ w @ tail" and sp: "\<forall>b \<in> set sp. isspace b" and w: "\<forall>b \<in> set w. \<not> isspace b"
    and take: "takeWhile isspace line = sp" "takeWhile (\<lambda>b. \<not> isspace b) (w @ tail) = w"
    and none: "w = [] \<Longrightarrow> tail = []" and tail: "tail = [] \<or> (\<exists>b more. tail = b # more \<and> isspace b)"
    by (rule split_line [of line]) blast
  have same: "map (\<lambda>b. blanked (unzero b)) v = map blanked v" if "0 \<notin> set v" for v
    using that by (auto simp: unzero_def)
  show ?case
  proof (cases "w = []")
    case True
    with line none have l: "line = sp" by simp
    have "length (takeWhile isspace sp) = length sp" using sp by (metis takeWhile_eq_all_conv)
    then have "tokenize_loop ?buf (length pre) (length pre + length line) vec n = (vec, ?buf)"
      using l by (subst tokenize_loop.simps) (simp add: Let_def segment_def)
    then show ?thesis
      using same [of line] 1(2) words_blanks [OF sp, of "[]"] l by (auto intro!: exI [of _ line] exI [of _ e])
  next
    case False
    let ?start = "length pre + length sp"
    have seg: "segment (length pre) (length line) ?buf = line" "segment ?start (length w + length tail) ?buf = w @ tail"
      by (simp_all add: segment_def line)
    have step: "tokenize_loop ?buf (length pre) (length pre + length line) vec n =
      (let vec1 = vec @ [?start]; buf1 = ?buf[?start + length w := 0]
       in if length vec1 = n then (vec1, buf1)
          else tokenize_loop buf1 (?start + length w + 1) (length pre + length line) vec1 n)"
      using False line seg take by (subst tokenize_loop.simps) (simp add: Let_def)
    have words: "words line = (case tail of [] \<Rightarrow> [w] | b # rest \<Rightarrow> w # words rest)"
      using words_blanks [OF sp] words_word [OF False w] tail line by auto
    show ?thesis
    proof (cases tail)
      case Nil
      have "c_string (pre @ line @ 0 # post) ?start = Done w"
        using 1(2) line Nil by (intro c_string_eq [of _ _ _ post]) simp_all
      moreover have "tokenize_loop buf (Suc (length pre + length line)) (length pre + length line) v m = (v, buf)" for buf v m
        by (subst tokenize_loop.simps) simp
      ultimately show ?thesis
        using step words same [OF 1(2)] 1(3) line Nil
        by (auto simp: Let_def list_update_append add.assoc intro!: exI [of _ "[?start]"] exI [of _ line] exI [of _ 0])
    next
      case (Cons b more)
      let ?pre = "pre @ sp @ w @ [0]"
      have buf1: "?buf[?start + length w := 0] = ?pre @ more @ e # post"
        using line Cons by (simp add: list_update_append)
      have here: "c_string (?pre @ l @ x # post) ?start = Done w" for l x
        using 1(2) line by (intro c_string_eq [of _ _ _ "l @ x # post"]) simp_all
      have b: "isspace b" using tail Cons by simp
      have line': "map (\<lambda>b. blanked (unzero b)) (sp @ w @ 0 # l) = map blanked line" if "map (\<lambda>b. blanked (unzero b)) l = map blanked more" for l
        using that 1(2) line Cons b same [of sp] same [of w] by (simp add: unzero_def blanked_def)
      show ?thesis
      proof (cases "length vec + 1 = n")
        case True
        then show ?thesis
        proof (intro exI conjI)
          show "tokenize_loop ?buf (length pre) (length pre + length line) vec n = (vec @ [?start], pre @ (sp @ w @ 0 # more) @ e # post)"
            using step buf1 True by (simp add: Let_def)
          show "map (c_string (pre @ (sp @ w @ 0 # more) @ e # post)) [?start] = map Done (take (n - length vec) (words line))"
            using here [of more e] words Cons True by auto
        qed (rule line' [OF same], use 1(2) line Cons in simp)
      next
        case False
        obtain toks l x where rec: "tokenize_loop (?pre @ more @ e # post) (length ?pre) (length ?pre + length more) (vec @ [?start]) n =
            ((vec @ [?start]) @ toks, ?pre @ l @ x # post)"
          "map (c_string (?pre @ l @ x # post)) toks = map Done (take (n - length (vec @ [?start])) (words more))"
          "map (\<lambda>b. blanked (unzero b)) l = map blanked more"
          using 1(1) [rule_format, of more "vec @ [?start]" ?pre] 1(2,3) line Cons False by auto
        have "n - length vec = Suc (n - Suc (length vec))" using 1(3) by simp
        then show ?thesis
        proof (intro exI conjI)
          show "tokenize_loop ?buf (length pre) (length pre + length line) vec n =
              (vec @ (?start # toks), pre @ (sp @ w @ 0 # l) @ x # post)"
            using step buf1 rec(1) False line Cons by (simp add: Let_def add.assoc)
          show "map (c_string (pre @ (sp @ w @ 0 # l) @ x # post)) (?start # toks) = map Done (take (n - length vec) (words line))"
            if "n - length vec = Suc (n - Suc (length vec))"
            using that here [of l x] rec(2) words Cons by simp
        qed (rule line' [OF rec(3)])
      qed
    qed
  qed
qed

lemma recover_line:
  "recover_tokenize_command (pre @ line @ e # post) (length pre) (length pre + length line) = pre @ map unzero line @ 10 # post"
  by (simp add: recover_tokenize_command_def segment_def list_update_append unzero_def)


subsection \<open>Keys\<close>

lemma isdigit_key_char: "isdigit d \<Longrightarrow> key_char d"
  by (auto simp: isdigit_def key_char_def isspace_def iscntrl_def word_le_nat_alt word_less_nat_alt)

lemma decimal_digits: "\<forall>d \<in> set (decimal n). isdigit d \<and> key_char d"
  using decimal_isdigit [of n] isdigit_key_char by auto

definition legal_key :: "bytes \<Rightarrow> bool" where
  "legal_key k \<longleftrightarrow> 0 < length k \<and> length k \<le> 240 \<and> (\<forall>b \<in> set k. key_char b)"

lemma parse_key_token:
  assumes "c_string buf pos = Done k" and "legal_key k"
  shows "parse_ascii_key buf pos = Done (pos, word_of_nat (length k))" and "segment pos (length k) buf = k"
    and "unat (word_of_nat (length k) :: u16) = length k" and "(word_of_nat (length k) :: u16) \<noteq> 0"
proof -
  obtain rest where rest: "drop pos buf = k @ 0 # rest" using c_string_Done(1) [OF assms(1)] by auto
  then have nth: "buf ! (pos + length k) = 0"
    by (metis append_is_Nil_conv drop_eq_Nil le_cases list.distinct(1) nth_append_length nth_drop)
  obtain x more where k: "k = x # more" "key_char x" using assms(2) by (cases k) (auto simp: legal_key_def)
  have blank: "scan_while isspace (drop pos buf) = Done 0" using rest k by (simp add: key_char_def)
  have "\<not> key_char 0" by (simp add: key_char_def)
  then have run: "scan_while key_char (drop pos buf) = Done (length k)"
    using scan_while_stop [of k key_char 0 rest] assms(2) rest by (simp add: legal_key_def)
  have len: "length k < 65536" "length k \<noteq> 0" using assms(2) by (simp_all add: legal_key_def)
  show u: "unat (word_of_nat (length k) :: u16) = length k" using len by (simp add: unat_of_nat)
  show z: "(word_of_nat (length k) :: u16) \<noteq> 0" using u len by (metis unat_0)
  have "\<not> (240::u16) < word_of_nat (length k)" using assms(2) u by (simp add: word_less_nat_alt legal_key_def)
  then show "parse_ascii_key buf pos = Done (pos, word_of_nat (length k))"
    using blank run nth z by (simp add: parse_ascii_key_def)
  show "segment pos (length k) buf = k" using rest by (simp add: segment_def)
qed

lemma storage_names:
  "ascii_to_cmd (lit ''set'' @ 32 # rest) = SET_CMD" "ascii_to_cmd (lit ''add'' @ 32 # rest) = ADD_CMD"
  "ascii_to_cmd (lit ''replace'' @ 32 # rest) = REPLACE_CMD" "ascii_to_cmd (lit ''append'' @ 32 # rest) = APPEND_CMD"
  "ascii_to_cmd (lit ''prepend'' @ 32 # rest) = PREPEND_CMD"
  by (simp_all add: ascii_to_cmd_def commands_def lit_def)


subsection \<open>Properties of the line parser\<close>

text \<open>
  C32: Tokenising the line of a command finds its words: for a line without zero bytes, the strings at
  the token positions of the changed buffer are the first ten words of the line, and the buffer is
  unchanged outside of the line and its end.
\<close>

theorem tokenize_finds_words:
  assumes "0 \<notin> set line"
  shows "\<exists>toks line' e. ascii_tokenize_command (before @ line @ 10 # rest) (length before) (length before + length line) 10 =
      (toks, before @ line' @ e # rest) \<and> length line' = length line \<and>
    map (c_string (before @ line' @ e # rest)) toks = map Done (take 10 (words line))"
  using tokenize_loop_words [OF assms, of "[]" 10 before 10 rest]
  by (auto simp: ascii_tokenize_command_def dest: map_eq_imp_length_eq)

theorem tokenize_finds_words_witness:
  "0 \<notin> set (lit '' set  a 0'' @ [13]) \<and>
   (\<exists>toks line' e. ascii_tokenize_command ([7] @ (lit '' set  a 0'' @ [13]) @ 10 # [99]) 1 (1 + 10) 10 =
      (toks, [7] @ line' @ e # [99]) \<and> length line' = 10 \<and>
    map (c_string ([7] @ line' @ e # [99])) toks = [Done (lit ''set''), Done (lit ''a''), Done (lit ''0'')])"
proof -
  have z: "0 \<notin> set (lit '' set  a 0'' @ [13])" by (simp add: lit_def)
  have "words (lit '' set  a 0'' @ [13]) = [lit ''set'', lit ''a'', lit ''0'']" by (simp add: words_def lit_def isspace_def)
  then show ?thesis using z tokenize_finds_words [OF z, of "[7]" "[99]"] by (simp add: lit_def eval_nat_numeral)
qed

text \<open>
  C33: When the data of a storage command is incomplete the line is put back: recovery after
  tokenising gives a line of the same length, ending in a newline, with the same words, so the retry
  with more data sees the same command.
\<close>

theorem recover_keeps_words:
  assumes "0 \<notin> set line"
  shows "\<exists>line'. recover_tokenize_command
      (snd (ascii_tokenize_command (before @ line @ 10 # rest) (length before) (length before + length line) 10))
      (length before) (length before + length line) = before @ line' @ 10 # rest \<and>
    length line' = length line \<and> words line' = words line"
proof -
  obtain toks l e where t: "tokenize_loop (before @ line @ 10 # rest) (length before) (length before + length line) [] 10 =
      (toks, before @ l @ e # rest)" "map (\<lambda>b. blanked (unzero b)) l = map blanked line"
    using tokenize_loop_words [OF assms, of "[]" 10 before 10 rest] by auto
  have "length l = length line" using arg_cong [OF t(2), of length] by simp
  moreover have "words (map unzero l) = words line" using t(2) by (intro words_blanked) (simp add: comp_def)
  ultimately show ?thesis
    using t(1) recover_line [of before l e rest] by (auto simp: ascii_tokenize_command_def)
qed

theorem recover_keeps_words_witness:
  "0 \<notin> set (lit ''set a'' @ [9, 53, 13]) \<and>
   (\<exists>line'. recover_tokenize_command (snd (ascii_tokenize_command ([] @ (lit ''set a'' @ [9, 53, 13]) @ 10 # [1]) 0 (0 + 8) 10)) 0 (0 + 8) =
      [] @ line' @ 10 # [1] \<and> length line' = 8 \<and> words line' = [lit ''set'', lit ''a'', lit ''5''])"
proof -
  have z: "0 \<notin> set (lit ''set a'' @ [9, 53, 13])" by (simp add: lit_def)
  have "words (lit ''set a'' @ [9, 53, 13]) = [lit ''set'', lit ''a'', lit ''5'']" by (simp add: words_def lit_def isspace_def)
  then show ?thesis using z recover_keeps_words [OF z, of "[]" "[1]"] by (simp add: lit_def eval_nat_numeral)
qed

end
