(* ===== verification/Ascii_Storage.thy ===== *)
theory Ascii_Storage
  imports Ascii_Tokens
begin

text \<open>
  The storage commands of the text protocol: a well-formed request that has arrived completely leads
  to one call of the callback, with the key, data and numbers of the request.
\<close>

subsection \<open>The text of a request\<close>

definition storage_line :: "string \<Rightarrow> bytes \<Rightarrow> u32 \<Rightarrow> u32 \<Rightarrow> nat \<Rightarrow> bytes" where
  "storage_line name key flags exptime nbytes =
     lit name @ 32 # key @ 32 # decimal (unat flags) @ 32 # decimal (unat exptime) @ 32 # decimal nbytes @ [13]"

definition storage_text :: "string \<Rightarrow> bytes \<Rightarrow> u32 \<Rightarrow> u32 \<Rightarrow> bytes \<Rightarrow> bytes" where
  "storage_text name key flags exptime data = storage_line name key flags exptime (length data) @ 10 # data @ crlf"

text \<open>The five commands with the same arguments.\<close>

definition storage_commands_list :: "(string \<times> ascii_cmd) list" where
  "storage_commands_list =
     [(''set'', SET_CMD), (''add'', ADD_CMD), (''replace'', REPLACE_CMD), (''append'', APPEND_CMD), (''prepend'', PREPEND_CMD)]"

lemma storage_name:
  assumes "(name, cmd) \<in> set storage_commands_list"
  shows "ascii_to_cmd (lit name @ 32 # rest) = cmd" "lit name \<noteq> []" "\<forall>b \<in> set (lit name). key_char b"
    "cmd \<in> {SET_CMD, ADD_CMD, REPLACE_CMD, APPEND_CMD, PREPEND_CMD}"
  using assms
  by (auto simp: storage_commands_list_def storage_names) (auto simp: lit_def key_char_def isspace_def iscntrl_def)

lemma key_char_plain: "key_char b \<Longrightarrow> b \<noteq> 0 \<and> b \<noteq> 10 \<and> \<not> isspace b"
  by (auto simp: key_char_def isspace_def)

lemma storage_line_words:
  assumes "(name, cmd) \<in> set storage_commands_list" and "legal_key key"
  shows "words (storage_line name key flags exptime n) =
      [lit name, key, decimal (unat flags), decimal (unat exptime), decimal n]"
    and "0 \<notin> set (storage_line name key flags exptime n)" and "10 \<notin> set (storage_line name key flags exptime n)"
proof -
  have plain: "\<forall>b \<in> set v. key_char b \<Longrightarrow> \<forall>b \<in> set v. \<not> isspace b" for v by (auto dest: key_char_plain)
  have word: "words (v @ b # rest) = v # words rest" if "v \<noteq> []" "\<forall>b \<in> set v. key_char b" "isspace b" for v b rest
    using words_word(2) [OF that(1) plain [OF that(2)] that(3)] .
  have d: "\<forall>b \<in> set (decimal m). key_char b" for m using decimal_digits by auto
  have k: "key \<noteq> []" "\<forall>b \<in> set key. key_char b" using assms(2) by (auto simp: legal_key_def)
  have no: "\<forall>b \<in> set v. key_char b \<Longrightarrow> 0 \<notin> set v \<and> 10 \<notin> set v" for v by (auto dest: key_char_plain)
  have cr: "isspace 13" by (simp add: isspace_def)
  note parts = storage_name(2,3) [OF assms(1)] k d decimal_nonempty
  show "words (storage_line name key flags exptime n) =
      [lit name, key, decimal (unat flags), decimal (unat exptime), decimal n]"
    using parts cr by (simp add: storage_line_def word)
  show "0 \<notin> set (storage_line name key flags exptime n)" "10 \<notin> set (storage_line name key flags exptime n)"
    using no [OF parts(2)] no [OF parts(4)] no [OF d] by (auto simp: storage_line_def)
qed


subsection \<open>Executing a request\<close>

lemma obind_obind: "obind (obind m f) g = obind m (\<lambda>x. obind (f x) g)"
  by (cases m) simp_all

lemma memchr_first: "x \<notin> set v \<Longrightarrow> memchr x (v @ x # rest) = Some (length v)"
  by (simp add: memchr_def Let_def takeWhile_append takeWhile_eq_all_conv)

lemma decimal_not_noreply: "decimal n \<noteq> lit ''noreply''"
proof
  assume "decimal n = lit ''noreply''"
  then have "hd (lit ''noreply'') \<in> set (decimal n)" by (simp add: lit_def)
  then show False using decimal_digits [of n] by (auto simp: lit_def isdigit_def)
qed

lemma token_number_decimal:
  assumes "c_string (rt_input c) (tokens ! i) = Done (decimal n)" and "n < 18446744073709551616"
  shows "token_number tokens i c = Done (word_of_nat n, False)"
  using assms by (simp add: token_number_def strtoul_decimal)

lemma sint_small: "n < 9223372036854775808 \<Longrightarrow> sint (word_of_nat n :: u64) = int n"
  by (simp add: signed_of_nat signed_take_bit_int_eq_self)

lemma ucast_word_of_unat: "ucast (word_of_nat (unat f) :: u64) = (f :: u32)"
  by (rule word_unat_eq_iff [THEN iffD2]) (use unat_bounds(3) [of f] in \<open>simp add: unsigned_ucast_eq unat_of_nat take_bit_nat_eq_self take_bit_word_eq_self\<close>)

text \<open>All the tokens of the line have been found.\<close>

lemma storage_command_complete:
  assumes cmd: "(name, cmd) \<in> set storage_commands_list" "cl_ascii c = cmd" and key: "legal_key key"
    and toks: "map (c_string (rt_input c)) toks = map Done [lit name, key, decimal (unat flags), decimal (unat exptime), decimal (length data)]"
    and buf: "rt_input c = pre @ line @ e # data @ crlf @ post"
    and small: "length line + length data + 3 \<le> len" "len < 4294967296"
    and call: "store_call cb toks key data flags exptime a c = Done (Some st, a')"
  shows "process_storage_command cb toks (length pre) (length pre + length line) len a c =
    obind (say (storage_reply cmd st) c) (\<lambda>c1. Done (0, length data + 2, a', c1))"
proof -
  have l: "length toks = 5" using arg_cong [OF toks, of length] by simp
  have nth: "c_string (rt_input c) (toks ! i) = map Done [lit name, key, decimal (unat flags), decimal (unat exptime), decimal (length data)] ! i"
    if "i < 5" for i
    using that l toks by (metis nth_map)
  have tok: "c_string (rt_input c) (toks ! 1) = Done key" "c_string (rt_input c) (toks ! 2) = Done (decimal (unat flags))"
    "c_string (rt_input c) (toks ! 3) = Done (decimal (unat exptime))" "c_string (rt_input c) (toks ! 4) = Done (decimal (length data))"
    using nth [of 1] nth [of 2] nth [of 3] nth [of 4] by simp_all
  note k = parse_key_token [OF tok(1) key]
  have lt: "unat (w :: u32) < 18446744073709551616" for w using unat_bounds(3) [of w] by simp
  note num = token_number_decimal [OF tok(2) lt] token_number_decimal [OF tok(3) lt]
    token_number_decimal [OF tok(4)]
  let ?need = "word_of_nat (length data) + word_of_nat (length line + 1) + 2 :: u64"
  have need: "?need = word_of_nat (length data + length line + 3)" by simp
  have "sint ?need = int (length data + length line + 3)"
    unfolding need using small by (intro sint_small) simp
  moreover have "unat (ucast (word_of_nat (length data) :: u64) :: u32) = length data" "unat (word_of_nat (length data) :: u64) = length data"
    using small by (simp_all add: unat_of_nat unsigned_ucast_eq take_bit_nat_eq_self)
  moreover have "read_at (rt_input c) (Suc (length pre + length line)) (length data) = Done data"
    using buf by (simp add: read_at_def segment_def)
  moreover have "length pre + length line + length data + 2 \<le> length (rt_input c)" using buf by (simp add: crlf_def)
  ultimately show ?thesis
    using k num small call cmd by (simp add: ucast_word_of_unat [simplified] process_storage_command_def Let_def)
qed

lemma store_call_plain:
  assumes "(name, cmd) \<in> set storage_commands_list" and "cl_ascii c = cmd"
    and "store_call cb [] key data flags exptime a (c0\<lparr>cl_ascii := cmd\<rparr>) = Done (Some st, a')"
  shows "store_call cb toks key data flags exptime a c = Done (Some st, a')"
    and "ascii_switch cb toks 5 ptr line_end len a c = process_storage_command cb toks ptr line_end len a c"
  using assms
  by (auto simp: storage_commands_list_def store_call_def ascii_switch_def storage_commands checked_storage_def
      split: option.splits)

lemma storage_request_command:
  assumes cmd: "(name, cmd) \<in> set storage_commands_list" "cl_ascii c = cmd" and key: "legal_key key"
    and line: "line = storage_line name key flags exptime (length data)"
    and buf: "rt_input c = pre @ line @ 10 # data @ crlf @ post"
    and small: "length line + length data + 3 \<le> len" "len < 4294967296"
    and call: "store_call cb [] key data flags exptime a (c0\<lparr>cl_ascii := cmd\<rparr>) = Done (Some st, a')"
  shows "\<exists>buf. length buf = length (rt_input c) \<and>
    ascii_command cb (length pre) (length pre + length line) len a c =
      obind (say (storage_reply cmd st) (c\<lparr>rt_input := buf, cl_mute := False\<rparr>)) (\<lambda>c1. Done (0, length data + 2, a', c1))"
proof -
  note w = storage_line_words [OF cmd(1) key, of flags exptime "length data", folded line]
  obtain toks line' e where tok: "tokenize_loop (rt_input c) (length pre) (length pre + length line) [] 10 =
        (toks, pre @ line' @ e # data @ crlf @ post)"
      "map (c_string (pre @ line' @ e # data @ crlf @ post)) toks = map Done (words line)"
      "map (\<lambda>b. blanked (unzero b)) line' = map blanked line"
    using tokenize_loop_words [of line "[]" 10 pre 10 "data @ crlf @ post"] w buf by auto
  have len: "length line' = length line" using arg_cong [OF tok(3), of length] by simp
  let ?buf = "pre @ line' @ e # data @ crlf @ post"
  have "length toks = 5" using arg_cong [OF tok(2), of length] w by simp
  moreover from this tok(2) have "c_string ?buf (toks ! 4) = Done (decimal (length data))"
    using nth_map [of 4 toks "c_string ?buf"] w(1) by simp
  ultimately have noreply: "take_noreply toks (c\<lparr>rt_input := ?buf\<rparr>) = Done (5, c\<lparr>rt_input := ?buf, cl_mute := False\<rparr>)"
    by (simp add: take_noreply_def Let_def decimal_not_noreply)
  let ?c = "c\<lparr>rt_input := ?buf, cl_mute := False\<rparr>"
  have "process_storage_command cb toks (length pre) (length pre + length line') len a ?c =
      obind (say (storage_reply cmd st) ?c) (\<lambda>c1. Done (0, length data + 2, a', c1))"
    using storage_command_complete [OF cmd(1) _ key, of ?c toks flags exptime data pre line' e post len cb a st a']
      store_call_plain(1) [OF cmd(1) _ call, of ?c toks] tok(2) w(1) small cmd(2) len by simp
  moreover have "\<not> (cmd = GET_CMD \<or> cmd = GETS_CMD)" using storage_name(4) [OF cmd(1)] by auto
  ultimately show ?thesis
    using tok(1) noreply len cmd(2) store_call_plain(2) [OF cmd(1) _ call, of ?c toks] buf
    by (intro exI [of _ ?buf]) (simp add: ascii_command_def ascii_tokenize_command_def)
qed

lemma storage_request_processed:
  assumes cmd: "(name, cmd) \<in> set storage_commands_list" and key: "legal_key key"
    and request: "request = storage_text name key flags exptime data" "length request < 4294967296"
    and buf: "rt_input c = request @ post"
    and call: "store_call (v1 cb) [] key data flags exptime (run_hook (pre_execute cb) None a) (c\<lparr>cl_ascii := cmd\<rparr>) = Done (Some st, a')"
  shows "\<exists>buf. length buf = length (rt_input c) \<and>
    memcached_ascii_protocol_process_data cb (length request) a c =
      obind (say (storage_reply cmd st) (c\<lparr>cl_ascii := cmd, rt_input := buf, cl_mute := False\<rparr>)) (\<lambda>c1.
        Done \<lparr>ev_event = MEMCACHED_PROTOCOL_READ_EVENT, ev_length = 0, ev_endptr = Some (length request),
          ev_app = run_hook (post_execute cb) None a', ev_client = c1\<rparr>)"
proof -
  let ?line = "storage_line name key flags exptime (length data)"
  have seg: "segment 0 (length request) (rt_input c) = ?line @ 10 # data @ crlf"
    using buf request by (simp add: segment_def storage_text_def)
  have name: "ascii_to_cmd (?line @ 10 # data @ crlf) = cmd" by (simp add: storage_line_def storage_name(1) [OF cmd])
  have first: "memchr 10 (?line @ 10 # data @ crlf) = Some (length ?line)"
    by (intro memchr_first storage_line_words(3) [OF cmd key])
  obtain b where b: "length b = length (rt_input c)"
    "ascii_command (v1 cb) 0 (length ?line) (length request) (run_hook (pre_execute cb) None a) (c\<lparr>cl_ascii := cmd\<rparr>) =
      obind (say (storage_reply cmd st) (c\<lparr>cl_ascii := cmd, rt_input := b, cl_mute := False\<rparr>)) (\<lambda>c1. Done (0, length data + 2, a', c1))"
    using storage_request_command [OF cmd _ key refl, where c = "c\<lparr>cl_ascii := cmd\<rparr>" and pre = "[]" and post = post and
        len = "length request", OF _ _ _ _ call] buf request
    by (auto simp: storage_text_def crlf_def)
  show ?thesis
    using b seg name first request(1)
    by (intro exI [of _ b])
      (simp add: memcached_ascii_protocol_process_data_def ascii_loop.simps [of cb 0] storage_text_def crlf_def
        Let_def obind_obind)
qed


subsection \<open>Lookups\<close>

lemma parse_key_until:
  assumes buf: "drop pos buf = sp @ k @ x # rest" and sp: "\<forall>b \<in> set sp. isspace b" and k: "legal_key k" and x: "x = 13 \<or> x = 32"
  shows "parse_ascii_key buf pos = Done (pos + length sp, word_of_nat (length k))"
    and "segment (pos + length sp) (length k) buf = k"
    and "unat (word_of_nat (length k) :: u16) = length k" and "(word_of_nat (length k) :: u16) \<noteq> 0"
proof -
  have start: "drop (pos + length sp) buf = k @ x # rest"
    using arg_cong [OF buf, of "drop (length sp)"] by (simp add: add.commute)
  then have nth: "buf ! (pos + length sp + length k) = x"
    by (metis append_is_Nil_conv drop_eq_Nil le_cases list.distinct(1) nth_append_length nth_drop)
  obtain y more where y: "k = y # more" "key_char y" using k by (cases k) (auto simp: legal_key_def)
  have blank: "scan_while isspace (drop pos buf) = Done (length sp)"
    using scan_while_stop [OF sp, of y "more @ x # rest"] buf y by (simp add: key_char_def)
  have "\<not> key_char x" using x by (auto simp: key_char_def isspace_def)
  then have run: "scan_while key_char (drop (pos + length sp) buf) = Done (length k)"
    using scan_while_stop [of k key_char x rest] k start by (simp add: legal_key_def)
  have len: "length k < 65536" "length k \<noteq> 0" using k by (simp_all add: legal_key_def)
  show u: "unat (word_of_nat (length k) :: u16) = length k" using len by (simp add: unat_of_nat)
  show z: "(word_of_nat (length k) :: u16) \<noteq> 0" using u len by (metis unat_0)
  have "\<not> (240::u16) < word_of_nat (length k)" using k u by (simp add: word_less_nat_alt legal_key_def)
  moreover have "\<not> (x \<noteq> 0 \<and> x \<noteq> 13 \<and> iscntrl x)" using x by (auto simp: iscntrl_def)
  ultimately show "parse_ascii_key buf pos = Done (pos + length sp, word_of_nat (length k))"
    using blank run nth z by (simp add: parse_ascii_key_def)
  show "segment (pos + length sp) (length k) buf = k" using start by (simp add: segment_def)
qed

lemma put_frame: "put bs c = Done c' \<Longrightarrow> frame c' = frame c"
  using spool_output_frame [of c bs] by (auto simp: put_def obind_Done_iff)

lemma ascii_get_response_frame: "ascii_get_response_handler item c = Done (st, c') \<Longrightarrow> frame c' = frame c"
  by (auto simp: ascii_get_response_handler_def Let_def obind_Done_iff dest!: put_frame split: if_splits)

lemma run_get_frame: "run_app ascii_get_response_handler t c = Done (st, a, c') \<Longrightarrow> frame c' = frame c"
proof (induction t arbitrary: c)
  case (Call r k)
  then obtain st1 c1 where "ascii_get_response_handler r c = Done (st1, c1)"
    "run_app ascii_get_response_handler (k st1) c1 = Done (st, a, c')"
    by (auto simp: obind_Done_iff)
  then show ?case using Call.IH ascii_get_response_frame by fastforce
qed simp

lemma gets_loop_reads_on:
  assumes buf: "rt_input c = before @ k1 @ [13, 10] @ k2 @ 32 # rest" and keys: "legal_key k1" "legal_key k2"
  shows "gets_loop get (length before) (length before + length k1 + 1) n a c =
    obind (run_app ascii_get_response_handler (get k1 a) c) (\<lambda>(_, a1, c1).
    obind (run_app ascii_get_response_handler (get k2 a1) c1) (\<lambda>(_, a2, c2). Done (n + 2, a2, c2)))"
proof -
  let ?p = "length before" and ?q = "length before + length k1"
  have p: "drop ?p (rt_input c) = [] @ k1 @ 13 # 10 # k2 @ 32 # rest" using buf by simp
  have q: "drop ?q (rt_input c) = [13, 10] @ k2 @ 32 # rest" using buf by simp
  note k1 = parse_key_until [OF p _ keys(1)]
  have blanks: "\<forall>b \<in> set [13, 10]. isspace b" by (simp add: isspace_def)
  note k2 = parse_key_until [OF q blanks keys(2)]
  have second: "gets_loop get ?q (?p + length k1 + 1) (Suc n) a1 c1 =
      obind (run_app ascii_get_response_handler (get k2 a1) c1) (\<lambda>(_, a2, c2). Done (n + 2, a2, c2))"
    if "rt_input c1 = rt_input c" for a1 c1
  proof -
    have last: "gets_loop get (?q + 2 + length k2) (?p + length k1 + 1) (Suc (Suc n)) a2 c2 = Done (n + 2, a2, c2)" for a2 c2
      by (subst gets_loop.simps) simp
    show ?thesis using k2 that last by (subst gets_loop.simps) (simp add: case_prod_unfold)
  qed
  have step: "obind (run_app ascii_get_response_handler (get k1 a) c) (\<lambda>(_, a1, c1). gets_loop get ?q (?p + length k1 + 1) (Suc n) a1 c1) =
      obind (run_app ascii_get_response_handler (get k1 a) c) (\<lambda>(_, a1, c1).
      obind (run_app ascii_get_response_handler (get k2 a1) c1) (\<lambda>(_, a2, c2). Done (n + 2, a2, c2)))"
  proof (rule obind_cong [OF refl])
    fix x
    assume run: "run_app ascii_get_response_handler (get k1 a) c = Done x"
    obtain st a1 c1 where x: "x = (st, a1, c1)" by (cases x)
    have "rt_input c1 = rt_input c" using run_get_frame [OF run [unfolded x]] by (rule frameD(5))
    then show "(case x of (_, a1, c1) \<Rightarrow> gets_loop get ?q (?p + length k1 + 1) (Suc n) a1 c1) =
      (case x of (_, a1, c1) \<Rightarrow> obind (run_app ascii_get_response_handler (get k2 a1) c1) (\<lambda>(_, a2, c2). Done (n + 2, a2, c2)))"
      using second x by simp
  qed
  show ?thesis using k1 step by (subst gets_loop.simps) simp
qed


subsection \<open>Properties of the text protocol\<close>

text \<open>
  C8: A complete request \<open>set\<close>, \<open>add\<close>, \<open>replace\<close>, \<open>append\<close> or \<open>prepend\<close> at the front of the buffer
  leads to exactly one call of the callback, with the key, data, flags and expiration of the request;
  its status is answered and exactly the bytes of the request are consumed.
\<close>

theorem ascii_storage_executed:
  assumes "(name, cmd) \<in> set storage_commands_list" and "legal_key key"
    and "request = storage_text name key flags exptime data" "length request < 4294967296"
    and "rt_input c = request @ post"
    and "store_call (v1 cb) [] key data flags exptime (run_hook (pre_execute cb) None a) (c\<lparr>cl_ascii := cmd\<rparr>) = Done (Some st, a')"
  shows "\<exists>buf. length buf = length (rt_input c) \<and>
    memcached_ascii_protocol_process_data cb (length request) a c =
      obind (say (storage_reply cmd st) (c\<lparr>cl_ascii := cmd, rt_input := buf, cl_mute := False\<rparr>)) (\<lambda>c1.
        Done \<lparr>ev_event = MEMCACHED_PROTOCOL_READ_EVENT, ev_length = 0, ev_endptr = Some (length request),
          ev_app = run_hook (post_execute cb) None a', ev_client = c1\<rparr>)"
  using assms by (rule storage_request_processed)

theorem ascii_storage_executed_witness:
  "\<exists>buf. length buf = length (storage_text ''set'' [107] 3 4 [1, 2] @ [0]) \<and>
    memcached_ascii_protocol_process_data sample_cb (length (storage_text ''set'' [107] 3 4 [1, 2])) 0
      (sample_client\<lparr>rt_input := storage_text ''set'' [107] 3 4 [1, 2] @ [0]\<rparr>) =
    obind (say (lit ''STORED'' @ crlf) (sample_client\<lparr>cl_ascii := SET_CMD, rt_input := buf, cl_mute := False\<rparr>)) (\<lambda>c1.
      Done \<lparr>ev_event = MEMCACHED_PROTOCOL_READ_EVENT, ev_length = 0,
        ev_endptr = Some (length (storage_text ''set'' [107] 3 4 [1, 2])), ev_app = 1, ev_client = c1\<rparr>)"
proof -
  let ?r = "storage_text ''set'' [107] 3 4 [1, 2]"
  let ?c = "sample_client\<lparr>rt_input := ?r @ [0]\<rparr>"
  have len: "length ?r < 4294967296"
    by (simp add: storage_text_def storage_line_def lit_def crlf_def decimal.simps)
  have cmd: "(''set'', SET_CMD) \<in> set storage_commands_list" by (simp add: storage_commands_list_def)
  have key: "legal_key [107]" by (simp add: legal_key_def key_char_def isspace_def iscntrl_def)
  have call: "store_call (v1 sample_cb) [] [107] [1, 2] 3 4 (run_hook (pre_execute sample_cb) None 0) (?c\<lparr>cl_ascii := SET_CMD\<rparr>) =
      Done (Some PROTOCOL_BINARY_RESPONSE_SUCCESS, 1)"
    by (simp add: store_call_def sample_cb_def sample_v1_def run_hook_def)
  have eq: "?c\<lparr>cl_ascii := SET_CMD, rt_input := b, cl_mute := False\<rparr> =
      sample_client\<lparr>cl_ascii := SET_CMD, rt_input := b, cl_mute := False\<rparr>" for b
    by simp
  have "storage_reply SET_CMD PROTOCOL_BINARY_RESPONSE_SUCCESS = lit ''STORED'' @ crlf" by (simp add: storage_reply_def)
  moreover have "run_hook (post_execute sample_cb) None (1::nat) = 1" by (simp add: sample_cb_def run_hook_def)
  ultimately show ?thesis
    using ascii_storage_executed [OF cmd key refl len, of ?c "[0]" sample_cb 0 PROTOCOL_BINARY_RESPONSE_SUCCESS 1, OF _ call]
    unfolding eq by simp
qed

text \<open>
  C35: A \<open>get\<close> runs on into the next line: the blanks skipped before a key include the end of the line,
  so after the last key the first word behind the line, of the next command or of bytes an earlier
  request left in the buffer, is looked up as another key.
\<close>

theorem gets_looks_up_next_line:
  assumes "rt_input c = lit ''get '' @ key @ [13, 10] @ next_word @ 32 # rest" and "legal_key key" "legal_key next_word"
    and "cl_ascii c = GET_CMD"
  shows "ascii_process_gets get 0 (4 + length key + 1) a c =
    obind (run_app ascii_get_response_handler (get key a) c) (\<lambda>(_, a1, c1).
    obind (run_app ascii_get_response_handler (get next_word a1) c1) (\<lambda>(_, a2, c2).
    obind (put (lit ''END'' @ crlf) c2) (\<lambda>c3. Done (a2, c3))))"
proof -
  have "length (lit ''get '') = 4" by (simp add: lit_def)
  then show ?thesis
    using gets_loop_reads_on [OF assms(1-3), of get 0 a] assms(4)
    by (simp add: ascii_process_gets_def obind_obind case_prod_unfold)
qed

theorem gets_looks_up_next_line_witness:
  "ascii_process_gets (\<lambda>key keys. Ret PROTOCOL_BINARY_RESPONSE_KEY_ENOENT (keys @ [key])) 0 (4 + 1 + 1) []
     (sample_client\<lparr>rt_input := lit ''get '' @ lit ''a'' @ [13, 10] @ lit ''set'' @ 32 # lit ''b 0 0 1''\<rparr>) =
   obind (put (lit ''END'' @ crlf) (sample_client\<lparr>rt_input := lit ''get '' @ lit ''a'' @ [13, 10] @ lit ''set'' @ 32 # lit ''b 0 0 1''\<rparr>))
     (\<lambda>c. Done ([lit ''a'', lit ''set''], c))"
proof -
  have "legal_key (lit ''a'')" "legal_key (lit ''set'')" "length (lit ''a'') = 1"
    by (simp_all add: legal_key_def lit_def key_char_def isspace_def iscntrl_def)
  then show ?thesis
    using gets_looks_up_next_line [of "sample_client\<lparr>rt_input := lit ''get '' @ lit ''a'' @ [13, 10] @ lit ''set'' @ 32 # lit ''b 0 0 1''\<rparr>"
        "lit ''a''" "lit ''set''" "lit ''b 0 0 1''" "\<lambda>key keys. Ret PROTOCOL_BINARY_RESPONSE_KEY_ENOENT (keys @ [key])" "[]"]
    by (simp add: sample_client_def)
qed

text \<open>
  C36: A plain \<open>stats\<close> command hands the application the bytes behind the line: the blanks skipped before
  the key include the newline, the length of the key becomes negative and, cut to 16 bits, announces
  65535 bytes.
\<close>

theorem stats_without_key_reads_on:
  assumes "rt_input c = lit ''stats'' @ [13, 10] @ x # rest" and "\<not> isspace x" and "65535 \<le> length (x # rest)"
    and "v1_stat cb = Some stat" and "cl_ascii c = STATS_CMD"
  shows "ascii_command cb 0 6 7 a c =
    obind (run_app ascii_stat_response_handler (stat (take 65535 (x # rest)) a)
      (c\<lparr>cl_mute := False, rt_input := lit ''stats'' @ [32, 10] @ x # rest\<rparr>)) (\<lambda>(_, a1, c1). Done (0, 0, a1, c1))"
proof -
  let ?buf = "lit ''stats'' @ [0, 10] @ x # rest" and ?line = "lit ''stats'' @ [32, 10] @ x # rest"
  have lit: "lit ''stats'' = [115, 116, 97, 116, 115]" by (simp add: lit_def)
  have sp: "isspace 13" "isspace 10" "\<not> isspace 115" "\<not> isspace 116" "\<not> isspace 97" by (simp_all add: isspace_def)
  have tok: "ascii_tokenize_command (rt_input c) 0 6 10 = ([0], ?buf)"
    unfolding ascii_tokenize_command_def assms(1) lit using sp
    by (subst tokenize_loop.simps) (simp add: segment_def Let_def tokenize_loop.simps [of _ "Suc (Suc (Suc (Suc (Suc (Suc 0)))))" 6])
  have "c_string ?buf 0 = Done (lit ''stats'')"
    by (rule c_string_eq [of _ _ _ "10 # x # rest"]) (simp_all add: lit)
  then have noreply: "take_noreply [0] (c\<lparr>rt_input := ?buf\<rparr>) = Done (1, c\<lparr>rt_input := ?buf, cl_mute := False\<rparr>)"
    by (simp add: take_noreply_def Let_def lit_def)
  have recover: "recover_tokenize_command ?buf 0 6 = ?line"
    by (simp add: recover_tokenize_command_def segment_def lit)
  have blanks: "scan_while isspace (drop 6 ?line) = Done 1" using assms(2) sp by (simp add: lit)
  have "read_at ?line 7 65535 = Done (take 65535 (x # rest))" using assms(3) by (simp add: read_at_def segment_def lit)
  moreover have "unat (- 1 :: u16) = 65535" by (simp add: unsigned_minus_1_eq_mask mask_eq_exp_minus_1)
  ultimately show ?thesis
    using tok noreply recover blanks assms(4,5)
    by (simp add: map_obind ascii_command_def ascii_switch_def command_done_def process_stats_def obind_obind case_prod_unfold)
qed

theorem stats_without_key_reads_on_witness:
  "ascii_command (sample_v1\<lparr>v1_stat := Some (\<lambda>key a. Ret PROTOCOL_BINARY_RESPONSE_SUCCESS (length key))\<rparr>) 0 6 7 0
     (sample_client\<lparr>cl_ascii := STATS_CMD, rt_input := lit ''stats'' @ [13, 10] @ 7 # replicate 65600 7\<rparr>) =
   Done (0, 0, 65535, sample_client\<lparr>cl_ascii := STATS_CMD, cl_mute := False,
     rt_input := lit ''stats'' @ [32, 10] @ 7 # replicate 65600 7\<rparr>)"
  using stats_without_key_reads_on [of "sample_client\<lparr>cl_ascii := STATS_CMD, rt_input := lit ''stats'' @ [13, 10] @ 7 # replicate 65600 7\<rparr>"
      7 "replicate 65600 7" "sample_v1\<lparr>v1_stat := Some (\<lambda>key a. Ret PROTOCOL_BINARY_RESPONSE_SUCCESS (length key))\<rparr>"
      "\<lambda>key a. Ret PROTOCOL_BINARY_RESPONSE_SUCCESS (length key)" 0]
  by (simp add: isspace_def)

end
