(* ===== verification/Protocol_Handler.thy ===== *)
theory Protocol_Handler
  imports Protocol_Invariant
begin

text \<open>
  The remaining part of \<open>libmemcachedprotocol/handler.c\<close>: instances and clients, the choice of the
  protocol from the first byte of a connection, and \<open>memcached_protocol_client_work\<close>, which
  receives, processes what is complete, keeps the rest for later and sends what is queued.
\<close>

subsection \<open>Instances and clients\<close>

record protocol_st =
  ps_pedantic :: bool
  ps_input :: bytes
  ps_cache :: cache_t

definition input_buffer_size :: nat where "input_buffer_size = 1024 * 1024"

text \<open>
  The allocations are given: of the instance, of the input buffer (with its contents) and those of
  \<open>cache_create\<close>.  A chunk is a \<open>struct\<close> of 40 bytes and its data.
\<close>

definition memcached_protocol_create_instance ::
  "bool \<Rightarrow> bool \<Rightarrow> bytes option \<Rightarrow> bool \<times> bool \<times> bool \<Rightarrow> protocol_st option outcome" where
  "memcached_protocol_create_instance ndebug ret_ok buffer callocs =
     (if \<not> ret_ok then Done None
      else
        (case buffer of
           None \<Rightarrow> Done None
         | Some input \<Rightarrow>
             obind (cache_create ndebug callocs (lit ''protocol_handler'') (CHUNK_BUFFERSIZE + 40) None) (\<lambda>cache.
               Done (map_option (\<lambda>k. \<lparr>ps_pedantic = False, ps_input = input, ps_cache = k\<rparr>) cache))))"

definition memcached_binary_protocol_set_pedantic :: "bool \<Rightarrow> protocol_st \<Rightarrow> protocol_st" where
  "memcached_binary_protocol_set_pedantic enable instance_st = instance_st\<lparr>ps_pedantic := enable\<rparr>"

definition memcached_binary_protocol_get_pedantic :: "protocol_st \<Rightarrow> bool" where
  "memcached_binary_protocol_get_pedantic instance_st = ps_pedantic instance_st"

text \<open>The buffers of the cache that are released with the instance.\<close>

definition memcached_protocol_destroy_instance :: "bool \<Rightarrow> protocol_st \<Rightarrow> cache_event list" where
  "memcached_protocol_destroy_instance ndebug instance_st = cache_destroy ndebug False (ps_cache instance_st)"

definition no_command :: protocol_binary_request_header where
  "no_command = \<lparr>req_magic = 0, req_opcode = 0, req_keylen = 0, req_extlen = 0, req_datatype = 0,
     req_vbucket = 0, req_bodylen = 0, req_opaque = 0, req_cas = 0\<rparr>"

text \<open>A new client of an instance, with the scripts of the system; \<open>calloc\<close> zeroes the rest.\<close>

definition memcached_protocol_create_client ::
  "bool \<Rightarrow> bool \<Rightarrow> protocol_st \<Rightarrow> send_result list \<Rightarrow> recv_result list \<Rightarrow> heap list \<Rightarrow> client option" where
  "memcached_protocol_create_client ndebug ret_ok instance_st sends recvs mallocs =
     (if ret_ok then
        Some \<lparr>cl_verbose = False, cl_error = 0, cl_output = [], cl_saved = [], cl_work = Determine_protocol,
          cl_mute = False, cl_command = no_command, cl_ascii = GET_CMD, rt_ndebug = ndebug,
          rt_pedantic = ps_pedantic instance_st, rt_input = ps_input instance_st, rt_cache = ps_cache instance_st,
          io_sends = sends, io_recvs = recvs, io_mallocs = mallocs, io_sent = []\<rparr>
      else None)"

definition memcached_protocol_client_set_verbose :: "bool \<Rightarrow> client \<Rightarrow> client" where
  "memcached_protocol_client_set_verbose arg c = c\<lparr>cl_verbose := arg\<rparr>"


subsection \<open>The protocol of a connection\<close>

definition determine_protocol :: "'a callback_st \<Rightarrow> nat \<Rightarrow> 'a \<Rightarrow> client \<Rightarrow> 'a processed outcome" where
  "determine_protocol cb len a c =
     (if hd (rt_input c) = PROTOCOL_BINARY_REQ
      then memcached_binary_protocol_process_data cb len a (c\<lparr>cl_work := Binary_process_data\<rparr>)
      else if interface_version cb = 1
      then memcached_ascii_protocol_process_data cb len a (c\<lparr>cl_work := Ascii_process_data\<rparr>)
      else obind (put (lit ''CLIENT_ERROR: Unsupported protocol'' @ crlf) c) (\<lambda>c1.
           obind (drain_output c1) (\<lambda>(_, c2).
           Done \<lparr>ev_event = MEMCACHED_PROTOCOL_ERROR_EVENT, ev_length = len, ev_endptr = None, ev_app = a, ev_client = c2\<rparr>)))"

definition work :: "'a callback_st \<Rightarrow> nat \<Rightarrow> 'a \<Rightarrow> client \<Rightarrow> 'a processed outcome" where
  "work cb len a c =
     (case cl_work c of
        Determine_protocol \<Rightarrow> determine_protocol cb len a c
      | Binary_process_data \<Rightarrow> memcached_binary_protocol_process_data cb len a c
      | Ascii_process_data \<Rightarrow> memcached_ascii_protocol_process_data cb len a c)"


subsection \<open>\<open>memcached_protocol_client_work\<close>\<close>

text \<open>\<open>recv\<close> of at most \<open>n\<close> bytes to a position of the input buffer.\<close>

definition default_recv :: "nat \<Rightarrow> nat \<Rightarrow> client \<Rightarrow> recv_result \<times> client" where
  "default_recv pos n c =
     (case io_recvs c of
        [] \<Rightarrow> (Recv_error EWOULDBLOCK, c)
      | Recv_error e # rest \<Rightarrow> (Recv_error e, c\<lparr>io_recvs := rest\<rparr>)
      | Received bs # rest \<Rightarrow>
          (let got = take n bs
           in (Received got, c\<lparr>io_recvs := rest,
                 rt_input := take pos (rt_input c) @ got @ drop (pos + length got) (rt_input c)\<rparr>)))"

text \<open>The bytes saved from the last call go in front of the received ones.\<close>

definition restore_saved :: "client \<Rightarrow> client" where
  "restore_saved c = c\<lparr>rt_input := cl_saved c @ drop (length (cl_saved c)) (rt_input c), cl_saved := []\<rparr>"

text \<open>
  The unprocessed bytes are saved from \<open>endptr\<close>; a pointer that was never set, or bytes beyond the
  buffer, are a fault.  The flag is false when the allocation fails.
\<close>

definition save_rest :: "nat \<Rightarrow> nat option \<Rightarrow> client \<Rightarrow> (bool \<times> client) outcome" where
  "save_rest len endptr c =
     (let c1 = c\<lparr>io_mallocs := tl (io_mallocs c)\<rparr>
      in case next_heap c len of
           None \<Rightarrow> Done (False, c1\<lparr>cl_error := ENOMEM\<rparr>)
         | Some _ \<Rightarrow>
             (case endptr of
                None \<Rightarrow> Fault
              | Some p \<Rightarrow> obind (read_at (rt_input c) p len) (\<lambda>bs. Done (True, c1\<lparr>cl_saved := bs\<rparr>))))"

text \<open>The end of the function: what is queued is sent.\<close>

definition finish_work :: "'a \<Rightarrow> client \<Rightarrow> (u32 \<times> 'a \<times> client) outcome" where
  "finish_work a c =
     obind (drain_output c) (\<lambda>(ok, c1).
       if \<not> ok then Done (MEMCACHED_PROTOCOL_ERROR_EVENT, a, c1)
       else Done (if cl_output c1 \<noteq> [] then MEMCACHED_PROTOCOL_READ_EVENT OR MEMCACHED_PROTOCOL_READ_EVENT
                  else MEMCACHED_PROTOCOL_READ_EVENT, a, c1))"

text \<open>One round of the loop: go on, leave the loop, or return.\<close>

datatype 'a round = Again 'a client | Leave 'a client | Return u32 'a client

definition after_work :: "'a processed \<Rightarrow> 'a round outcome" where
  "after_work r =
     (if ev_event r = MEMCACHED_PROTOCOL_ERROR_EVENT
      then Done (Return MEMCACHED_PROTOCOL_ERROR_EVENT (ev_app r) (ev_client r))
      else if 0 < ev_length r then
        obind (save_rest (ev_length r) (ev_endptr r) (ev_client r)) (\<lambda>(ok, c).
          Done (if ok then Leave (ev_app r) c else Return MEMCACHED_PROTOCOL_ERROR_EVENT (ev_app r) c))
      else Done (Again (ev_app r) (ev_client r)))"

definition receive_round :: "'a callback_st \<Rightarrow> 'a \<Rightarrow> client \<Rightarrow> 'a round outcome" where
  "receive_round cb a c =
     (let offset = length (cl_saved c)
      in case default_recv offset (length (rt_input c) - offset) c of
           (Recv_error e, c1) \<Rightarrow>
             Done (if e \<noteq> EWOULDBLOCK then Return MEMCACHED_PROTOCOL_ERROR_EVENT a (c1\<lparr>cl_error := e\<rparr>) else Leave a c1)
         | (Received bs, c1) \<Rightarrow>
             if bs = [] then
               obind (drain_output c1) (\<lambda>(_, c2). Done (Return MEMCACHED_PROTOCOL_ERROR_EVENT a c2))
             else
               obind (work cb (offset + length bs) a (restore_saved c1)) after_work)"

lemma restore_saved_input: "length (cl_saved c) \<le> length (rt_input c) \<Longrightarrow> length (rt_input (restore_saved c)) = length (rt_input c)"
  by (simp add: restore_saved_def)

context client_invariant
begin

lemma determine_protocol:
  "I c \<Longrightarrow> len \<le> length (rt_input c) \<Longrightarrow> ensures (\<lambda>r. I (ev_client r)) (determine_protocol cb len a c)"
  by (auto simp: determine_protocol_def memcached_ascii_protocol_process_data_def assigns
      intro!: binary_process_data ascii_loop ensures_mono [OF put] ensures_mono [OF drain])

lemma work:
  "I c \<Longrightarrow> len \<le> length (rt_input c) \<Longrightarrow> ensures (\<lambda>r. I (ev_client r)) (work cb len a c)"
  by (auto simp: work_def memcached_ascii_protocol_process_data_def determine_protocol
      intro!: binary_process_data ascii_loop split: process_data.split)

end

lemma default_recv_spec:
  assumes "default_recv pos n c = (r, c')"
  shows "r = Received bs \<Longrightarrow> length (io_recvs c') < length (io_recvs c) \<and> length bs \<le> n"
    and "pos + n \<le> length (rt_input c) \<Longrightarrow> length (rt_input c') = length (rt_input c)" and "cl_saved c' = cl_saved c"
    and "client_ok c \<Longrightarrow> client_ok c'" and "cl_work c' = cl_work c"
  using assms by (auto simp: default_recv_def Let_def client_ok_def split: list.splits recv_result.splits)

text \<open>What a round did when it processed input: the call of the protocol and the state before it.\<close>

definition round_input :: "client \<Rightarrow> bytes \<Rightarrow> client \<Rightarrow> bool" where
  "round_input c bs c1 \<longleftrightarrow>
     (\<exists>c0. default_recv (length (cl_saved c)) (length (rt_input c) - length (cl_saved c)) c = (Received bs, c0) \<and>
        bs \<noteq> [] \<and> c1 = restore_saved c0)"

lemma round_input_spec:
  assumes "round_input c bs c1"
  shows "length (io_recvs c1) < length (io_recvs c)" and "length (cl_saved c) + length bs \<le> length (rt_input c1)"
    and "length (rt_input c1) = length (rt_input c)" and "cl_saved c1 = []" and "client_ok c \<Longrightarrow> client_ok c1"
proof -
  obtain c0 where c0: "default_recv (length (cl_saved c)) (length (rt_input c) - length (cl_saved c)) c = (Received bs, c0)"
    "bs \<noteq> []" "c1 = restore_saved c0"
    using assms by (auto simp: round_input_def)
  note d = default_recv_spec [OF c0(1)]
  have pos: "length (cl_saved c) < length (rt_input c)"
    using d(1) [OF refl] c0(2) by (metis bot_nat_0.extremum_uniqueI diff_is_0_eq' le_cases length_0_conv not_le_imp_less)
  show "length (io_recvs c1) < length (io_recvs c)" "length (cl_saved c) + length bs \<le> length (rt_input c1)"
    "length (rt_input c1) = length (rt_input c)" "cl_saved c1 = []" "client_ok c \<Longrightarrow> client_ok c1"
    using d c0 pos by (auto simp: restore_saved_def client_ok_def)
qed

lemma receive_round_cases:
  assumes "receive_round cb a c = Done r"
  obtains (input) bs c1 q where "round_input c bs c1" "work cb (length (cl_saved c) + length bs) a c1 = Done q"
      "after_work q = Done r"
  | (closed) c1 ok c2 where "default_recv (length (cl_saved c)) (length (rt_input c) - length (cl_saved c)) c = (Received [], c1)"
      "drain_output c1 = Done (ok, c2)" "r = Return MEMCACHED_PROTOCOL_ERROR_EVENT a c2"
  | (error) e c1 where "default_recv (length (cl_saved c)) (length (rt_input c) - length (cl_saved c)) c = (Recv_error e, c1)"
      "r = (if e \<noteq> EWOULDBLOCK then Return MEMCACHED_PROTOCOL_ERROR_EVENT a (c1\<lparr>cl_error := e\<rparr>) else Leave a c1)"
proof -
  let ?off = "length (cl_saved c)"
  obtain x c0 where x: "default_recv ?off (length (rt_input c) - ?off) c = (x, c0)" by (meson surj_pair)
  show thesis
  proof (cases x)
    case (Recv_error e)
    then show thesis using assms x error by (simp add: receive_round_def Let_def)
  next
    case (Received bs)
    show thesis
    proof (cases "bs = []")
      case True
      then show thesis using assms x Received closed by (auto simp: receive_round_def Let_def obind_Done_iff)
    next
      case False
      then obtain q where q: "work cb (?off + length bs) a (restore_saved c0) = Done q"
        using assms x Received by (auto simp: receive_round_def Let_def obind_Done_iff)
      have "round_input c bs (restore_saved c0)" using x Received False by (auto simp: round_input_def)
      then show thesis using input [OF _ q] assms x Received False q by (simp add: receive_round_def Let_def)
    qed
  qed
qed

lemma receive_round_again:
  assumes "receive_round cb a c = Done (Again a' c')"
  shows "length (io_recvs c') < length (io_recvs c)"
  using assms
proof (cases rule: receive_round_cases)
  case (input bs c1 q)
  then have "input_state (ev_client q) = input_state c1" "c' = ev_client q"
    using inputs.work [of c1 "input_state c1" "length (cl_saved c) + length bs" cb a] round_input_spec(2) [of c bs c1]
    by (auto simp: after_work_def obind_Done_iff split: if_splits)
  then show ?thesis using round_input_spec(1) [OF input(1)] by (simp add: input_state_def)
qed (auto split: if_splits)

function memcached_protocol_client_work :: "'a callback_st \<Rightarrow> 'a \<Rightarrow> client \<Rightarrow> (u32 \<times> 'a \<times> client) outcome" where
  "memcached_protocol_client_work cb a c =
     obind (receive_round cb a c) (\<lambda>r.
       case r of
         Again a1 c1 \<Rightarrow> memcached_protocol_client_work cb a1 c1
       | Leave a1 c1 \<Rightarrow> finish_work a1 c1
       | Return ev a1 c1 \<Rightarrow> Done (ev, a1, c1))"
  by pat_completeness auto

termination
  by (relation "measure (\<lambda>(_, _, c). length (io_recvs c))") (auto dest: receive_round_again)

declare memcached_protocol_client_work.simps [simp del]


subsection \<open>Properties\<close>

text \<open>What a client must satisfy between two calls.\<close>

definition connection_ok :: "nat \<Rightarrow> client \<Rightarrow> bool" where
  "connection_ok n c \<longleftrightarrow> client_ok c \<and> length (rt_input c) = n \<and> length (cl_saved c) \<le> n"

definition round_client :: "'a round \<Rightarrow> client" where
  "round_client r = (case r of Again a c \<Rightarrow> c | Leave a c \<Rightarrow> c | Return ev a c \<Rightarrow> c)"

lemma work_connection_ok:
  assumes "connection_ok n c" and "cl_saved c = []" and "len \<le> n" and "work cb len a c = Done q"
  shows "connection_ok n (ev_client q) \<and> cl_saved (ev_client q) = []"
  using assms queue.work [of c len cb a] inputs.work [of c "input_state c" len cb a]
  by (simp add: connection_ok_def input_state_def)

lemma client_ok_save:
  "client_ok c \<Longrightarrow> client_ok (c\<lparr>io_mallocs := tl (io_mallocs c)\<rparr>)" "client_ok (c\<lparr>cl_saved := bs\<rparr>) = client_ok c"
  by (auto simp: client_ok_def dest!: in_set_tlD)

lemma save_rest_connection_ok:
  assumes "save_rest len p c = Done (ok, c')" and "connection_ok n c"
  shows "connection_ok n c'"
  using assms client_ok_save(1) [of c]
  by (auto simp: save_rest_def connection_ok_def client_ok_assigns client_ok_save(2) Let_def obind_Done_iff read_at_def segment_def
      split: if_splits option.splits)

lemma after_work_connection_ok:
  "after_work q = Done r \<Longrightarrow> connection_ok n (ev_client q) \<Longrightarrow> connection_ok n (round_client r)"
  by (auto simp: after_work_def round_client_def obind_Done_iff dest: save_rest_connection_ok split: if_splits)

lemma drain_output_connection_ok:
  "connection_ok n c \<Longrightarrow> drain_output c = Done (ok, c') \<Longrightarrow> connection_ok n c'"
  using queue.drain [of c] inputs.drain [of c "input_state c"] by (auto simp: connection_ok_def input_state_def)

lemma receive_round_connection_ok:
  assumes "receive_round cb a c = Done r" and "connection_ok n c"
  shows "connection_ok n (round_client r)"
  using assms(1)
proof (cases rule: receive_round_cases)
  case (input bs c1 q)
  note spec = round_input_spec [OF input(1)]
  have "connection_ok n (ev_client q)"
    using work_connection_ok [OF _ spec(4) _ input(2), of n] spec assms(2) by (simp add: connection_ok_def)
  then show ?thesis by (rule after_work_connection_ok [OF input(3)])
next
  case (closed c1 ok c2)
  have "connection_ok n c1" using default_recv_spec(2-4) [OF closed(1)] assms(2) by (simp add: connection_ok_def)
  then show ?thesis using drain_output_connection_ok [OF _ closed(2)] closed(3) by (simp add: round_client_def)
next
  case (error e c1)
  have "connection_ok n c1" using default_recv_spec(2-4) [OF error(1)] assms(2) by (simp add: connection_ok_def)
  then show ?thesis using error(2) by (simp add: round_client_def connection_ok_def client_ok_assigns)
qed

lemma client_work_connection_ok:
  "memcached_protocol_client_work cb a c = Done (ev, a', c') \<Longrightarrow> connection_ok n c \<Longrightarrow> connection_ok n c'"
proof (induction cb a c rule: memcached_protocol_client_work.induct)
  case (1 cb a c)
  obtain r where r: "receive_round cb a c = Done r"
    using 1(2) by (subst (asm) memcached_protocol_client_work.simps) (auto simp: obind_Done_iff)
  note ok = receive_round_connection_ok [OF r 1(3)]
  show ?case
    using 1(1) [OF r] 1(2) ok r
    by (subst (asm) (2) memcached_protocol_client_work.simps)
      (auto simp: round_client_def finish_work_def obind_Done_iff dest: drain_output_connection_ok split: round.splits if_splits)
qed

lemma finish_work_event:
  "finish_work a c = Done (ev, a', c') \<Longrightarrow> ev = MEMCACHED_PROTOCOL_ERROR_EVENT \<or> ev = MEMCACHED_PROTOCOL_READ_EVENT"
  by (auto simp: finish_work_def obind_Done_iff split: if_splits)

lemma receive_round_return:
  assumes "receive_round cb a c = Done (Return ev a' c')"
  shows "ev = MEMCACHED_PROTOCOL_ERROR_EVENT"
  using assms
  by (cases rule: receive_round_cases) (auto simp: after_work_def obind_Done_iff split: if_splits)

lemma client_work_event:
  "memcached_protocol_client_work cb a c = Done (ev, a', c') \<Longrightarrow>
     ev = MEMCACHED_PROTOCOL_ERROR_EVENT \<or> ev = MEMCACHED_PROTOCOL_READ_EVENT"
proof (induction cb a c rule: memcached_protocol_client_work.induct)
  case (1 cb a c)
  obtain r where r: "receive_round cb a c = Done r"
    using 1(2) by (subst (asm) memcached_protocol_client_work.simps) (auto simp: obind_Done_iff)
  have "(case r of Again a1 c1 \<Rightarrow> memcached_protocol_client_work cb a1 c1 | Leave a1 c1 \<Rightarrow> finish_work a1 c1
      | Return ev a1 c1 \<Rightarrow> Done (ev, a1, c1)) = Done (ev, a', c')"
    using 1(2) r by (subst (asm) memcached_protocol_client_work.simps) simp
  then show ?case
    using 1(1) [OF r] r by (cases r) (auto dest: finish_work_event receive_round_return)
qed

text \<open>
  C4: A connection stays well formed: the output queue and the buffer cache keep their invariant, the
  input buffer its size, and the bytes saved for the next call fit in it, whatever the peer sends, the
  application answers and the system calls return.
\<close>

theorem client_work_keeps_connection_ok:
  assumes "connection_ok n c" and "memcached_protocol_client_work cb a c = Done (ev, a', c')"
  shows "connection_ok n c'"
  using client_work_connection_ok [OF assms(2,1)] .

definition half_line_client :: client where
  "half_line_client = sample_client\<lparr>cl_work := Ascii_process_data, rt_input := replicate 64 0, io_recvs := [Received [103, 101]]\<rparr>"

theorem client_work_keeps_connection_ok_witness:
  "connection_ok 64 half_line_client \<and>
   (\<exists>c'. memcached_protocol_client_work sample_cb 0 half_line_client = Done (MEMCACHED_PROTOCOL_READ_EVENT, 0, c') \<and>
      cl_saved c' = [103, 101] \<and> connection_ok 64 c')"
proof -
  let ?c = half_line_client
  have "client_ok ?c" using sample_client_ok by (simp add: half_line_client_def client_ok_def)
  then have ok: "connection_ok 64 ?c" by (simp add: connection_ok_def half_line_client_def sample_client_def)
  let ?c1 = "?c\<lparr>io_recvs := [], rt_input := [103, 101] @ replicate 62 0\<rparr>"
  let ?c2 = "?c1\<lparr>io_mallocs := [small_heap, small_heap], cl_saved := [103, 101]\<rparr>"
  have "default_recv 0 64 ?c = (Received [103, 101], ?c1)"
    by (simp add: default_recv_def half_line_client_def)
  moreover have "restore_saved ?c1 = ?c1" by (simp add: restore_saved_def half_line_client_def sample_client_def)
  moreover have "work sample_cb 2 0 ?c1 = Done \<lparr>ev_event = MEMCACHED_PROTOCOL_READ_EVENT, ev_length = 2, ev_endptr = Some 0,
      ev_app = 0, ev_client = ?c1\<rparr>"
    by (simp add: work_def memcached_ascii_protocol_process_data_def half_line_client_def ascii_loop.simps [of _ 0 2] memchr_def segment_def)
  moreover have "save_rest 2 (Some 0) ?c1 = Done (True, ?c2)"
    by (simp add: save_rest_def next_heap_def half_line_client_def sample_client_def small_heap_def read_at_def segment_def)
  moreover have "cl_saved ?c = []" "length (rt_input ?c) = 64" by (simp_all add: half_line_client_def sample_client_def)
  ultimately have "receive_round sample_cb 0 ?c = Done (Leave 0 ?c2)"
    by (simp add: receive_round_def after_work_def MEMCACHED_PROTOCOL_ERROR_EVENT_def MEMCACHED_PROTOCOL_READ_EVENT_def
        numeral_2_eq_2 [symmetric])
  moreover have "finish_work 0 ?c2 = Done (MEMCACHED_PROTOCOL_READ_EVENT, 0, ?c2)"
    by (simp add: finish_work_def drain_output_Nil half_line_client_def sample_client_def)
  ultimately have "memcached_protocol_client_work sample_cb 0 ?c = Done (MEMCACHED_PROTOCOL_READ_EVENT, 0, ?c2)"
    by (subst memcached_protocol_client_work.simps) simp
  then show ?thesis
    using ok client_work_keeps_connection_ok [OF ok, of sample_cb 0 MEMCACHED_PROTOCOL_READ_EVENT 0 ?c2] by simp
qed

text \<open>
  C37: \<open>memcached_protocol_client_work\<close> returns the error or the read event and never asks to be called
  when the socket is writable, even when output is waiting.
\<close>

theorem client_work_never_waits_for_write:
  assumes "memcached_protocol_client_work cb a c = Done (ev, a', c')"
  shows "ev \<in> {MEMCACHED_PROTOCOL_ERROR_EVENT, MEMCACHED_PROTOCOL_READ_EVENT} \<and>
    ev AND MEMCACHED_PROTOCOL_WRITE_EVENT = 0"
proof -
  have "ev \<in> {MEMCACHED_PROTOCOL_ERROR_EVENT, MEMCACHED_PROTOCOL_READ_EVENT}" using client_work_event [OF assms] by simp
  then show ?thesis
    by (auto simp: MEMCACHED_PROTOCOL_ERROR_EVENT_def MEMCACHED_PROTOCOL_READ_EVENT_def MEMCACHED_PROTOCOL_WRITE_EVENT_def)
qed

theorem client_work_never_waits_for_write_witness:
  "\<exists>c'. memcached_protocol_client_work sample_cb 0 (sample_client\<lparr>cl_output := [sample_chunk [5]], io_sends := []\<rparr>) =
      Done (MEMCACHED_PROTOCOL_READ_EVENT, 0, c') \<and> cl_output c' = [sample_chunk [5]] \<and>
    MEMCACHED_PROTOCOL_READ_EVENT AND MEMCACHED_PROTOCOL_WRITE_EVENT = 0"
proof -
  let ?c = "sample_client\<lparr>cl_output := [sample_chunk [5]], io_sends := []\<rparr>"
  have "receive_round sample_cb 0 ?c = Done (Leave 0 ?c)"
    by (simp add: receive_round_def default_recv_def sample_client_def)
  moreover have "finish_work 0 ?c = Done (MEMCACHED_PROTOCOL_READ_EVENT, 0, ?c)"
    by (simp add: finish_work_def drain_output.simps [of ?c] sock_send_def)
  ultimately have "memcached_protocol_client_work sample_cb 0 ?c = Done (MEMCACHED_PROTOCOL_READ_EVENT, 0, ?c)"
    by (subst memcached_protocol_client_work.simps) simp
  then show ?thesis using client_work_never_waits_for_write [of sample_cb 0 ?c] by auto
qed

text \<open>
  C34: A binary request that arrives in pieces is fatal: when the first bytes of a connection are an
  incomplete packet, the bytes to keep are copied from a pointer that was never set.
\<close>

theorem binary_fragment_faults:
  assumes "cl_work c = Determine_protocol \<or> cl_work c = Binary_process_data" and "cl_saved c = []"
    and "io_recvs c = Received bs # rest" and "bs \<noteq> []" "length bs \<le> length (rt_input c)"
    and "hd bs = PROTOCOL_BINARY_REQ" and "length bs < 24 \<or> length bs < packet_size bs"
    and "next_heap c (length bs) \<noteq> None"
  shows "memcached_protocol_client_work cb a c = Fault"
proof -
  let ?c = "c\<lparr>io_recvs := rest, rt_input := bs @ drop (length bs) (rt_input c)\<rparr>"
  have recv: "default_recv 0 (length (rt_input c)) c = (Received bs, ?c)"
    using assms(3,5) by (simp add: default_recv_def)
  have restore: "restore_saved ?c = ?c" using assms(2) by (simp add: restore_saved_def)
  obtain b more where b: "bs = b # more" using assms(4) by (cases bs) auto
  have magic: "req_magic (load_request (rt_input ?c)) = PROTOCOL_BINARY_REQ" "hd (rt_input ?c) = PROTOCOL_BINARY_REQ"
    using b assms(6) by (simp_all add: load_request_def segment_def le_load_def)
  have short: "\<not> (24 \<le> length bs \<and> packet_size (rt_input ?c) \<le> length bs)"
    using assms(7) packet_size_append [of bs] by auto
  have "memcached_binary_protocol_process_data cb (length bs) a d =
      Done \<lparr>ev_event = MEMCACHED_PROTOCOL_READ_EVENT, ev_length = length bs, ev_endptr = None, ev_app = a, ev_client = d\<rparr>"
    if "rt_input d = rt_input ?c" for d
    using magic short that by (auto simp: memcached_binary_protocol_process_data_def binary_loop.simps [of cb 0] Let_def)
  then have "\<exists>d. work cb (length bs) a ?c =
      Done \<lparr>ev_event = MEMCACHED_PROTOCOL_READ_EVENT, ev_length = length bs, ev_endptr = None, ev_app = a, ev_client = d\<rparr> \<and>
      io_mallocs d = io_mallocs c"
    using assms(1) magic by (auto simp: work_def determine_protocol_def)
  moreover have "\<exists>x. next_heap d (length bs) = Some x" if "io_mallocs d = io_mallocs c" for d
    using assms(8) that by (simp add: next_heap_def)
  ultimately have "receive_round cb a c = Fault"
    using recv restore assms(2,4)
    by (fastforce simp: receive_round_def after_work_def save_rest_def Let_def MEMCACHED_PROTOCOL_ERROR_EVENT_def MEMCACHED_PROTOCOL_READ_EVENT_def)
  then show ?thesis by (subst memcached_protocol_client_work.simps) simp
qed

theorem binary_fragment_faults_witness:
  "memcached_protocol_client_work sample_cb 0
     (sample_client\<lparr>rt_input := replicate 64 0, io_recvs := [Received [128, 0, 0, 1]]\<rparr>) = Fault"
  by (rule binary_fragment_faults [of _ "[128, 0, 0, 1]" "[]"])
    (simp_all add: sample_client_def PROTOCOL_BINARY_REQ_def next_heap_def small_heap_def)

end
