(* ===== verification/Return_Codes.thy ===== *)
theory Return_Codes
  imports Prelude
begin

text \<open>
  The return codes of the client library (\<open>libmemcached-1.0/types/return.h\<close>), the predicates on them
  (\<open>libmemcached-1.0/return.h\<close>) and their texts (\<open>libmemcached/strerror.cc\<close>).
  \<open>MEMCACHED_CONNECTION_SOCKET_CREATE_FAILURE\<close> is another name of \<open>MEMCACHED_ERROR\<close>.
\<close>

datatype (plugins only: code size) memcached_return_t =
    MEMCACHED_SUCCESS
  | MEMCACHED_FAILURE
  | MEMCACHED_HOST_LOOKUP_FAILURE
  | MEMCACHED_CONNECTION_FAILURE
  | MEMCACHED_CONNECTION_BIND_FAILURE
  | MEMCACHED_WRITE_FAILURE
  | MEMCACHED_READ_FAILURE
  | MEMCACHED_UNKNOWN_READ_FAILURE
  | MEMCACHED_PROTOCOL_ERROR
  | MEMCACHED_CLIENT_ERROR
  | MEMCACHED_SERVER_ERROR
  | MEMCACHED_ERROR
  | MEMCACHED_DATA_EXISTS
  | MEMCACHED_DATA_DOES_NOT_EXIST
  | MEMCACHED_NOTSTORED
  | MEMCACHED_STORED
  | MEMCACHED_NOTFOUND
  | MEMCACHED_MEMORY_ALLOCATION_FAILURE
  | MEMCACHED_PARTIAL_READ
  | MEMCACHED_SOME_ERRORS
  | MEMCACHED_NO_SERVERS
  | MEMCACHED_END
  | MEMCACHED_DELETED
  | MEMCACHED_VALUE
  | MEMCACHED_STAT
  | MEMCACHED_ITEM
  | MEMCACHED_ERRNO
  | MEMCACHED_FAIL_UNIX_SOCKET
  | MEMCACHED_NOT_SUPPORTED
  | MEMCACHED_NO_KEY_PROVIDED
  | MEMCACHED_FETCH_NOTFINISHED
  | MEMCACHED_TIMEOUT
  | MEMCACHED_BUFFERED
  | MEMCACHED_BAD_KEY_PROVIDED
  | MEMCACHED_INVALID_HOST_PROTOCOL
  | MEMCACHED_SERVER_MARKED_DEAD
  | MEMCACHED_UNKNOWN_STAT_KEY
  | MEMCACHED_E2BIG
  | MEMCACHED_INVALID_ARGUMENTS
  | MEMCACHED_KEY_TOO_BIG
  | MEMCACHED_AUTH_PROBLEM
  | MEMCACHED_AUTH_FAILURE
  | MEMCACHED_AUTH_CONTINUE
  | MEMCACHED_PARSE_ERROR
  | MEMCACHED_PARSE_USER_ERROR
  | MEMCACHED_DEPRECATED
  | MEMCACHED_IN_PROGRESS
  | MEMCACHED_SERVER_TEMPORARILY_DISABLED
  | MEMCACHED_SERVER_MEMORY_ALLOCATION_FAILURE
  | MEMCACHED_MAXIMUM_RETURN

definition memcached_success :: "memcached_return_t \<Rightarrow> bool" where
  "memcached_success rc \<longleftrightarrow>
     rc = MEMCACHED_BUFFERED \<or> rc = MEMCACHED_DELETED \<or> rc = MEMCACHED_END \<or>
     rc = MEMCACHED_ITEM \<or> rc = MEMCACHED_STAT \<or> rc = MEMCACHED_STORED \<or>
     rc = MEMCACHED_SUCCESS \<or> rc = MEMCACHED_VALUE"

definition memcached_failed :: "memcached_return_t \<Rightarrow> bool" where
  "memcached_failed rc \<longleftrightarrow>
     rc \<noteq> MEMCACHED_AUTH_CONTINUE \<and> rc \<noteq> MEMCACHED_BUFFERED \<and>
     rc \<noteq> MEMCACHED_DELETED \<and> rc \<noteq> MEMCACHED_END \<and>
     rc \<noteq> MEMCACHED_ITEM \<and> rc \<noteq> MEMCACHED_STAT \<and>
     rc \<noteq> MEMCACHED_STORED \<and> rc \<noteq> MEMCACHED_SUCCESS \<and>
     rc \<noteq> MEMCACHED_VALUE"

definition memcached_fatal :: "memcached_return_t \<Rightarrow> bool" where
  "memcached_fatal rc \<longleftrightarrow>
     rc \<noteq> MEMCACHED_AUTH_CONTINUE \<and> rc \<noteq> MEMCACHED_BUFFERED \<and>
     rc \<noteq> MEMCACHED_CLIENT_ERROR \<and> rc \<noteq> MEMCACHED_DATA_EXISTS \<and>
     rc \<noteq> MEMCACHED_DELETED \<and> rc \<noteq> MEMCACHED_E2BIG \<and>
     rc \<noteq> MEMCACHED_END \<and> rc \<noteq> MEMCACHED_ITEM \<and>
     rc \<noteq> MEMCACHED_ERROR \<and> rc \<noteq> MEMCACHED_NOTFOUND \<and>
     rc \<noteq> MEMCACHED_NOTSTORED \<and> rc \<noteq> MEMCACHED_SOME_ERRORS \<and>
     rc \<noteq> MEMCACHED_SERVER_MEMORY_ALLOCATION_FAILURE \<and> rc \<noteq> MEMCACHED_STAT \<and>
     rc \<noteq> MEMCACHED_STORED \<and> rc \<noteq> MEMCACHED_SUCCESS \<and>
     rc \<noteq> MEMCACHED_VALUE"

definition memcached_continue :: "memcached_return_t \<Rightarrow> bool" where
  "memcached_continue rc \<longleftrightarrow> rc = MEMCACHED_IN_PROGRESS"

fun memcached_strerror :: "memcached_return_t \<Rightarrow> string" where
  "memcached_strerror MEMCACHED_SUCCESS = ''SUCCESS''"
| "memcached_strerror MEMCACHED_FAILURE = ''FAILURE''"
| "memcached_strerror MEMCACHED_HOST_LOOKUP_FAILURE = ''getaddrinfo() or getnameinfo() HOSTNAME LOOKUP FAILURE''"
| "memcached_strerror MEMCACHED_CONNECTION_FAILURE = ''CONNECTION FAILURE''"
| "memcached_strerror MEMCACHED_CONNECTION_BIND_FAILURE = ''CONNECTION BIND FAILURE''"
| "memcached_strerror MEMCACHED_WRITE_FAILURE = ''WRITE FAILURE''"
| "memcached_strerror MEMCACHED_READ_FAILURE = ''READ FAILURE''"
| "memcached_strerror MEMCACHED_UNKNOWN_READ_FAILURE = ''UNKNOWN READ FAILURE''"
| "memcached_strerror MEMCACHED_PROTOCOL_ERROR = ''PROTOCOL ERROR''"
| "memcached_strerror MEMCACHED_CLIENT_ERROR = ''CLIENT ERROR''"
| "memcached_strerror MEMCACHED_SERVER_ERROR = ''SERVER ERROR''"
| "memcached_strerror MEMCACHED_ERROR = ''ERROR was returned by server''"
| "memcached_strerror MEMCACHED_DATA_EXISTS = ''CONNECTION DATA EXISTS''"
| "memcached_strerror MEMCACHED_DATA_DOES_NOT_EXIST = ''CONNECTION DATA DOES NOT EXIST''"
| "memcached_strerror MEMCACHED_NOTSTORED = ''NOT STORED''"
| "memcached_strerror MEMCACHED_STORED = ''STORED''"
| "memcached_strerror MEMCACHED_NOTFOUND = ''NOT FOUND''"
| "memcached_strerror MEMCACHED_MEMORY_ALLOCATION_FAILURE = ''MEMORY ALLOCATION FAILURE''"
| "memcached_strerror MEMCACHED_PARTIAL_READ = ''PARTIAL READ''"
| "memcached_strerror MEMCACHED_SOME_ERRORS = ''SOME ERRORS WERE REPORTED''"
| "memcached_strerror MEMCACHED_NO_SERVERS = ''NO SERVERS DEFINED''"
| "memcached_strerror MEMCACHED_END = ''SERVER END''"
| "memcached_strerror MEMCACHED_DELETED = ''SERVER DELETE''"
| "memcached_strerror MEMCACHED_VALUE = ''SERVER VALUE''"
| "memcached_strerror MEMCACHED_STAT = ''STAT VALUE''"
| "memcached_strerror MEMCACHED_ITEM = ''ITEM VALUE''"
| "memcached_strerror MEMCACHED_ERRNO = ''SYSTEM ERROR''"
| "memcached_strerror MEMCACHED_FAIL_UNIX_SOCKET = ''COULD NOT OPEN UNIX SOCKET''"
| "memcached_strerror MEMCACHED_NOT_SUPPORTED = ''ACTION NOT SUPPORTED''"
| "memcached_strerror MEMCACHED_NO_KEY_PROVIDED = ''A KEY LENGTH OF ZERO WAS PROVIDED''"
| "memcached_strerror MEMCACHED_FETCH_NOTFINISHED = ''FETCH WAS NOT COMPLETED''"
| "memcached_strerror MEMCACHED_TIMEOUT = ''A TIMEOUT OCCURRED''"
| "memcached_strerror MEMCACHED_BUFFERED = ''ACTION QUEUED''"
| "memcached_strerror MEMCACHED_BAD_KEY_PROVIDED = ''A BAD KEY WAS PROVIDED/CHARACTERS OUT OF RANGE''"
| "memcached_strerror MEMCACHED_INVALID_HOST_PROTOCOL = ''THE HOST TRANSPORT PROTOCOL DOES NOT MATCH THAT OF THE CLIENT''"
| "memcached_strerror MEMCACHED_SERVER_MARKED_DEAD = ''SERVER IS MARKED DEAD''"
| "memcached_strerror MEMCACHED_UNKNOWN_STAT_KEY = ''ENCOUNTERED AN UNKNOWN STAT KEY''"
| "memcached_strerror MEMCACHED_E2BIG = ''ITEM TOO BIG''"
| "memcached_strerror MEMCACHED_INVALID_ARGUMENTS = ''INVALID ARGUMENTS''"
| "memcached_strerror MEMCACHED_KEY_TOO_BIG = ''KEY RETURNED FROM SERVER WAS TOO LARGE''"
| "memcached_strerror MEMCACHED_AUTH_PROBLEM = ''FAILED TO SEND AUTHENTICATION TO SERVER''"
| "memcached_strerror MEMCACHED_AUTH_FAILURE = ''AUTHENTICATION FAILURE''"
| "memcached_strerror MEMCACHED_AUTH_CONTINUE = ''CONTINUE AUTHENTICATION''"
| "memcached_strerror MEMCACHED_PARSE_ERROR = ''ERROR OCCURED WHILE PARSING''"
| "memcached_strerror MEMCACHED_PARSE_USER_ERROR = ''USER INITIATED ERROR OCCURED WHILE PARSING''"
| "memcached_strerror MEMCACHED_DEPRECATED = ''DEPRECATED''"
| "memcached_strerror MEMCACHED_IN_PROGRESS = ''OPERATION IN PROCESS''"
| "memcached_strerror MEMCACHED_SERVER_TEMPORARILY_DISABLED = ''SERVER HAS FAILED AND IS DISABLED UNTIL TIMED RETRY''"
| "memcached_strerror MEMCACHED_SERVER_MEMORY_ALLOCATION_FAILURE = ''SERVER FAILED TO ALLOCATE OBJECT''"
| "memcached_strerror MEMCACHED_MAXIMUM_RETURN = ''INVALID memcached_return_t''"


subsection \<open>The predicates\<close>

text \<open>Every code but one is a success or a failure, and only failures are fatal.\<close>

lemma memcached_failed_iff: "memcached_failed rc \<longleftrightarrow> \<not> memcached_success rc \<and> rc \<noteq> MEMCACHED_AUTH_CONTINUE"
  by (auto simp: memcached_failed_def memcached_success_def)

lemma memcached_fatal_failed: "memcached_fatal rc \<Longrightarrow> memcached_failed rc"
  by (simp add: memcached_failed_def memcached_fatal_def)

lemma memcached_failed_cases: "memcached_failed rc \<Longrightarrow> rc \<noteq> MEMCACHED_SUCCESS"
  by (simp add: memcached_failed_def)

lemma memcached_success_SUCCESS [simp]:
  "memcached_success MEMCACHED_SUCCESS" "\<not> memcached_failed MEMCACHED_SUCCESS" "\<not> memcached_fatal MEMCACHED_SUCCESS"
  by (simp_all add: memcached_success_def memcached_failed_def memcached_fatal_def)

end
