(* ===== verification/Memcached.thy ===== *)
theory Memcached
  imports Hashkit C_Strings Return_Codes
begin

text \<open>
  The state of the client library: \<open>memcached_st\<close>, the instances (one per server) and the errors it
  remembers.  Of \<open>libmemcached/memcached.cc\<close>, \<open>instance.cc\<close>, \<open>array.cc\<close> and \<open>error.cc\<close> it holds the
  construction of the two objects, the list of servers and the bookkeeping of errors.  Left out are the
  texts of errors, which contain addresses and source positions, the bits \<open>is_parsing\<close>, which no code
  reads, and \<open>is_time_for_rebuild\<close>, which is always false.  The client library is modelled as it is built for
  release, with \<open>NDEBUG\<close>: its assertions have no effect.
\<close>

subsection \<open>Types\<close>

datatype memcached_server_distribution_t =
    MEMCACHED_DISTRIBUTION_MODULA
  | MEMCACHED_DISTRIBUTION_CONSISTENT
  | MEMCACHED_DISTRIBUTION_CONSISTENT_KETAMA
  | MEMCACHED_DISTRIBUTION_RANDOM
  | MEMCACHED_DISTRIBUTION_CONSISTENT_KETAMA_SPY
  | MEMCACHED_DISTRIBUTION_CONSISTENT_WEIGHTED
  | MEMCACHED_DISTRIBUTION_VIRTUAL_BUCKET
  | MEMCACHED_DISTRIBUTION_CONSISTENT_MAX

datatype memcached_connection_t = MEMCACHED_CONNECTION_TCP | MEMCACHED_CONNECTION_UDP | MEMCACHED_CONNECTION_UNIX_SOCKET

datatype memcached_server_state_t =
    MEMCACHED_SERVER_STATE_NEW | MEMCACHED_SERVER_STATE_ADDRINFO | MEMCACHED_SERVER_STATE_IN_PROGRESS
  | MEMCACHED_SERVER_STATE_CONNECTED | MEMCACHED_SERVER_STATE_IN_TIMEOUT | MEMCACHED_SERVER_STATE_DISABLED

record memcached_error_t =
  err_query_id :: u64
  err_rc :: memcached_return_t
  err_errno :: int

text \<open>
  \<open>memcached_instance_st\<close>.  The socket is \<^const>\<open>None\<close> for \<open>INVALID_SOCKET\<close>; of the read buffer the unread
  bytes are kept, of the write buffer the bytes waiting to be sent.
\<close>

record memcached_instance_st =
  ins_hostname :: bytes
  ins_port :: u16
  ins_type :: memcached_connection_t
  ins_weight :: u32
  ins_version :: u32
  ins_state :: memcached_server_state_t
  ins_fd :: "nat option"
  ins_is_shutting_down :: bool
  ins_is_dead :: bool
  ins_cursor_active :: u32
  ins_io_bytes_sent :: u32
  ins_request_id :: u32
  ins_failure_counter :: u32
  ins_failure_counter_query_id :: u64
  ins_timeout_counter :: u32
  ins_timeout_counter_query_id :: u64
  ins_timeouts :: u32
  ins_major_version :: u8
  ins_minor_version :: u8
  ins_micro_version :: u8
  ins_read_buffer :: bytes
  ins_write_buffer :: bytes
  ins_next_retry :: int
  ins_errors :: "memcached_error_t list"

record continuum_item =
  ci_index :: u32
  ci_value :: u32

record bucket_t =
  bkt_master :: u32
  bkt_forward :: u32

record virtual_bucket_t =
  vb_size :: u32
  vb_replicas :: u32
  vb_buckets :: "bucket_t list"

text \<open>The bits of \<open>flags\<close>.\<close>

record memcached_flags =
  fl_auto_eject_hosts :: bool
  fl_binary_protocol :: bool
  fl_buffer_requests :: bool
  fl_hash_with_namespace :: bool
  fl_no_block :: bool
  fl_reply :: bool
  fl_randomize_replica_read :: bool
  fl_support_cas :: bool
  fl_tcp_nodelay :: bool
  fl_use_sort_hosts :: bool
  fl_use_udp :: bool
  fl_verify_key :: bool
  fl_tcp_keepalive :: bool
  fl_is_aes :: bool
  fl_is_fetching_version :: bool

record memcached_ketama =
  kt_weighted :: bool
  kt_continuum_count :: u32
  kt_points_counter :: u32
  kt_next_rebuild :: int
  kt_continuum :: "continuum_item list"

record memcached_st =
  mc_flags :: memcached_flags
  mc_distribution :: memcached_server_distribution_t
  mc_hashkit :: hashkit_st
  mc_server_version :: u32
  mc_servers :: "memcached_instance_st list"
  mc_last_disconnected :: "memcached_instance_st option"
  mc_ketama :: memcached_ketama
  mc_virtual_bucket :: "virtual_bucket_t option"
  mc_query_id :: u64
  mc_number_of_replicas :: u32
  mc_server_failure_limit :: u32
  mc_server_timeout_limit :: u32
  mc_io_msg_watermark :: u32
  mc_io_bytes_watermark :: u32
  mc_io_key_prefetch :: u32
  mc_tcp_keepidle :: u32
  mc_poll_timeout :: int
  mc_connect_timeout :: int
  mc_retry_timeout :: int
  mc_dead_timeout :: int
  mc_snd_timeout :: int
  mc_rcv_timeout :: int
  mc_send_size :: int
  mc_recv_size :: int
  mc_user_data :: nat
  mc_errors :: "memcached_error_t list"
  mc_namespace :: "bytes option"
  mc_configure_filename :: "bytes option"
  mc_configure_version :: int

text \<open>
  What a call sees of the system: the build, the clock (\<^const>\<open>None\<close> when \<open>gettimeofday\<close> fails), the error
  number of a failing call, \<open>random()\<close>, which allocations succeed (by the number of elements asked for),
  the memory for keys and strings, and what a new slot of the array of servers holds before it is
  initialised.
\<close>

record env =
  env_build :: hash_build
  env_now :: "int option"
  env_errno :: int
  env_random :: u32
  env_alloc :: "nat \<Rightarrow> bool"
  env_heap :: heap
  env_slot :: memcached_instance_st

definition MEMCACHED_DEFAULT_PORT :: u16 where "MEMCACHED_DEFAULT_PORT = 11211"
definition MEMCACHED_MAX_KEY :: nat where "MEMCACHED_MAX_KEY = 251"
definition MEMCACHED_MAX_NAMESPACE :: nat where "MEMCACHED_MAX_NAMESPACE = 128"
definition MEMCACHED_NI_MAXHOST :: nat where "MEMCACHED_NI_MAXHOST = 1025"
definition MEMCACHED_NI_MAXSERV :: nat where "MEMCACHED_NI_MAXSERV = 32"


subsection \<open>Errors\<close>

definition memcached_error_free :: "memcached_st \<Rightarrow> memcached_st" where
  "memcached_error_free m = m\<lparr>mc_errors := []\<rparr>"

text \<open>The code and error number \<open>_set\<close> records for a fatal code.\<close>

definition refine_error :: "env \<Rightarrow> memcached_return_t \<Rightarrow> int \<Rightarrow> memcached_return_t \<times> int" where
  "refine_error env rc local_errno =
     (let rc = (if local_errno = ENOMEM \<and> rc = MEMCACHED_ERRNO then MEMCACHED_MEMORY_ALLOCATION_FAILURE else rc);
          local_errno = (if rc = MEMCACHED_MEMORY_ALLOCATION_FAILURE then ENOMEM else local_errno);
          local_errno = (if rc = MEMCACHED_ERRNO \<and> local_errno = 0 then env_errno env else local_errno);
          rc = (if rc = MEMCACHED_ERRNO \<and> local_errno = ENOTCONN then MEMCACHED_CONNECTION_FAILURE else rc);
          rc = (if rc = MEMCACHED_ERRNO \<and> local_errno = ECONNRESET then MEMCACHED_CONNECTION_FAILURE else rc);
          rc = (if local_errno = EINVAL then MEMCACHED_INVALID_ARGUMENTS else rc);
          rc = (if local_errno = ECONNREFUSED then MEMCACHED_CONNECTION_FAILURE else rc)
      in (rc, local_errno))"

text \<open>
  \<open>_set\<close> on the client object: errors of an earlier query are dropped, then a fatal code is recorded.
  A record whose allocation fails is not kept.
\<close>

definition memc_set :: "env \<Rightarrow> memcached_return_t \<Rightarrow> int \<Rightarrow> memcached_st \<Rightarrow> memcached_return_t \<times> memcached_st" where
  "memc_set env rc local_errno m =
     (let m1 = (if mc_errors m \<noteq> [] \<and> err_query_id (hd (mc_errors m)) \<noteq> mc_query_id m then memcached_error_free m else m)
      in if memcached_fatal rc \<or> rc = MEMCACHED_CLIENT_ERROR then
           (let (rc', e) = refine_error env rc local_errno
            in if env_alloc env 1
               then (rc', m1\<lparr>mc_errors := \<lparr>err_query_id = mc_query_id m, err_rc = rc', err_errno = e\<rparr> # mc_errors m1\<rparr>)
               else (rc', m1))
         else (rc, m1))"

definition memcached_set_error :: "env \<Rightarrow> memcached_return_t \<Rightarrow> memcached_st \<Rightarrow> memcached_return_t \<times> memcached_st" where
  "memcached_set_error env rc m = (if memcached_fatal rc then memc_set env rc 0 m else (rc, m))"

definition memcached_set_errno :: "env \<Rightarrow> int \<Rightarrow> memcached_st \<Rightarrow> memcached_return_t \<times> memcached_st" where
  "memcached_set_errno env local_errno m =
     (if local_errno = 0 then (MEMCACHED_SUCCESS, m) else memc_set env MEMCACHED_ERRNO local_errno m)"

definition memcached_last_error :: "memcached_st \<Rightarrow> memcached_return_t" where
  "memcached_last_error m = (case mc_errors m of [] \<Rightarrow> MEMCACHED_SUCCESS | e # _ \<Rightarrow> err_rc e)"

definition memcached_last_error_errno :: "memcached_st \<Rightarrow> int" where
  "memcached_last_error_errno m = (case mc_errors m of [] \<Rightarrow> 0 | e # _ \<Rightarrow> err_errno e)"

definition memcached_has_current_error :: "memcached_st \<Rightarrow> bool" where
  "memcached_has_current_error m =
     (case mc_errors m of [] \<Rightarrow> False | e # _ \<Rightarrow> err_query_id e = mc_query_id m \<and> memcached_failed (err_rc e))"

text \<open>\<open>_set\<close> on an instance: the newest error of the client object is copied to it.\<close>

definition instance_set :: "env \<Rightarrow> memcached_st \<Rightarrow> memcached_instance_st \<Rightarrow> memcached_instance_st" where
  "instance_set env m ins =
     (let ins1 = (if ins_errors ins \<noteq> [] \<and> err_query_id (hd (ins_errors ins)) \<noteq> mc_query_id m
                  then ins\<lparr>ins_errors := []\<rparr> else ins)
      in case mc_errors m of
           [] \<Rightarrow> ins1
         | e # _ \<Rightarrow>
             (let ins2 = (if err_rc e = MEMCACHED_TIMEOUT then ins1\<lparr>ins_timeouts := ins_timeouts ins1 + 1\<rparr> else ins1)
              in if env_alloc env 1 then ins2\<lparr>ins_errors := e # ins_errors ins2\<rparr> else ins2))"

text \<open>The instance at an index of the array of servers, changed by a function.\<close>

definition upd_instance :: "nat \<Rightarrow> (memcached_instance_st \<Rightarrow> memcached_instance_st) \<Rightarrow> memcached_st \<Rightarrow> memcached_st" where
  "upd_instance i f m = m\<lparr>mc_servers := (mc_servers m)[i := f (mc_servers m ! i)]\<rparr>"

text \<open>The error functions on an instance: both \<open>_set\<close>, the one of the client object first.\<close>

definition server_error :: "env \<Rightarrow> memcached_return_t \<Rightarrow> int \<Rightarrow> nat \<Rightarrow> memcached_st \<Rightarrow> memcached_return_t \<times> memcached_st" where
  "server_error env rc local_errno i m =
     (let (rc', m1) = memc_set env rc local_errno m in (rc', upd_instance i (instance_set env m1) m1))"

definition server_set_error :: "env \<Rightarrow> memcached_return_t \<Rightarrow> nat \<Rightarrow> memcached_st \<Rightarrow> memcached_return_t \<times> memcached_st" where
  "server_set_error env rc i m = (if memcached_fatal rc then server_error env rc 0 i m else (rc, m))"

text \<open>With a message, an error reported by the server is recorded as well.\<close>

definition server_set_error_message :: "env \<Rightarrow> memcached_return_t \<Rightarrow> nat \<Rightarrow> memcached_st \<Rightarrow> memcached_return_t \<times> memcached_st" where
  "server_set_error_message env rc i m =
     (if memcached_fatal rc \<or> rc = MEMCACHED_CLIENT_ERROR then server_error env rc 0 i m else (rc, m))"

definition server_set_errno :: "env \<Rightarrow> int \<Rightarrow> nat \<Rightarrow> memcached_st \<Rightarrow> memcached_return_t \<times> memcached_st" where
  "server_set_errno env local_errno i m =
     (if local_errno = 0 then (MEMCACHED_SUCCESS, m) else server_error env MEMCACHED_ERRNO local_errno i m)"

definition instance_error_free :: "memcached_instance_st \<Rightarrow> memcached_instance_st" where
  "instance_error_free ins = ins\<lparr>ins_errors := []\<rparr>"

definition memcached_server_error_return :: "memcached_instance_st \<Rightarrow> memcached_return_t" where
  "memcached_server_error_return ins = (case ins_errors ins of [] \<Rightarrow> MEMCACHED_SUCCESS | e # _ \<Rightarrow> err_rc e)"


subsection \<open>The client object\<close>

definition default_flags :: memcached_flags where
  "default_flags =
     \<lparr>fl_auto_eject_hosts = False, fl_binary_protocol = False, fl_buffer_requests = False, fl_hash_with_namespace = False,
      fl_no_block = False, fl_reply = True, fl_randomize_replica_read = False, fl_support_cas = False, fl_tcp_nodelay = False,
      fl_use_sort_hosts = False, fl_use_udp = False, fl_verify_key = False, fl_tcp_keepalive = False, fl_is_aes = False,
      fl_is_fetching_version = False\<rparr>"

definition no_continuum :: memcached_ketama where
  "no_continuum = \<lparr>kt_weighted = False, kt_continuum_count = 0, kt_points_counter = 0, kt_next_rebuild = 0, kt_continuum = []\<rparr>"

text \<open>\<open>_memcached_init\<close>; the kit is created in place, which cannot fail.\<close>

definition memcached_create :: memcached_st where
  "memcached_create =
     \<lparr>mc_flags = default_flags, mc_distribution = MEMCACHED_DISTRIBUTION_MODULA,
      mc_hashkit = hashkit_init (hashkit_zero\<lparr>is_allocated := False\<rparr>), mc_server_version = 0, mc_servers = [],
      mc_last_disconnected = None, mc_ketama = no_continuum, mc_virtual_bucket = None, mc_query_id = 1,
      mc_number_of_replicas = 0, mc_server_failure_limit = 5, mc_server_timeout_limit = 0,
      mc_io_msg_watermark = 500, mc_io_bytes_watermark = 65 * 1024, mc_io_key_prefetch = 0, mc_tcp_keepidle = 0,
      mc_poll_timeout = 5000, mc_connect_timeout = 4000, mc_retry_timeout = 2, mc_dead_timeout = 0,
      mc_snd_timeout = 0, mc_rcv_timeout = 0, mc_send_size = - 1, mc_recv_size = - 1, mc_user_data = 0,
      mc_errors = [], mc_namespace = None, mc_configure_filename = None, mc_configure_version = - 1\<rparr>"

definition memcached_server_count :: "memcached_st \<Rightarrow> nat" where
  "memcached_server_count m = length (mc_servers m)"

definition memcached_set_user_data :: "nat \<Rightarrow> memcached_st \<Rightarrow> nat \<times> memcached_st" where
  "memcached_set_user_data data m = (mc_user_data m, m\<lparr>mc_user_data := data\<rparr>)"

text \<open>\<open>&ptr->servers[server_key]\<close>: outside of the array there is no instance.\<close>

definition memcached_instance_fetch :: "u32 \<Rightarrow> memcached_st \<Rightarrow> memcached_instance_st outcome" where
  "memcached_instance_fetch server_key m =
     (if unat server_key < length (mc_servers m) then Done (mc_servers m ! unat server_key) else Fault)"

definition initialize_const_query :: "memcached_st \<Rightarrow> memcached_return_t" where
  "initialize_const_query m = (if memcached_server_count m = 0 then MEMCACHED_NO_SERVERS else MEMCACHED_SUCCESS)"

definition initialize_query :: "env \<Rightarrow> bool \<Rightarrow> memcached_st \<Rightarrow> memcached_return_t \<times> memcached_st" where
  "initialize_query env increment_query_id m =
     (let m1 = (if increment_query_id then m\<lparr>mc_query_id := mc_query_id m + 1\<rparr> else m)
      in if memcached_server_count m1 = 0 then memcached_set_error env MEMCACHED_NO_SERVERS m1
         else (MEMCACHED_SUCCESS, memcached_error_free m1))"


subsection \<open>Instances\<close>

definition memcached_is_valid_servername :: "bytes \<Rightarrow> bool" where
  "memcached_is_valid_servername name \<longleftrightarrow> length name < MEMCACHED_NI_MAXHOST"

definition memcached_is_valid_filename :: "bytes \<Rightarrow> bool" where
  "memcached_is_valid_filename name \<longleftrightarrow> 0 < length name \<and> length name < MEMCACHED_NI_MAXHOST"

text \<open>\<open>_server_init\<close> with a root: the version of the instance is taken from the root.\<close>

definition server_init :: "memcached_st \<Rightarrow> bytes \<Rightarrow> u16 \<Rightarrow> u32 \<Rightarrow> memcached_connection_t \<Rightarrow> memcached_instance_st \<times> memcached_st" where
  "server_init root hostname port weight type =
     (let version = mc_server_version root + 1
      in (\<lparr>ins_hostname = (if hostname = [] then lit ''localhost'' else hostname), ins_port = port, ins_type = type,
           ins_weight = (if weight \<noteq> 0 then weight else 1), ins_version = version, ins_state = MEMCACHED_SERVER_STATE_NEW,
           ins_fd = None, ins_is_shutting_down = False, ins_is_dead = False, ins_cursor_active = 0, ins_io_bytes_sent = 0,
           ins_request_id = 0, ins_failure_counter = 0, ins_failure_counter_query_id = 0, ins_timeout_counter = 0,
           ins_timeout_counter_query_id = 0, ins_timeouts = 0, ins_major_version = 255, ins_minor_version = 255,
           ins_micro_version = 255, ins_read_buffer = [], ins_write_buffer = [], ins_next_retry = 0, ins_errors = []\<rparr>,
          root\<lparr>mc_server_version := version\<rparr>))"

text \<open>The header of a datagram: request, sequence number, number of datagrams.\<close>

definition udp_header :: bytes where
  "udp_header = [0, 0, 0, 0, 0, 1, 0, 0]"

text \<open>\<open>instance_create_with\<close> in an array slot: no memory is allocated.\<close>

definition instance_create_with ::
  "env \<Rightarrow> bytes \<Rightarrow> u16 \<Rightarrow> u32 \<Rightarrow> memcached_connection_t \<Rightarrow> memcached_st \<Rightarrow> memcached_instance_st option \<times> memcached_st" where
  "instance_create_with env hostname port weight type m =
     (if \<not> memcached_is_valid_servername hostname then (None, snd (memcached_set_error env MEMCACHED_INVALID_ARGUMENTS m))
      else
        (let (ins, m1) = server_init m hostname port weight type
         in (Some (if fl_use_udp (mc_flags m1) then ins\<lparr>ins_write_buffer := udp_header\<rparr> else ins), m1)))"

definition mark_server_as_clean :: "memcached_instance_st \<Rightarrow> memcached_instance_st" where
  "mark_server_as_clean ins = ins\<lparr>ins_failure_counter := 0, ins_timeout_counter := 0, ins_next_retry := 0\<rparr>"

text \<open>The host name as a C string: up to a zero byte.\<close>

definition host_text :: "memcached_instance_st \<Rightarrow> bytes" where
  "host_text ins = takeWhile (\<lambda>b. b \<noteq> 0) (ins_hostname ins)"

definition memcached_instance_clone ::
  "env \<Rightarrow> memcached_instance_st \<Rightarrow> memcached_st \<Rightarrow> memcached_instance_st option \<times> memcached_st" where
  "memcached_instance_clone env source m =
     (if memcached_is_valid_servername (host_text source) \<and> \<not> env_alloc env 1 then (None, m)
      else instance_create_with env (host_text source) (ins_port source) (ins_weight source) (ins_type source) m)"

text \<open>The version is stored through the result of the clone, which may be null.\<close>

definition set_last_disconnected_host :: "env \<Rightarrow> memcached_instance_st \<Rightarrow> memcached_st \<Rightarrow> memcached_st outcome" where
  "set_last_disconnected_host env self m =
     (if map_option ins_version (mc_last_disconnected m) = Some (ins_version self) then Done m
      else
        (case memcached_instance_clone env self m of
           (None, _) \<Rightarrow> Fault
         | (Some clone, m1) \<Rightarrow> Done (m1\<lparr>mc_last_disconnected := Some (clone\<lparr>ins_version := ins_version self\<rparr>)\<rparr>)))"

definition memcached_mark_server_for_timeout :: "env \<Rightarrow> nat \<Rightarrow> memcached_st \<Rightarrow> memcached_st outcome" where
  "memcached_mark_server_for_timeout env i m =
     (let server = mc_servers m ! i; query_id = mc_query_id m
      in if ins_state server = MEMCACHED_SERVER_STATE_IN_TIMEOUT then Done m
         else
           (let server1 = (if ins_timeout_counter_query_id server \<noteq> query_id
                           then server\<lparr>ins_timeout_counter := ins_timeout_counter server + 1,
                                       ins_timeout_counter_query_id := query_id\<rparr>
                           else server)
            in if ins_timeout_counter server1 < mc_server_timeout_limit m then Done (upd_instance i (\<lambda>_. server1) m)
               else
                 (let server2 = server1\<lparr>ins_next_retry := (case env_now env of Some now \<Rightarrow> now + mc_retry_timeout m | None \<Rightarrow> 1),
                                        ins_state := MEMCACHED_SERVER_STATE_IN_TIMEOUT\<rparr>;
                      server3 = (if ins_failure_counter_query_id server2 \<noteq> query_id
                                 then server2\<lparr>ins_failure_counter := ins_failure_counter server2 + 1,
                                              ins_failure_counter_query_id := query_id\<rparr>
                                 else server2)
                  in set_last_disconnected_host env server3 (upd_instance i (\<lambda>_. server3) m))))"

definition memcached_instance_next_retry :: "int \<Rightarrow> memcached_instance_st \<Rightarrow> memcached_instance_st" where
  "memcached_instance_next_retry absolute_time ins = ins\<lparr>ins_next_retry := absolute_time\<rparr>"

end
