(* ===== verification/Distribution.thy ===== *)
theory Distribution
  imports Memcached "HOL-Library.Product_Lexorder" "HOL-Library.List_Lexorder" Complex_Main
begin

text \<open>
  The distribution of keys to servers: \<open>libmemcached/hash.cc\<close>, \<open>virtual_bucket.cc\<close>, \<open>hosts.cc\<close> (lists of
  servers and the continuum of the consistent distributions), and the functions of \<open>memcached.cc\<close> and
  \<open>behavior.cc\<close> that build on them.  Single-precision arithmetic is modelled on rationals.
\<close>

subsection \<open>Single precision\<close>

text \<open>
  The exponent that brings a positive number between \<open>2 ^ 23\<close> and \<open>2 ^ 24\<close>.  256 steps are enough for
  every number of the range of \<open>float\<close>.
\<close>

primrec f32_scale :: "nat \<Rightarrow> rat \<Rightarrow> int \<Rightarrow> rat \<times> int" where
  "f32_scale 0 x e = (x, e)"
| "f32_scale (Suc n) x e =
     (if 16777216 \<le> x then f32_scale n (x / 2) (e + 1) else if x < 8388608 then f32_scale n (x * 2) (e - 1) else (x, e))"

definition round_even :: "rat \<Rightarrow> int" where
  "round_even x =
     (let r = \<lfloor>x\<rfloor>; d = x - of_int r in if 1 / 2 < d \<or> d = 1 / 2 \<and> odd r then r + 1 else r)"

definition f32 :: "rat \<Rightarrow> rat" where
  "f32 x = (if x \<le> 0 then 0 else let (m, e) = f32_scale 256 x 0 in of_int (round_even m) * 2 powi e)"


subsection \<open>Sorting the servers\<close>

text \<open>
  \<open>compare_servers\<close> as a key: the name, then the port.  \<open>qsort\<close> leaves the order of servers with the same
  name and port open; the model keeps it.
\<close>

definition compare_servers :: "memcached_instance_st \<Rightarrow> bytes \<times> u16" where
  "compare_servers ins = (host_text ins, ins_port ins)"

definition sort_hosts :: "memcached_st \<Rightarrow> memcached_st" where
  "sort_hosts m = m\<lparr>mc_servers := sort_key compare_servers (mc_servers m)\<rparr>"


subsection \<open>The continuum\<close>

definition MEMCACHED_POINTS_PER_SERVER :: u32 where "MEMCACHED_POINTS_PER_SERVER = 100"
definition MEMCACHED_POINTS_PER_SERVER_KETAMA :: u32 where "MEMCACHED_POINTS_PER_SERVER_KETAMA = 160"
definition MEMCACHED_CONTINUUM_ADDITION :: u32 where "MEMCACHED_CONTINUUM_ADDITION = 10"

text \<open>A key in a local buffer.\<close>

definition stack_key :: "bytes \<Rightarrow> ckey" where
  "stack_key bs = \<lparr>key_mem = (\<lambda>i. if i < length bs then bs ! i else 0), key_ptr = 0, key_length = length bs\<rparr>"

definition ketama_server_hash :: "hash_build \<Rightarrow> bytes \<Rightarrow> nat \<Rightarrow> u32" where
  "ketama_server_hash bld key alignment =
     (let results = libhashkit_md5_signature bld (stack_key key);
          b = (\<lambda>i. unsigned (results ! (i + alignment * 4)) :: u32)
      in push_bit 24 (b 3) OR push_bit 16 (b 2) OR push_bit 8 (b 1) OR b 0)"

definition continuum_item_cmp :: "continuum_item \<Rightarrow> u32 \<times> u32" where
  "continuum_item_cmp item = (ci_value item, ci_index item)"

text \<open>
  The number of points of a server under weighted ketama.  Weights are at least 1, so the total is not
  zero.
\<close>

definition ketama_points :: "u32 \<Rightarrow> u64 \<Rightarrow> u32 \<Rightarrow> u32" where
  "ketama_points weight total_weight live_servers =
     (let pct = f32 (f32 (of_nat (unat weight)) / f32 (of_nat (unat total_weight)));
          points = f32 (f32 (f32 (f32 (pct * 160) / 4) * f32 (of_nat (unat live_servers))) + f32 (1 / 10000000000))
      in word_of_int (\<lfloor>points\<rfloor> * 4))"

definition is_spy :: "memcached_st \<Rightarrow> bool" where
  "is_spy m \<longleftrightarrow> mc_distribution m = MEMCACHED_DISTRIBUTION_CONSISTENT_KETAMA_SPY"

text \<open>The text hashed for a point, and the size of the buffer it is printed to.\<close>

definition sort_host :: "memcached_st \<Rightarrow> memcached_instance_st \<Rightarrow> nat \<Rightarrow> bytes" where
  "sort_host m ins pointer_index =
     (if is_spy m then
        lit ''/'' @ host_text ins @ lit '':'' @ decimal (unat (ins_port ins)) @ lit ''-'' @ decimal pointer_index
      else if ins_port ins = MEMCACHED_DEFAULT_PORT then host_text ins @ lit ''-'' @ decimal pointer_index
      else host_text ins @ lit '':'' @ decimal (unat (ins_port ins)) @ lit ''-'' @ decimal pointer_index)"

definition sort_host_size :: "memcached_st \<Rightarrow> nat" where
  "sort_host_size m = (if is_spy m then 1 else 0) + MEMCACHED_NI_MAXHOST + 1 + MEMCACHED_NI_MAXSERV + 1 + MEMCACHED_NI_MAXSERV"

definition key_points :: "env \<Rightarrow> memcached_st \<Rightarrow> u32 \<Rightarrow> bytes \<Rightarrow> continuum_item list outcome" where
  "key_points env m host_index key =
     (if kt_weighted (mc_ketama m)
      then Done (map (\<lambda>x. \<lparr>ci_index = host_index, ci_value = ketama_server_hash (env_build env) key x\<rparr>) [0..<4])
      else obind (hashkit_digest (env_build env) (mc_hashkit m) (stack_key key)) (\<lambda>v.
             Done [\<lparr>ci_index = host_index, ci_value = v\<rparr>]))"

fun place_points :: "continuum_item list \<Rightarrow> nat \<Rightarrow> continuum_item list \<Rightarrow> (continuum_item list \<times> nat) outcome" where
  "place_points continuum continuum_index [] = Done (continuum, continuum_index)"
| "place_points continuum continuum_index (p # ps) =
     (if continuum_index < length continuum
      then place_points (continuum[continuum_index := p]) (continuum_index + 1) ps else Fault)"

text \<open>The points of one server; the flag is false when a text did not fit in its buffer.\<close>

fun fill_host :: "env \<Rightarrow> memcached_st \<Rightarrow> u32 \<Rightarrow> memcached_instance_st \<Rightarrow> nat list \<Rightarrow> continuum_item list \<Rightarrow> nat \<Rightarrow>
    (bool \<times> continuum_item list \<times> nat) outcome" where
  "fill_host env m host_index ins [] continuum continuum_index = Done (True, continuum, continuum_index)"
| "fill_host env m host_index ins (j # js) continuum continuum_index =
     (let key = sort_host m ins j
      in if sort_host_size m \<le> length key then Done (False, continuum, continuum_index)
         else obind (key_points env m host_index key) (\<lambda>ps.
              obind (place_points continuum continuum_index ps) (\<lambda>(continuum', index').
              fill_host env m host_index ins js continuum' index')))"

definition host_live :: "memcached_st \<Rightarrow> int \<Rightarrow> memcached_instance_st \<Rightarrow> bool" where
  "host_live m now ins \<longleftrightarrow> \<not> fl_auto_eject_hosts (mc_flags m) \<or> ins_next_retry ins \<le> now"

definition points_of_host :: "memcached_st \<Rightarrow> u32 \<Rightarrow> u64 \<Rightarrow> memcached_instance_st \<Rightarrow> u32" where
  "points_of_host m live_servers total_weight ins =
     (if kt_weighted (mc_ketama m) then ketama_points (ins_weight ins) total_weight live_servers
      else MEMCACHED_POINTS_PER_SERVER)"

definition hashes_of_host :: "memcached_st \<Rightarrow> u32 \<Rightarrow> nat" where
  "hashes_of_host m pointer_per_server =
     unat (pointer_per_server div (if kt_weighted (mc_ketama m) then 4 else 1))"

fun fill_hosts :: "env \<Rightarrow> memcached_st \<Rightarrow> int \<Rightarrow> u32 \<Rightarrow> u64 \<Rightarrow> u32 \<Rightarrow> memcached_instance_st list \<Rightarrow> continuum_item list \<Rightarrow> nat \<Rightarrow> u32 \<Rightarrow>
    (bool \<times> continuum_item list \<times> nat \<times> u32) outcome" where
  "fill_hosts env m now live all_weight host_index [] continuum continuum_index counter = Done (True, continuum, continuum_index, counter)"
| "fill_hosts env m now live all_weight host_index (ins # rest) continuum continuum_index counter =
     (if \<not> host_live m now ins
      then fill_hosts env m now live all_weight (host_index + 1) rest continuum continuum_index counter
      else
        (let pointer_per_server = points_of_host m live all_weight ins
         in obind (fill_host env m host_index ins [0..<hashes_of_host m pointer_per_server] continuum continuum_index)
              (\<lambda>(ok, continuum', index').
              if ok then fill_hosts env m now live all_weight (host_index + 1) rest continuum' index' (counter + pointer_per_server)
              else Done (False, continuum', index', counter))))"

definition next_rebuild :: "int \<Rightarrow> memcached_instance_st list \<Rightarrow> int" where
  "next_rebuild now hosts =
     fold (\<lambda>ins next. if ins_next_retry ins \<le> now then next
             else if next = 0 \<or> ins_next_retry ins < next then ins_next_retry ins else next) hosts 0"

definition live_servers :: "memcached_st \<Rightarrow> int \<Rightarrow> u32" where
  "live_servers m now = word_of_nat (length (filter (host_live m now) (mc_servers m)))"

definition total_weight :: "memcached_st \<Rightarrow> int \<Rightarrow> u64" where
  "total_weight m now =
     (if kt_weighted (mc_ketama m)
      then sum_list (map (\<lambda>ins. unsigned (ins_weight ins)) (filter (host_live m now) (mc_servers m))) else 0)"

text \<open>The continuum array with room for the given number of servers; \<^const>\<open>None\<close> when there is no memory.\<close>

definition grow_continuum :: "env \<Rightarrow> u32 \<Rightarrow> memcached_st \<Rightarrow> memcached_st option" where
  "grow_continuum env live m =
     (let points_per_server =
            (if kt_weighted (mc_ketama m) then MEMCACHED_POINTS_PER_SERVER_KETAMA else MEMCACHED_POINTS_PER_SERVER);
          continuum_limit = live * points_per_server;
          continuum_extra = MEMCACHED_CONTINUUM_ADDITION * points_per_server;
          k = mc_ketama m
      in if kt_continuum_count k < continuum_limit then
           (if env_alloc env (unat (continuum_limit + continuum_extra))
            then Some (m\<lparr>mc_ketama := k\<lparr>kt_continuum :=
                   take (unat (continuum_limit + continuum_extra)) (kt_continuum k) @
                   replicate (unat (continuum_limit + continuum_extra) - length (kt_continuum k)) \<lparr>ci_index = 0, ci_value = 0\<rparr>,
                   kt_continuum_count := continuum_limit + continuum_extra\<rparr>\<rparr>)
            else None)
         else Some m)"

definition sort_continuum :: "u32 \<Rightarrow> continuum_item list \<Rightarrow> memcached_st \<Rightarrow> (memcached_return_t \<times> memcached_st) outcome" where
  "sort_continuum counter continuum m =
     (if length continuum < unat counter then Fault
      else Done (MEMCACHED_SUCCESS, m\<lparr>mc_ketama := mc_ketama m\<lparr>kt_points_counter := counter,
             kt_continuum := sort_key continuum_item_cmp (take (unat counter) continuum) @ drop (unat counter) continuum\<rparr>\<rparr>))"

definition update_continuum :: "env \<Rightarrow> memcached_st \<Rightarrow> (memcached_return_t \<times> memcached_st) outcome" where
  "update_continuum env m =
     (case env_now env of
        None \<Rightarrow> Done (memcached_set_errno env (env_errno env) m)
      | Some now \<Rightarrow>
          (let m1 = (if fl_auto_eject_hosts (mc_flags m)
                     then m\<lparr>mc_ketama := mc_ketama m\<lparr>kt_next_rebuild := next_rebuild now (mc_servers m)\<rparr>\<rparr> else m);
               live = live_servers m1 now
           in if live = 0 then Done (MEMCACHED_SUCCESS, m1)
              else
                (case grow_continuum env live m1 of
                   None \<Rightarrow> Done (MEMCACHED_MEMORY_ALLOCATION_FAILURE, m1)
                 | Some m2 \<Rightarrow>
                     obind (fill_hosts env m2 now live (total_weight m2 now) 0 (mc_servers m2) (kt_continuum (mc_ketama m2)) 0 0)
                       (\<lambda>(ok, continuum, _, counter).
                       if ok then sort_continuum counter continuum m2
                       else Done (memcached_set_error env MEMCACHED_MEMORY_ALLOCATION_FAILURE
                              (m2\<lparr>mc_ketama := mc_ketama m2\<lparr>kt_continuum := continuum\<rparr>\<rparr>))))))"

fun memcached_is_consistent_distribution :: "memcached_server_distribution_t \<Rightarrow> bool" where
  "memcached_is_consistent_distribution MEMCACHED_DISTRIBUTION_CONSISTENT = True"
| "memcached_is_consistent_distribution MEMCACHED_DISTRIBUTION_CONSISTENT_KETAMA = True"
| "memcached_is_consistent_distribution MEMCACHED_DISTRIBUTION_CONSISTENT_KETAMA_SPY = True"
| "memcached_is_consistent_distribution MEMCACHED_DISTRIBUTION_CONSISTENT_WEIGHTED = True"
| "memcached_is_consistent_distribution _ = False"

text \<open>\<open>srandom\<close> has no effect on the object.\<close>

definition run_distribution :: "env \<Rightarrow> memcached_st \<Rightarrow> (memcached_return_t \<times> memcached_st) outcome" where
  "run_distribution env m =
     (let m1 = (if fl_use_sort_hosts (mc_flags m) then sort_hosts m else m)
      in if memcached_is_consistent_distribution (mc_distribution m1) then update_continuum env m1
         else Done (MEMCACHED_SUCCESS, m1))"


subsection \<open>Finding the server of a key\<close>

text \<open>The binary search of \<open>dispatch_host\<close>: the first point not below the hash.\<close>

function search_loop :: "continuum_item list \<Rightarrow> u32 \<Rightarrow> nat \<Rightarrow> nat \<Rightarrow> nat outcome" where
  "search_loop continuum hash left right =
     (if left < right then
        (let middle = left + (right - left) div 2
         in if length continuum \<le> middle then Fault
            else if ci_value (continuum ! middle) < hash then search_loop continuum hash (middle + 1) right
            else search_loop continuum hash left middle)
      else Done right)"
  by pat_completeness auto
termination
  by (relation "measure (\<lambda>(_, _, left, right). right - left)") auto

declare search_loop.simps [simp del]

definition memcached_virtual_bucket_get :: "memcached_st \<Rightarrow> u32 \<Rightarrow> u32 outcome" where
  "memcached_virtual_bucket_get m digest =
     (case mc_virtual_bucket m of
        Some vb \<Rightarrow>
          (let result = digest AND (vb_size vb - 1)
           in if unat result < length (vb_buckets vb) then Done (bkt_master (vb_buckets vb ! unat result)) else Fault)
      | None \<Rightarrow> Done (digest AND (word_of_nat (memcached_server_count m) - 1)))"

definition memcached_virtual_bucket_free :: "memcached_st \<Rightarrow> memcached_st" where
  "memcached_virtual_bucket_free m = m\<lparr>mc_virtual_bucket := None\<rparr>"

text \<open>The maps are the arrays of the caller; \<^const>\<open>None\<close> is a null pointer.\<close>

definition memcached_virtual_bucket_create ::
  "env \<Rightarrow> u32 list option \<Rightarrow> u32 list option \<Rightarrow> u32 \<Rightarrow> u32 \<Rightarrow> memcached_st \<Rightarrow> (memcached_return_t \<times> memcached_st) outcome" where
  "memcached_virtual_bucket_create env host_map forward_map buckets replicas m =
     (case host_map of
        None \<Rightarrow> Done (MEMCACHED_INVALID_ARGUMENTS, m)
      | Some hosts \<Rightarrow>
          if buckets = 0 then Done (MEMCACHED_INVALID_ARGUMENTS, m)
          else
            (let m1 = memcached_virtual_bucket_free m; n = unat buckets
             in if \<not> env_alloc env n then Done (MEMCACHED_MEMORY_ALLOCATION_FAILURE, m1)
                else if length hosts < n \<or> (\<exists>fs\<in>set_option forward_map. length fs < n) then Fault
                else Done (MEMCACHED_SUCCESS, m1\<lparr>mc_virtual_bucket := Some \<lparr>vb_size = buckets, vb_replicas = replicas,
                       vb_buckets = map (\<lambda>x. \<lparr>bkt_master = hosts ! x,
                                             bkt_forward = (case forward_map of Some fs \<Rightarrow> fs ! x | None \<Rightarrow> 0)\<rparr>) [0..<n]\<rparr>\<rparr>)))"

definition generate_hash :: "env \<Rightarrow> memcached_st \<Rightarrow> ckey \<Rightarrow> u32 outcome" where
  "generate_hash env m key = hashkit_digest (env_build env) (mc_hashkit m) key"

text \<open>The remainder by the number of servers; there is none by zero.\<close>

definition modulo_servers :: "memcached_st \<Rightarrow> u32 \<Rightarrow> u32 outcome" where
  "modulo_servers m x =
     (if memcached_server_count m = 0 then Fault else Done (x mod word_of_nat (memcached_server_count m)))"

definition dispatch_host :: "env \<Rightarrow> memcached_st \<Rightarrow> u32 \<Rightarrow> u32 outcome" where
  "dispatch_host env m hash =
     (if memcached_is_consistent_distribution (mc_distribution m) then
        (let num = unat (kt_points_counter (mc_ketama m)); continuum = kt_continuum (mc_ketama m)
         in obind (search_loop continuum hash 0 num) (\<lambda>right.
            let right = (if right = num then 0 else right)
            in if right < length continuum then Done (ci_index (continuum ! right)) else Fault))
      else if mc_distribution m = MEMCACHED_DISTRIBUTION_RANDOM then modulo_servers m (env_random env)
      else if mc_distribution m = MEMCACHED_DISTRIBUTION_VIRTUAL_BUCKET then memcached_virtual_bucket_get m hash
      else modulo_servers m hash)"

text \<open>\<open>strncpy\<close> to a buffer: the bytes before a zero byte, then zeros up to the given size.\<close>

definition strncpy :: "bytes \<Rightarrow> bytes" where
  "strncpy src = (let s = takeWhile (\<lambda>b. b \<noteq> 0) src in s @ replicate (length src - length s) 0)"

definition namespace_bytes :: "memcached_st \<Rightarrow> bytes" where
  "namespace_bytes m = (case mc_namespace m of None \<Rightarrow> [] | Some ns \<Rightarrow> ns)"

definition generate_hash_wrapper :: "env \<Rightarrow> memcached_st \<Rightarrow> ckey \<Rightarrow> u32 outcome" where
  "generate_hash_wrapper env m key =
     (if memcached_server_count m = 1 then Done 0
      else if fl_hash_with_namespace (mc_flags m) then
        (let temp_length = length (namespace_bytes m) + key_length key
         in if MEMCACHED_MAX_KEY - 1 < temp_length then Done 0
            else generate_hash env m (stack_key (strncpy (namespace_bytes m) @ strncpy (key_bytes key))))
      else generate_hash env m key)"

text \<open>The result of the redistribution is dropped.\<close>

definition memcached_autoeject :: "env \<Rightarrow> memcached_st \<Rightarrow> memcached_st outcome" where
  "memcached_autoeject env m =
     (if fl_auto_eject_hosts (mc_flags m) \<and> kt_next_rebuild (mc_ketama m) \<noteq> 0 then
        (case env_now env of
           None \<Rightarrow> Done m
         | Some now \<Rightarrow> if kt_next_rebuild (mc_ketama m) < now then map_outcome snd (run_distribution env m) else Done m)
      else Done m)"

definition memcached_generate_hash_with_redistribution :: "env \<Rightarrow> ckey \<Rightarrow> memcached_st \<Rightarrow> (u32 \<times> memcached_st) outcome" where
  "memcached_generate_hash_with_redistribution env key m =
     obind (generate_hash_wrapper env m key) (\<lambda>hash.
     obind (memcached_autoeject env m) (\<lambda>m1.
     obind (dispatch_host env m1 hash) (\<lambda>i. Done (i, m1))))"

definition memcached_generate_hash :: "env \<Rightarrow> memcached_st \<Rightarrow> ckey \<Rightarrow> u32 outcome" where
  "memcached_generate_hash env m key = obind (generate_hash_wrapper env m key) (dispatch_host env m)"

definition memcached_generate_hash_value :: "env \<Rightarrow> ckey \<Rightarrow> hashkit_hash_algorithm_t \<Rightarrow> u32" where
  "memcached_generate_hash_value env key hash_algorithm = libhashkit_digest (env_build env) key hash_algorithm"

text \<open>The kit of a client is part of the object, so freeing it keeps its memory.\<close>

definition memcached_set_hashkit :: "env \<Rightarrow> hashkit_st option \<Rightarrow> memcached_st \<Rightarrow> (memcached_return_t \<times> memcached_st) outcome" where
  "memcached_set_hashkit env hashk m =
     obind (hashkit_free (Some (mc_hashkit m))) (\<lambda>freed.
     case hashkit_clone (env_heap env) freed hashk of
       Some kit \<Rightarrow> Done (MEMCACHED_SUCCESS, m\<lparr>mc_hashkit := kit\<rparr>)
     | None \<Rightarrow> Done (MEMCACHED_SUCCESS, m))"


subsection \<open>Adding servers\<close>

definition set_weighted_ketama :: "bool \<Rightarrow> memcached_st \<Rightarrow> memcached_st" where
  "set_weighted_ketama b m = m\<lparr>mc_ketama := mc_ketama m\<lparr>kt_weighted := b\<rparr>\<rparr>"

text \<open>
  A new slot of the array.  When \<open>instance_create_with\<close> rejects the name the result is false; the slot
  stays uninitialised, but it counts as a server.
\<close>

definition push_instance :: "env \<Rightarrow> bytes \<Rightarrow> u16 \<Rightarrow> u32 \<Rightarrow> memcached_connection_t \<Rightarrow> memcached_st \<Rightarrow> bool \<times> memcached_st" where
  "push_instance env hostname port weight type m =
     (case instance_create_with env hostname port weight type m of
        (None, m1) \<Rightarrow> (False, m1\<lparr>mc_servers := mc_servers m1 @ [env_slot env]\<rparr>)
      | (Some ins, m1) \<Rightarrow> (True, m1\<lparr>mc_servers := mc_servers m1 @ [ins]\<rparr>))"

definition server_add ::
  "env \<Rightarrow> bytes \<Rightarrow> u16 \<Rightarrow> u32 \<Rightarrow> memcached_connection_t \<Rightarrow> memcached_st \<Rightarrow> (memcached_return_t \<times> memcached_st) outcome" where
  "server_add env hostname port weight type m =
     (if \<not> env_alloc env (memcached_server_count m + 1)
      then Done (memcached_set_error env MEMCACHED_MEMORY_ALLOCATION_FAILURE m)
      else
        (let (ok, m1) = push_instance env hostname port weight type m
         in if \<not> ok then Done (memcached_set_error env MEMCACHED_MEMORY_ALLOCATION_FAILURE m1)
            else run_distribution env
              (if 1 < weight \<and> memcached_is_consistent_distribution (mc_distribution m1) then set_weighted_ketama True m1 else m1)))"

text \<open>Servers as \<open>memcached_server_push\<close> and \<open>memcached_instance_push\<close> take them: name, port, weight, type.\<close>

record memcached_server_st =
  srv_hostname :: bytes
  srv_port :: u16
  srv_weight :: u32
  srv_type :: memcached_connection_t

text \<open>
  The array has room for all servers before the first is initialised: when one is rejected, its slot and
  those of the servers behind it stay uninitialised.
\<close>

fun push_servers :: "env \<Rightarrow> memcached_server_st list \<Rightarrow> memcached_st \<Rightarrow> bool \<times> memcached_st" where
  "push_servers env [] m = (True, m)"
| "push_servers env (s # ss) m =
     (let (ok, m1) = push_instance env (srv_hostname s) (srv_port s) (srv_weight s) (srv_type s) m
      in if \<not> ok then (False, m1\<lparr>mc_servers := mc_servers m1 @ replicate (length ss) (env_slot env)\<rparr>)
         else push_servers env ss (if 1 < srv_weight s then set_weighted_ketama True m1 else m1))"

definition memcached_server_push :: "env \<Rightarrow> memcached_server_st list option \<Rightarrow> memcached_st \<Rightarrow> (memcached_return_t \<times> memcached_st) outcome" where
  "memcached_server_push env servers m =
     (case servers of
        None \<Rightarrow> Done (MEMCACHED_SUCCESS, m)
      | Some ss \<Rightarrow>
          if \<not> env_alloc env (length ss + memcached_server_count m) then Done (MEMCACHED_MEMORY_ALLOCATION_FAILURE, m)
          else (let (ok, m1) = push_servers env ss m
                in if ok then run_distribution env m1
                   else Done (memcached_set_error env MEMCACHED_MEMORY_ALLOCATION_FAILURE m1)))"

definition server_of_instance :: "memcached_instance_st \<Rightarrow> memcached_server_st" where
  "server_of_instance ins =
     \<lparr>srv_hostname = host_text ins, srv_port = ins_port ins, srv_weight = ins_weight ins, srv_type = ins_type ins\<rparr>"

text \<open>The array of instances is a null pointer when it was never allocated.\<close>

definition memcached_instance_push :: "env \<Rightarrow> memcached_instance_st list \<Rightarrow> memcached_st \<Rightarrow> (memcached_return_t \<times> memcached_st) outcome" where
  "memcached_instance_push env instances m =
     memcached_server_push env (if instances = [] then None else Some (map server_of_instance instances)) m"

definition memcached_push :: "env \<Rightarrow> memcached_st \<Rightarrow> memcached_st \<Rightarrow> (memcached_return_t \<times> memcached_st) outcome" where
  "memcached_push env source destination = memcached_instance_push env (mc_servers source) destination"

definition memcached_server_add_unix_socket_with_weight ::
  "env \<Rightarrow> bytes \<Rightarrow> u32 \<Rightarrow> memcached_st \<Rightarrow> (memcached_return_t \<times> memcached_st) outcome" where
  "memcached_server_add_unix_socket_with_weight env filename weight m =
     (if \<not> memcached_is_valid_filename filename then Done (memcached_set_error env MEMCACHED_INVALID_ARGUMENTS m)
      else server_add env filename 0 weight MEMCACHED_CONNECTION_UNIX_SOCKET m)"

definition memcached_server_add_unix_socket :: "env \<Rightarrow> bytes \<Rightarrow> memcached_st \<Rightarrow> (memcached_return_t \<times> memcached_st) outcome" where
  "memcached_server_add_unix_socket env filename m = memcached_server_add_unix_socket_with_weight env filename 0 m"

definition memcached_server_add_udp_with_weight :: "env \<Rightarrow> memcached_st \<Rightarrow> memcached_return_t \<times> memcached_st" where
  "memcached_server_add_udp_with_weight env m = memcached_set_error env MEMCACHED_DEPRECATED m"

text \<open>\<^const>\<open>None\<close> is a null pointer for the name.\<close>

definition memcached_server_add_with_weight ::
  "env \<Rightarrow> bytes option \<Rightarrow> u16 \<Rightarrow> u32 \<Rightarrow> memcached_st \<Rightarrow> (memcached_return_t \<times> memcached_st) outcome" where
  "memcached_server_add_with_weight env hostname port weight m =
     (let port = (if port = 0 then MEMCACHED_DEFAULT_PORT else port);
          name = (case hostname of None \<Rightarrow> [] | Some h \<Rightarrow> h);
          name = (if name = [] then lit ''localhost'' else name)
      in if \<not> memcached_is_valid_servername name then Done (memcached_set_error env MEMCACHED_INVALID_ARGUMENTS m)
         else server_add env name port weight
                (if hd name = 47 then MEMCACHED_CONNECTION_UNIX_SOCKET else MEMCACHED_CONNECTION_TCP) m)"

definition memcached_server_add :: "env \<Rightarrow> bytes option \<Rightarrow> u16 \<Rightarrow> memcached_st \<Rightarrow> (memcached_return_t \<times> memcached_st) outcome" where
  "memcached_server_add env hostname port m = memcached_server_add_with_weight env hostname port 0 m"

text \<open>The name is copied to a buffer of \<^const>\<open>MEMCACHED_NI_MAXHOST\<close> bytes.\<close>

definition memcached_server_add_parsed ::
  "env \<Rightarrow> bytes \<Rightarrow> u16 \<Rightarrow> u32 \<Rightarrow> memcached_st \<Rightarrow> (memcached_return_t \<times> memcached_st) outcome" where
  "memcached_server_add_parsed env hostname port weight m =
     (if MEMCACHED_NI_MAXHOST \<le> length hostname then Fault
      else server_add env hostname port weight MEMCACHED_CONNECTION_TCP m)"

text \<open>
  \<open>server_create_with\<close> without a client, as \<open>memcached_server_list_append_with_weight\<close> calls it: a name that
  is too long is reported to the client, which is a null reference.
\<close>

definition server_create_with :: "bytes \<Rightarrow> u16 \<Rightarrow> u32 \<Rightarrow> memcached_connection_t \<Rightarrow> memcached_server_st outcome" where
  "server_create_with hostname port weight type =
     (if \<not> memcached_is_valid_servername hostname then Fault
      else Done \<lparr>srv_hostname = hostname, srv_port = port, srv_weight = (if weight \<noteq> 0 then weight else 1), srv_type = type\<rparr>)"

definition memcached_server_list_append_with_weight ::
  "env \<Rightarrow> memcached_server_st list option \<Rightarrow> bytes option \<Rightarrow> u16 \<Rightarrow> u32 \<Rightarrow> memcached_server_st list option outcome" where
  "memcached_server_list_append_with_weight env servers hostname port weight =
     (let name = (case hostname of None \<Rightarrow> lit ''localhost'' | Some h \<Rightarrow> h);
          port = (if name \<noteq> [] \<and> hd name = 47 then 0 else if port = 0 then MEMCACHED_DEFAULT_PORT else port);
          old = (case servers of None \<Rightarrow> [] | Some ss \<Rightarrow> ss)
      in if \<not> env_alloc env (1 + length old) then Done None
         else obind (server_create_with name port weight
                (if port \<noteq> 0 then MEMCACHED_CONNECTION_TCP else MEMCACHED_CONNECTION_UNIX_SOCKET)) (\<lambda>s.
              Done (Some (old @ [s]))))"

definition memcached_server_list_append ::
  "env \<Rightarrow> memcached_server_st list option \<Rightarrow> bytes option \<Rightarrow> u16 \<Rightarrow> memcached_server_st list option outcome" where
  "memcached_server_list_append env servers hostname port = memcached_server_list_append_with_weight env servers hostname port 0"


subsection \<open>Selecting a distribution\<close>

definition memcached_behavior_set_distribution ::
  "env \<Rightarrow> memcached_server_distribution_t \<Rightarrow> memcached_st \<Rightarrow> (memcached_return_t \<times> memcached_st) outcome" where
  "memcached_behavior_set_distribution env type m =
     (if type = MEMCACHED_DISTRIBUTION_CONSISTENT_MAX then Done (memcached_set_error env MEMCACHED_INVALID_ARGUMENTS m)
      else
        (let m1 = (if type = MEMCACHED_DISTRIBUTION_CONSISTENT \<or> type = MEMCACHED_DISTRIBUTION_CONSISTENT_KETAMA
                   then set_weighted_ketama False m
                   else if type = MEMCACHED_DISTRIBUTION_CONSISTENT_WEIGHTED then set_weighted_ketama True m else m)
         in run_distribution env (m1\<lparr>mc_distribution := type\<rparr>)))"

definition memcached_behavior_set_key_hash :: "env \<Rightarrow> hashkit_hash_algorithm_t \<Rightarrow> memcached_st \<Rightarrow> memcached_return_t \<times> memcached_st" where
  "memcached_behavior_set_key_hash env type m =
     (let (rc, kit) = hashkit_set_function (env_build env) (mc_hashkit m) type; m1 = m\<lparr>mc_hashkit := kit\<rparr>
      in if hashkit_success rc then (MEMCACHED_SUCCESS, m1) else memcached_set_error env MEMCACHED_INVALID_ARGUMENTS m1)"

definition memcached_behavior_get_key_hash :: "memcached_st \<Rightarrow> hashkit_hash_algorithm_t" where
  "memcached_behavior_get_key_hash m = hashkit_get_function (Some (mc_hashkit m))"

definition memcached_behavior_set_distribution_hash :: "env \<Rightarrow> hashkit_hash_algorithm_t \<Rightarrow> memcached_st \<Rightarrow> memcached_return_t \<times> memcached_st" where
  "memcached_behavior_set_distribution_hash env type m =
     (let (rc, kit) = hashkit_set_distribution_function (env_build env) (mc_hashkit m) type; m1 = m\<lparr>mc_hashkit := kit\<rparr>
      in if hashkit_success rc then (MEMCACHED_SUCCESS, m1) else memcached_set_error env MEMCACHED_INVALID_ARGUMENTS m1)"

definition memcached_behavior_get_distribution_hash :: "memcached_st \<Rightarrow> hashkit_hash_algorithm_t" where
  "memcached_behavior_get_distribution_hash m = hashkit_get_function (Some (mc_hashkit m))"

definition memcached_bucket_set ::
  "env \<Rightarrow> u32 list option \<Rightarrow> u32 list option \<Rightarrow> u32 \<Rightarrow> u32 \<Rightarrow> memcached_st \<Rightarrow> (memcached_return_t \<times> memcached_st) outcome" where
  "memcached_bucket_set env host_map forward_map buckets replicas m =
     (if host_map = None then Done (MEMCACHED_INVALID_ARGUMENTS, m)
      else
        obind (memcached_behavior_set_distribution env MEMCACHED_DISTRIBUTION_VIRTUAL_BUCKET m) (\<lambda>(rc, m1).
        if memcached_failed rc then Done (rc, m1)
        else
          obind (memcached_virtual_bucket_create env host_map forward_map buckets replicas m1) (\<lambda>(rc, m2).
          if memcached_failed rc then
            obind (memcached_behavior_set_distribution env (mc_distribution m) m2) (\<lambda>(_, m3). Done (rc, m3))
          else Done (rc, m2))))"


subsection \<open>Cloning a client\<close>

definition memcached_array_clone :: "env \<Rightarrow> bytes option \<Rightarrow> bytes option" where
  "memcached_array_clone env original =
     (case original of None \<Rightarrow> None | Some a \<Rightarrow> if env_alloc env (length a + 1) then Some a else None)"

text \<open>
  The settings \<open>memcached_clone\<close> copies before the servers.  Callbacks, allocators and the data of SASL are
  not part of the model.
\<close>

definition clone_settings :: "memcached_st \<Rightarrow> memcached_st \<Rightarrow> memcached_st" where
  "clone_settings source m =
     m\<lparr>mc_flags := mc_flags source, mc_send_size := mc_send_size source, mc_recv_size := mc_recv_size source,
       mc_poll_timeout := mc_poll_timeout source, mc_connect_timeout := mc_connect_timeout source,
       mc_retry_timeout := mc_retry_timeout source, mc_dead_timeout := mc_dead_timeout source,
       mc_distribution := mc_distribution source, mc_user_data := mc_user_data source,
       mc_snd_timeout := mc_snd_timeout source, mc_rcv_timeout := mc_rcv_timeout source,
       mc_server_failure_limit := mc_server_failure_limit source, mc_server_timeout_limit := mc_server_timeout_limit source,
       mc_io_msg_watermark := mc_io_msg_watermark source, mc_io_bytes_watermark := mc_io_bytes_watermark source,
       mc_io_key_prefetch := mc_io_key_prefetch source, mc_number_of_replicas := mc_number_of_replicas source,
       mc_tcp_keepidle := mc_tcp_keepidle source\<rparr>"

definition memcached_clone :: "env \<Rightarrow> memcached_st \<Rightarrow> memcached_st option outcome" where
  "memcached_clone env source =
     (if \<not> env_alloc env 1 then Done None
      else
        (let m = clone_settings source memcached_create
         in case hashkit_clone (env_heap env) (Some (mc_hashkit m)) (Some (mc_hashkit source)) of
              None \<Rightarrow> Done None
            | Some kit \<Rightarrow>
                obind (memcached_push env source (m\<lparr>mc_hashkit := kit\<rparr>)) (\<lambda>(rc, m1).
                if memcached_failed rc then Done None
                else
                  obind (run_distribution env (m1\<lparr>mc_namespace := memcached_array_clone env (mc_namespace source),
                      mc_configure_filename := memcached_array_clone env (mc_namespace source),
                      mc_configure_version := mc_configure_version source\<rparr>)) (\<lambda>(rc, m2).
                  if memcached_failed rc then Done None else Done (Some m2)))))"

definition memcached_servers_reset :: "memcached_st \<Rightarrow> memcached_st" where
  "memcached_servers_reset m =
     m\<lparr>mc_ketama := mc_ketama m\<lparr>kt_continuum := [], kt_continuum_count := 0, kt_points_counter := 0\<rparr>,
       mc_servers := [], mc_last_disconnected := None\<rparr>"

end
