(* ===== verification/Float_Points.thy ===== *)
theory Float_Points
  imports Distribution
begin

text \<open>
  Rounding errors of the single-precision computation of weighted points, and that the points of all servers
  together stay within the size of the continuum.
\<close>

subsection \<open>Rounding\<close>

lemma f32_scale_value: "f32_scale n x e = (m, e') \<Longrightarrow> m * 2 powi e' = x * 2 powi e"
proof (induction n arbitrary: x e)
  case (Suc n)
  have "x / 2 * 2 powi (e + 1) = x * 2 powi e" "x * 2 * 2 powi (e - 1) = x * 2 powi e"
    by (simp_all add: power_int_add power_int_diff)
  with Suc show ?case by (auto split: if_splits)
qed simp

lemma f32_scale_low: "8388608 \<le> x * 2 ^ n \<Longrightarrow> 8388608 \<le> fst (f32_scale n x e)"
proof (induction n arbitrary: x e)
  case (Suc n)
  have "8388608 \<le> x / 2 * 2 ^ n" if "16777216 \<le> x"
  proof -
    have "(8388608 :: rat) * 1 \<le> x / 2 * 2 ^ n" using that by (intro mult_mono) auto
    then show ?thesis by simp
  qed
  with Suc show ?case by (auto simp: ac_simps)
qed simp

lemma f32_scale_exhausted: "x * 2 ^ n < 8388608 \<Longrightarrow> 0 \<le> x \<Longrightarrow> f32_scale n x e = (x * 2 ^ n, e - int n)"
proof (induction n arbitrary: x e)
  case (Suc n)
  have "x * 1 \<le> x * 2 ^ Suc n" using Suc.prems(2) by (intro mult_left_mono one_le_power) auto
  then have "x < 8388608" using Suc.prems(1) by simp
  then show ?case using Suc.IH [of "x * 2" "e - 1"] Suc.prems by (simp add: ac_simps)
qed simp

lemma round_even_near: "of_int (round_even x) \<le> x + 1 / 2" "x - 1 / 2 \<le> of_int (round_even x)"
proof -
  define r where "r = \<lfloor>x\<rfloor>"
  have "of_int r \<le> x" "x < of_int r + 1" unfolding r_def by linarith+
  then show "of_int (round_even x) \<le> x + 1 / 2" "x - 1 / 2 \<le> of_int (round_even x)"
    by (auto simp: round_even_def Let_def r_def [symmetric])
qed

text \<open>The relative error of a rounding, and a bound for numbers too small for the search of the exponent.\<close>

definition ulp :: rat where "ulp = 1 / 16777216"
definition tiny :: rat where "tiny = 1 / 2 ^ 200"

lemma f32_up: "0 \<le> x \<Longrightarrow> f32 x \<le> x * (1 + ulp) + tiny"
proof (cases "x = 0")
  case False
  assume "0 \<le> x"
  with False have pos: "0 < x" by simp
  obtain m e where me: "f32_scale 256 x 0 = (m, e)" by fastforce
  then have val: "m * 2 powi e = x" using f32_scale_value [OF me] by simp
  have f: "f32 x = of_int (round_even m) * 2 powi e" using pos me by (simp add: f32_def)
  show ?thesis
  proof (cases "8388608 \<le> x * 2 ^ 256")
    case True
    then have "8388608 \<le> m" using f32_scale_low [OF True, of 0] me by simp
    then have "of_int (round_even m) \<le> m * (1 + ulp)"
      using round_even_near(1) [of m] by (simp add: ulp_def algebra_simps)
    then have "f32 x \<le> m * (1 + ulp) * 2 powi e" unfolding f by (intro mult_right_mono) auto
    also have "\<dots> = x * (1 + ulp)" using val by (simp add: ac_simps)
    finally show ?thesis by (simp add: tiny_def)
  next
    case False
    then have e: "e = - 256" using f32_scale_exhausted [of x 256 0] me pos by simp
    have "f32 x \<le> (m + 1 / 2) * 2 powi e" using round_even_near(1) [of m] unfolding f by (intro mult_right_mono) auto
    also have "\<dots> = x + 2 powi e / 2" using val by (simp add: algebra_simps)
    also have "2 powi e / 2 = (1 / 2 ^ 257 :: rat)" by (simp add: e power_int_minus field_simps)
    also have "x + 1 / 2 ^ 257 \<le> x * (1 + ulp) + tiny" using pos by (simp add: tiny_def ulp_def algebra_simps)
    finally show ?thesis .
  qed
qed (simp add: f32_def tiny_def)

lemma f32_down:
  assumes "1 \<le> x"
  shows "x * (1 - ulp) \<le> f32 x"
proof -
  obtain m e where me: "f32_scale 256 x 0 = (m, e)" by fastforce
  have "8388608 \<le> x * 2 ^ 256" using assms by simp
  then have "8388608 \<le> m" using f32_scale_low [of x 256 0] me by simp
  then have "m * (1 - ulp) \<le> of_int (round_even m)"
    using round_even_near(2) [of m] by (simp add: ulp_def algebra_simps)
  then have "m * (1 - ulp) * 2 powi e \<le> of_int (round_even m) * 2 powi e" by (intro mult_right_mono) auto
  also have "m * (1 - ulp) * 2 powi e = x * (1 - ulp)" using f32_scale_value [OF me] by (simp add: ac_simps)
  finally show ?thesis using assms me by (simp add: f32_def)
qed

lemma f32_nonneg: "0 \<le> f32 x"
proof (cases "0 < x")
  case True
  obtain m e where me: "f32_scale 256 x 0 = (m, e)" by fastforce
  then have "m * 2 powi e = x" using f32_scale_value [OF me] by simp
  with True have "0 < m" by (metis zero_less_mult_pos2 zero_less_numeral zero_less_power_int)
  then have "0 \<le> \<lfloor>m\<rfloor>" by simp
  then have "0 \<le> round_even m" by (simp add: round_even_def Let_def)
  with True me show ?thesis by (simp add: f32_def)
qed (simp add: f32_def)

text \<open>A rounding of a number that is known up to a relative and an absolute error.\<close>

lemma f32_step:
  assumes "0 \<le> x" and "x \<le> y * (1 + a) + e" and "0 \<le> y" and "0 \<le> a" "a \<le> 1" and "0 \<le> e"
  shows "f32 x \<le> y * (1 + (a + 2 * ulp)) + (2 * e + tiny)"
proof -
  have "f32 x \<le> x * (1 + ulp) + tiny" using assms(1) by (rule f32_up)
  also have "x * (1 + ulp) \<le> (y * (1 + a) + e) * (1 + ulp)" using assms(2) by (intro mult_right_mono) (auto simp: ulp_def)
  also have "\<dots> = y * ((1 + a) * (1 + ulp)) + e * (1 + ulp)" by (simp add: algebra_simps)
  also have "y * ((1 + a) * (1 + ulp)) \<le> y * (1 + (a + 2 * ulp))"
  proof (rule mult_left_mono [OF _ assms(3)])
    have "a * ulp \<le> 1 * ulp" using assms(5) by (intro mult_right_mono) (auto simp: ulp_def)
    then show "(1 + a) * (1 + ulp) \<le> 1 + (a + 2 * ulp)" by (simp add: algebra_simps)
  qed
  also have "e * (1 + ulp) \<le> 2 * e" using assms(6) by (simp add: ulp_def algebra_simps)
  finally show ?thesis by simp
qed


subsection \<open>The points of one server\<close>

text \<open>The computation of \<^const>\<open>ketama_points\<close> before it is cut to an integer.\<close>

definition raw_points :: "nat \<Rightarrow> nat \<Rightarrow> nat \<Rightarrow> rat" where
  "raw_points w W n =
     f32 (f32 (f32 (f32 (f32 (f32 (of_nat w) / f32 (of_nat W)) * 160) / 4) * f32 (of_nat n)) + f32 (1 / 10000000000))"

lemma ketama_points_raw:
  "ketama_points w W n = word_of_int (\<lfloor>raw_points (unat w) (unat W) (unat n)\<rfloor> * 4)"
  by (simp add: ketama_points_def raw_points_def Let_def)

lemma raw_points_nonneg: "0 \<le> raw_points w W n"
  by (simp add: raw_points_def f32_nonneg)

lemma quotient_up:
  assumes "1 \<le> W"
  shows "f32 (of_nat w) / f32 (of_nat W) \<le> of_nat w / of_nat W * (1 + 3 * ulp) + 2 * tiny"
proof -
  have W: "1 \<le> (of_nat W :: rat)" using assms by simp
  have pos: "0 < 1 - ulp" "0 < of_nat W * (1 - ulp)" using W by (simp_all add: ulp_def)
  have "f32 (of_nat w) / f32 (of_nat W) \<le> (of_nat w * (1 + ulp) + tiny) / (of_nat W * (1 - ulp))"
    using f32_up [of "of_nat w"] f32_down [OF W] pos by (intro frac_le) (auto simp: ulp_def tiny_def)
  also have "\<dots> = of_nat w / of_nat W * ((1 + ulp) / (1 - ulp)) + tiny / (of_nat W * (1 - ulp))"
    by (subst add_divide_distrib) simp
  also have "of_nat w / of_nat W * ((1 + ulp) / (1 - ulp)) \<le> of_nat w / of_nat W * (1 + 3 * ulp)"
    by (intro mult_left_mono) (auto simp: ulp_def)
  also have "tiny / (of_nat W * (1 - ulp)) \<le> 2 * tiny"
  proof -
    have "1 / 2 \<le> of_nat W * (1 - ulp)" using W by (simp add: ulp_def)
    then have "tiny / (of_nat W * (1 - ulp)) \<le> tiny / (1 / 2)" by (intro divide_left_mono) (auto simp: tiny_def)
    then show ?thesis by simp
  qed
  finally show ?thesis by simp
qed

lemma raw_points_up:
  assumes "1 \<le> W" and "1 \<le> n" and "n \<le> 10000"
  shows "raw_points w W n \<le> 40 * (of_nat w / of_nat W) * of_nat n * (1 + 17 * ulp) + 7 / 10000000000"
proof -
  define r where "r = (of_nat w / of_nat W :: rat)"
  have r: "0 \<le> r" by (simp add: r_def)
  have n: "1 \<le> (of_nat n :: rat)" "of_nat n \<le> (10000 :: rat)" using assms by simp_all
  note small = ulp_def tiny_def
  have p1: "f32 (f32 (of_nat w) / f32 (of_nat W)) \<le> r * (1 + (3 * ulp + 2 * ulp)) + (2 * (2 * tiny) + tiny)" (is "?p1 \<le> _")
    using quotient_up [OF assms(1), of w] r by (intro f32_step) (auto simp: r_def f32_nonneg small)
  then have "?p1 * 160 \<le> 160 * r * (1 + 5 * ulp) + 800 * tiny" by (simp add: algebra_simps)
  then have "f32 (?p1 * 160) \<le> 160 * r * (1 + (5 * ulp + 2 * ulp)) + (2 * (800 * tiny) + tiny)" (is "?p2 \<le> _")
    using r by (intro f32_step) (auto simp: f32_nonneg small)
  then have "?p2 / 4 \<le> 40 * r * (1 + 7 * ulp) + 401 * tiny" by (simp add: algebra_simps small)
  then have p3: "f32 (?p2 / 4) \<le> 40 * r * (1 + (7 * ulp + 2 * ulp)) + (2 * (401 * tiny) + tiny)" (is "?p3 \<le> _")
    using r by (intro f32_step) (auto simp: f32_nonneg small)
  have "f32 (of_nat n) \<le> of_nat n * (1 + ulp) + tiny" by (rule f32_up) simp
  also have "\<dots> \<le> of_nat n * (1 + 2 * ulp)" using n(1) by (simp add: small algebra_simps)
  finally have fn: "f32 (of_nat n) \<le> of_nat n * (1 + 2 * ulp)" .
  have "?p3 * f32 (of_nat n) \<le> (40 * r * (1 + 9 * ulp) + 803 * tiny) * (of_nat n * (1 + 2 * ulp))"
    using p3 fn r by (intro mult_mono) (auto simp: f32_nonneg small algebra_simps)
  also have "\<dots> = 40 * r * of_nat n * ((1 + 9 * ulp) * (1 + 2 * ulp)) + 803 * (1 + 2 * ulp) * tiny * of_nat n"
    by (simp add: algebra_simps)
  also have "40 * r * of_nat n * ((1 + 9 * ulp) * (1 + 2 * ulp)) \<le> 40 * r * of_nat n * (1 + 12 * ulp)"
    using r by (intro mult_left_mono) (auto simp: small)
  also have "803 * (1 + 2 * ulp) * tiny * of_nat n \<le> 804 * tiny * 10000"
    using n by (intro mult_mono) (auto simp: small)
  finally have "?p3 * f32 (of_nat n) \<le> 40 * r * of_nat n * (1 + 12 * ulp) + 8040000 * tiny" by simp
  then have p4: "f32 (?p3 * f32 (of_nat n)) \<le> 40 * r * of_nat n * (1 + (12 * ulp + 2 * ulp)) + (2 * (8040000 * tiny) + tiny)" (is "?p4 \<le> _")
    using r by (intro f32_step) (auto simp: f32_nonneg small)
  have "f32 (1 / 10000000000) \<le> 1 / 10000000000 * (1 + ulp) + tiny" by (rule f32_up) simp
  with p4 have "?p4 + f32 (1 / 10000000000) \<le> 40 * r * of_nat n * (1 + 14 * ulp) + 3 / 10000000000"
    by (simp add: small algebra_simps)
  then have "raw_points w W n \<le> 40 * r * of_nat n * (1 + (14 * ulp + 2 * ulp)) + (2 * (3 / 10000000000) + tiny)"
    unfolding raw_points_def using r by (intro f32_step) (auto simp: f32_nonneg small)
  also have "\<dots> \<le> 40 * r * of_nat n * (1 + 17 * ulp) + 7 / 10000000000"
    using r by (intro add_mono mult_left_mono) (auto simp: small)
  finally show ?thesis by (simp add: r_def)
qed


subsection \<open>The points of all servers\<close>

lemma sum_list_raw_up:
  assumes "1 \<le> W" and "1 \<le> n" and "n \<le> 10000"
  shows "sum_list (map (\<lambda>w. raw_points w W n) ws) \<le>
    40 * (of_nat (sum_list ws) / of_nat W) * of_nat n * (1 + 17 * ulp) + of_nat (length ws) * (7 / 10000000000)"
proof (induction ws)
  case (Cons w ws)
  then show ?case using raw_points_up [OF assms, of w] by (simp add: algebra_simps add_divide_distrib)
qed simp

lemma sum_list_floor: "(\<And>w. 0 \<le> f w) \<Longrightarrow> of_nat (sum_list (map (\<lambda>w. nat \<lfloor>f w\<rfloor>) ws)) \<le> sum_list (map f ws)"
  for f :: "nat \<Rightarrow> rat"
proof (induction ws)
  case (Cons w ws)
  have "of_nat (nat \<lfloor>f w\<rfloor>) \<le> f w" using Cons.prems [of w] by (simp add: of_nat_nat)
  with Cons show ?case by (simp add: add_mono)
qed simp

text \<open>The fractions cut off make up for the rounding: no point too many.\<close>

lemma sum_floor_points:
  assumes "1 \<le> sum_list ws" and "length ws \<le> 10000"
  shows "sum_list (map (\<lambda>w. nat \<lfloor>raw_points w (sum_list ws) (length ws)\<rfloor>) ws) \<le> 40 * length ws" (is "?s \<le> _")
proof -
  let ?n = "length ws"
  have n: "1 \<le> ?n" using assms(1) by (cases ws) auto
  have "of_nat ?s \<le> sum_list (map (\<lambda>w. raw_points w (sum_list ws) ?n) ws)" by (intro sum_list_floor raw_points_nonneg)
  also have "\<dots> \<le> 40 * of_nat ?n * (1 + 17 * ulp) + of_nat ?n * (7 / 10000000000)"
  proof -
    have "sum_list ws \<noteq> 0" using assms(1) by linarith
    then have "of_nat (sum_list ws) / of_nat (sum_list ws) = (1 :: rat)"
      by (intro divide_self) (simp only: of_nat_eq_0_iff not_False_eq_True)
    with sum_list_raw_up [OF assms(1) n assms(2), of ws] show ?thesis by (simp only: mult_1_right)
  qed
  also have "\<dots> < 40 * of_nat ?n + 1"
  proof -
    have "of_nat ?n * (40 * 17 * ulp + 7 / 10000000000) \<le> 10000 * (40 * 17 * ulp + 7 / 10000000000 :: rat)"
      using assms(2) by (intro mult_right_mono) (auto simp: ulp_def)
    also have "\<dots> < 1" by (simp add: ulp_def)
    finally show ?thesis by (simp add: algebra_simps)
  qed
  finally have "of_nat ?s < (of_nat (40 * ?n + 1) :: rat)" by simp
  then show ?thesis unfolding of_nat_less_iff by simp
qed

lemma raw_points_small:
  assumes "1 \<le> W" and "1 \<le> n" and "n \<le> 10000" and "w \<le> W"
  shows "\<lfloor>raw_points w W n\<rfloor> \<le> 800001"
proof -
  have "raw_points w W n \<le> 40 * (of_nat w / of_nat W) * of_nat n * (1 + 17 * ulp) + 7 / 10000000000"
    by (rule raw_points_up [OF assms(1-3)])
  also have "\<dots> \<le> 40 * 1 * 10000 * 2 + 1"
    using assms by (intro add_mono mult_mono) (auto simp: ulp_def)
  finally show ?thesis by (simp add: floor_le_iff)
qed

lemma unat_quadruple:
  assumes "0 \<le> f" and "f \<le> 800001"
  shows "unat (word_of_int (f * 4) :: u32) = 4 * nat f"
proof -
  obtain k where k: "f = int k" using assms(1) zero_le_imp_eq_int by blast
  then have "word_of_int (f * 4) = (word_of_nat (4 * k) :: u32)" by simp
  then show ?thesis using assms(2) k by (simp only: unsigned_of_nat) (simp add: take_bit_nat_eq_self)
qed

lemma unat_ketama_points:
  assumes "1 \<le> unat tw" and "1 \<le> unat live" and "unat live \<le> 10000" and "unat w \<le> unat tw"
  shows "unat (ketama_points w tw live) = 4 * nat \<lfloor>raw_points (unat w) (unat tw) (unat live)\<rfloor>"
proof -
  have "\<lfloor>raw_points (unat w) (unat tw) (unat live)\<rfloor> \<le> 800001" by (rule raw_points_small [OF assms])
  moreover have "0 \<le> \<lfloor>raw_points (unat w) (unat tw) (unat live)\<rfloor>" using raw_points_nonneg by simp
  ultimately show ?thesis unfolding ketama_points_raw by (intro unat_quadruple)
qed


subsection \<open>At least one point\<close>

lemma f32_low:
  assumes "1 / 2 ^ 100 \<le> x"
  shows "9 / 10 * x \<le> f32 x"
proof -
  have pos: "0 < x" by (rule less_le_trans [OF _ assms]) simp
  obtain m e where me: "f32_scale 256 x 0 = (m, e)" by fastforce
  have "(8388608 :: rat) \<le> 1 / 2 ^ 100 * 2 ^ 256" by simp
  also have "\<dots> \<le> x * 2 ^ 256" using assms by (intro mult_right_mono) auto
  finally have "8388608 \<le> m" using f32_scale_low [of x 256 0] me by simp
  then have "9 / 10 * m \<le> of_int (round_even m)" using round_even_near(2) [of m] by simp
  then have "9 / 10 * m * 2 powi e \<le> of_int (round_even m) * 2 powi e" by (intro mult_right_mono) auto
  also have "9 / 10 * m * 2 powi e = 9 / 10 * x" using f32_scale_value [OF me] by simp
  finally show ?thesis using pos me by (simp add: f32_def)
qed

lemma f32_ge: "y \<le> x \<Longrightarrow> 1 / 2 ^ 100 \<le> y \<Longrightarrow> 9 / 10 * y \<le> f32 x"
  using f32_low [of x] by simp

text \<open>A server with at least the average weight has a point.\<close>

lemma raw_points_ge:
  assumes "1 \<le> n" and "n \<le> 10000" and "1 \<le> W" and "W \<le> w * n" and "w \<le> 4294967296"
  shows "1 \<le> raw_points w W n"
proof -
  define r where "r = (of_nat w / of_nat W :: rat)"
  have n: "1 \<le> (of_nat n :: rat)" "of_nat n \<le> (10000 :: rat)" using assms by simp_all
  have W: "1 \<le> (of_nat W :: rat)" using assms by simp
  have "(of_nat W :: rat) \<le> of_nat w * of_nat n" using assms(4) by (metis of_nat_le_iff of_nat_mult)
  then have rn: "1 \<le> r * of_nat n" using W by (simp add: r_def field_simps)
  have "r * of_nat n \<le> r * 10000" using n by (intro mult_left_mono) (auto simp: r_def)
  with rn have r: "1 / 10000 \<le> r" by simp
  have w1: "1 \<le> (of_nat w :: rat)" using assms by (cases w) auto
  have a: "9 / 10 * of_nat w \<le> f32 (of_nat w)" using w1 by (intro f32_ge) auto
  have "f32 (of_nat W) \<le> of_nat W * (1 + ulp) + tiny" by (rule f32_up) simp
  also have "\<dots> \<le> 10 / 9 * of_nat W" using W by (simp add: ulp_def tiny_def)
  finally have b: "f32 (of_nat W) \<le> 10 / 9 * of_nat W" .
  have b0: "0 < f32 (of_nat W)" using f32_ge [of 1 "of_nat W"] W by simp
  have "9 / 10 * of_nat w / (10 / 9 * of_nat W) \<le> f32 (of_nat w) / f32 (of_nat W)"
    using a b b0 by (intro frac_le) (auto simp: f32_nonneg)
  then have "8 / 10 * r \<le> f32 (of_nat w) / f32 (of_nat W)" using r by (simp add: r_def field_simps)
  then have "9 / 10 * (8 / 10 * r) \<le> f32 (f32 (of_nat w) / f32 (of_nat W))" (is "_ \<le> ?p1")
    using r by (intro f32_ge) auto
  then have "115 * r \<le> ?p1 * 160" using r by simp
  then have "9 / 10 * (115 * r) \<le> f32 (?p1 * 160)" (is "_ \<le> ?p2") using r by (intro f32_ge) auto
  then have "25 * r \<le> ?p2 / 4" using r by simp
  then have p3: "9 / 10 * (25 * r) \<le> f32 (?p2 / 4)" (is "_ \<le> ?p3") using r by (intro f32_ge) auto
  have fn: "9 / 10 * of_nat n \<le> f32 (of_nat n)" using n by (intro f32_ge) auto
  have "20 \<le> 9 / 10 * 25 * (9 / 10) * (r * of_nat n)" using rn by simp
  also have "\<dots> = 9 / 10 * (25 * r) * (9 / 10 * of_nat n)" by simp
  also have "\<dots> \<le> ?p3 * f32 (of_nat n)" using p3 fn r by (intro mult_mono) (auto simp: f32_nonneg)
  finally have "9 / 10 * 20 \<le> f32 (?p3 * f32 (of_nat n))" (is "_ \<le> ?p4") by (intro f32_ge) auto
  then have "18 \<le> ?p4 + f32 (1 / 10000000000)" using f32_nonneg [of "1 / 10000000000"] by simp
  then have "9 / 10 * 18 \<le> raw_points w W n" unfolding raw_points_def by (intro f32_ge) auto
  then show ?thesis by simp
qed

lemma exists_average: "ws \<noteq> [] \<Longrightarrow> \<exists>w\<in>set ws. sum_list ws \<le> w * length (ws :: nat list)"
proof (rule ccontr)
  assume ws: "ws \<noteq> []" and "\<not> (\<exists>w\<in>set ws. sum_list ws \<le> w * length ws)"
  then have less: "\<forall>w\<in>set ws. w * length ws < sum_list ws" by auto
  have "sum_list (map (\<lambda>w. w * length ws) ws) < sum_list (map (\<lambda>_. sum_list ws) ws)"
    using less ws by (intro sum_list_strict_mono) auto
  then show False by (simp add: sum_list_mult_const sum_list_triv mult.commute)
qed

end
