(* ===== verification/Continuum.thy ===== *)
theory Continuum
  imports Float_Points
begin

text \<open>
  What the distributions compute.  The continuum is specified as a ring of points: the owner of a hash is the
  server of the first point at or after it, the smallest index breaking ties.
\<close>

subsection \<open>The binary search\<close>

lemma search_loop_step:
  fixes left right :: nat
  assumes "left < right" and "right \<le> length continuum" and "mid = left + (right - left) div 2"
  shows "search_loop continuum hash left right =
      (if ci_value (continuum ! mid) < hash then search_loop continuum hash (mid + 1) right
       else search_loop continuum hash left mid)"
    and "left \<le> mid" "mid < right" "mid < length continuum"
proof -
  show mid: "left \<le> mid" "mid < right" "mid < length continuum" using assms by auto
  then show "search_loop continuum hash left right =
      (if ci_value (continuum ! mid) < hash then search_loop continuum hash (mid + 1) right
       else search_loop continuum hash left mid)"
    using assms(1,3) by (subst search_loop.simps) (simp add: Let_def)
qed

lemma search_loop_end: "\<not> left < right \<Longrightarrow> search_loop continuum hash left right = Done right"
  by (subst search_loop.simps) simp

text \<open>
  Induction along the loop: on the two halves of the interval.
\<close>

lemma search_induct [consumes 2, case_names stop step]:
  fixes left right :: nat
  assumes "left \<le> right" and "right \<le> n"
    and "\<And>k. k \<le> n \<Longrightarrow> P k k"
    and "\<And>left right mid. left \<le> mid \<Longrightarrow> mid < right \<Longrightarrow> right \<le> n \<Longrightarrow> mid = left + (right - left) div 2 \<Longrightarrow>
      P (mid + 1) right \<Longrightarrow> P left mid \<Longrightarrow> P left right"
  shows "P left right"
  using assms(1,2)
proof (induction "right - left" arbitrary: left right rule: less_induct)
  case less
  show ?case
  proof (cases "left < right")
    case True
    define mid where "mid = left + (right - left) div 2"
    have mid: "left \<le> mid" "mid < right" using True by (auto simp: mid_def)
    show ?thesis
      by (rule assms(4) [OF mid less.prems(2) mid_def]) (use mid less in \<open>auto intro!: less.hyps\<close>)
  next
    case False
    then show ?thesis using less.prems assms(3) [of right] by (simp add: le_antisym)
  qed
qed

lemma search_loop_Done:
  assumes "left \<le> right" and "right \<le> length continuum"
  shows "\<exists>k. search_loop continuum hash left right = Done k \<and> left \<le> k \<and> k \<le> right"
  using assms
proof (induction left right rule: search_induct)
  case (stop k)
  show ?case by (simp add: search_loop_end)
next
  case (step left right mid)
  then have "left < right" by simp
  note loop = search_loop_step(1) [OF this step(3,4), of hash]
  show ?case
  proof (cases "ci_value (continuum ! mid) < hash")
    case True
    then have "search_loop continuum hash left right = search_loop continuum hash (mid + 1) right" using loop by simp
    with step(1,5) show ?thesis by (metis Suc_eq_plus1 Suc_leD le_trans)
  next
    case False
    then have "search_loop continuum hash left right = search_loop continuum hash left mid" using loop by simp
    with step(2,6) show ?thesis by (metis less_imp_le le_trans)
  qed
qed

text \<open>The loop keeps that the points before \<open>left\<close> are below the hash and those from \<open>right\<close> on are not.\<close>

lemma search_loop_bounds:
  assumes "left \<le> right" and "right \<le> n" and "n \<le> length continuum"
    and "sorted (map ci_value (take n continuum))"
    and "search_loop continuum hash left right = Done k"
    and "\<forall>i<left. ci_value (continuum ! i) < hash" and "\<forall>i. right \<le> i \<and> i < n \<longrightarrow> hash \<le> ci_value (continuum ! i)"
  shows "(\<forall>i<k. ci_value (continuum ! i) < hash) \<and> (\<forall>i. k \<le> i \<and> i < n \<longrightarrow> hash \<le> ci_value (continuum ! i))"
  using assms(1,2,5-7)
proof (induction left right rule: search_induct)
  case (stop j)
  then have "j = k" by (simp add: search_loop_end)
  with stop show ?case by simp
next
  case (step left right mid)
  have mono: "ci_value (continuum ! i) \<le> ci_value (continuum ! j)" if "i \<le> j" "j < n" for i j
    using sorted_nth_mono [OF assms(4), of i j] that assms(3) by simp
  have lr: "left < right" "right \<le> length continuum" "mid < n" using step(1-3) assms(3) by simp_all
  note loop = search_loop_step(1) [OF lr(1,2) step(4), of hash]
  show ?case
  proof (cases "ci_value (continuum ! mid) < hash")
    case True
    have "\<forall>i<mid + 1. ci_value (continuum ! i) < hash"
      using mono [of _ mid] lr(3) True by (metis Suc_eq_plus1 le_less_trans less_Suc_eq_le)
    moreover have "search_loop continuum hash (mid + 1) right = Done k" using True loop step.prems(1) by simp
    ultimately show ?thesis using step.prems(3) by (intro step.IH(1))
  next
    case False
    have "\<forall>i. mid \<le> i \<and> i < n \<longrightarrow> hash \<le> ci_value (continuum ! i)"
      using mono [of mid] False by (auto simp: not_less intro: order_trans [of hash "ci_value (continuum ! mid)"])
    moreover have "search_loop continuum hash left mid = Done k" using False loop step.prems(1) by simp
    ultimately show ?thesis using step.prems(2) by (intro step.IH(2))
  qed
qed


lemma filter_below:
  assumes "k \<le> length xs" and "\<forall>i<k. P (xs ! i)" and "\<forall>i. k \<le> i \<and> i < length xs \<longrightarrow> \<not> P (xs ! i)"
  shows "length (filter P xs) = k"
proof -
  have "filter P (take k xs) = take k xs" using assms(1,2) by (intro filter_True) (auto simp: in_set_conv_nth)
  moreover have "filter P (drop k xs) = []" using assms(3) by (intro filter_False) (auto simp: in_set_conv_nth)
  ultimately have "filter P (take k xs @ drop k xs) = take k xs" by (simp only: filter_append append_Nil2)
  then show ?thesis using assms(1) by simp
qed

text \<open>
  C13: The binary search of the continuum returns for every hash and every array, sorted or not, without reading
  outside of it; in a sorted array the result is the number of points below the hash.
\<close>

theorem search_loop_returns:
  assumes "n \<le> length continuum"
  shows "\<exists>k\<le>n. search_loop continuum hash 0 n = Done k \<and>
    (sorted (map ci_value (take n continuum)) \<longrightarrow> k = length (filter (\<lambda>p. ci_value p < hash) (take n continuum)))"
proof -
  obtain k where k: "search_loop continuum hash 0 n = Done k" "k \<le> n" using search_loop_Done [of 0 n continuum hash] assms by auto
  have "length (filter (\<lambda>p. ci_value p < hash) (take n continuum)) = k" if "sorted (map ci_value (take n continuum))"
  proof (rule filter_below)
    have b: "(\<forall>i<k. ci_value (continuum ! i) < hash) \<and> (\<forall>i. k \<le> i \<and> i < n \<longrightarrow> hash \<le> ci_value (continuum ! i))"
      using that assms k(1) by (intro search_loop_bounds [of 0 n n]) auto
    then show "\<forall>i<k. ci_value (take n continuum ! i) < hash" using k(2) by auto
    show "\<forall>i. k \<le> i \<and> i < length (take n continuum) \<longrightarrow> \<not> ci_value (take n continuum ! i) < hash" using b by (auto simp: not_less)
    show "k \<le> length (take n continuum)" using assms k(2) by simp
  qed
  with k show ?thesis by auto
qed

theorem search_loop_returns_witness:
  "search_loop [\<lparr>ci_index = 0, ci_value = 5\<rparr>, \<lparr>ci_index = 1, ci_value = 9\<rparr>] 7 0 2 = Done 1"
  using search_loop_returns [of 2 "[\<lparr>ci_index = 0, ci_value = 5\<rparr>, \<lparr>ci_index = 1, ci_value = 9\<rparr>]" 7] by auto


subsection \<open>The ring\<close>

definition points_above :: "continuum_item set \<Rightarrow> u32 \<Rightarrow> continuum_item set" where
  "points_above P h = {p \<in> P. h \<le> ci_value p}"

definition ring_owner :: "continuum_item set \<Rightarrow> u32 \<Rightarrow> u32" where
  "ring_owner P h =
     (let above = points_above P h in snd (Min (continuum_item_cmp ` (if above = {} then P else above))))"

lemma Min_first:
  assumes "finite A" and "a \<in> A" and "\<And>x. x \<in> A \<Longrightarrow> f a \<le> f x"
  shows "Min (f ` A) = f a"
  using assms by (intro Min_eqI) auto

lemma continuum_item_cmp_le: "continuum_item_cmp p \<le> continuum_item_cmp q \<Longrightarrow> ci_value p \<le> ci_value q"
  by (auto simp: continuum_item_cmp_def less_eq_prod_def)

lemma snd_continuum_item_cmp [simp]: "snd (continuum_item_cmp p) = ci_index p"
  by (simp add: continuum_item_cmp_def)

text \<open>The search in a sorted array finds the owner.\<close>

lemma search_finds_owner:
  assumes "sorted (map continuum_item_cmp ps)" and "ps \<noteq> []"
    and "search_loop (ps @ rest) hash 0 (length ps) = Done k"
  shows "ring_owner (set ps) hash = ci_index (ps ! (if k = length ps then 0 else k))"
proof -
  have mono: "continuum_item_cmp (ps ! i) \<le> continuum_item_cmp (ps ! j)" if "i \<le> j" "j < length ps" for i j
    using sorted_nth_mono [OF assms(1), of i j] that by simp
  have "sorted (map ci_value ps)"
    using mono continuum_item_cmp_le by (auto simp: sorted_iff_nth_mono_less intro: less_imp_le_nat)
  then have "(\<forall>i<k. ci_value ((ps @ rest) ! i) < hash) \<and> (\<forall>i. k \<le> i \<and> i < length ps \<longrightarrow> hash \<le> ci_value ((ps @ rest) ! i))"
    using assms(3) by (intro search_loop_bounds [of 0 "length ps"]) auto
  moreover have "k \<le> length ps" using search_loop_Done [of 0 "length ps" "ps @ rest" hash] assms(3) by auto
  ultimately have k: "k \<le> length ps" "\<And>i. i < k \<Longrightarrow> ci_value (ps ! i) < hash"
      "\<And>i. k \<le> i \<Longrightarrow> i < length ps \<Longrightarrow> hash \<le> ci_value (ps ! i)"
    by (auto simp: nth_append)
  show ?thesis
  proof (cases "k = length ps")
    case True
    then have "{p \<in> set ps. hash \<le> ci_value p} = {}" using k(2) by (auto simp: in_set_conv_nth not_le)
    moreover have "Min (continuum_item_cmp ` set ps) = continuum_item_cmp (ps ! 0)"
      using mono [of 0] assms(2) by (intro Min_first) (auto simp: in_set_conv_nth)
    ultimately show ?thesis using True by (simp add: ring_owner_def points_above_def)
  next
    case False
    then have "k < length ps" using k(1) by simp
    then have first: "ps ! k \<in> {p \<in> set ps. hash \<le> ci_value p}" using k(3) by simp
    have "Min (continuum_item_cmp ` {p \<in> set ps. hash \<le> ci_value p}) = continuum_item_cmp (ps ! k)"
    proof (rule Min_first [OF _ first])
      fix x assume "x \<in> {p \<in> set ps. hash \<le> ci_value p}"
      then obtain i where i: "i < length ps" "x = ps ! i" "hash \<le> ci_value (ps ! i)" by (auto simp: in_set_conv_nth)
      then have "k \<le> i" using k(2) [of i] by (meson leI not_le)
      then show "continuum_item_cmp (ps ! k) \<le> continuum_item_cmp x" using mono i by simp
    qed simp
    then show ?thesis using False first by (auto simp: ring_owner_def Let_def points_above_def)
  qed
qed

lemma ring_owner_in: "finite P \<Longrightarrow> P \<noteq> {} \<Longrightarrow> \<exists>p\<in>P. ring_owner P h = ci_index p"
proof -
  assume P: "finite P" "P \<noteq> {}"
  let ?A = "if points_above P h = {} then P else points_above P h"
  have "finite ?A" "?A \<noteq> {}" "?A \<subseteq> P" using P by (auto simp: points_above_def)
  then have "Min (continuum_item_cmp ` ?A) \<in> continuum_item_cmp ` ?A" by (intro Min_in) auto
  then obtain p where "p \<in> ?A" "Min (continuum_item_cmp ` ?A) = continuum_item_cmp p" by blast
  then have "p \<in> P" "ring_owner P h = ci_index p"
    using \<open>?A \<subseteq> P\<close> by (blast, simp only: ring_owner_def Let_def snd_continuum_item_cmp)
  then show ?thesis by blast
qed

text \<open>More points take over hashes, but only for their own servers.\<close>

lemma first_union:
  assumes "finite A" "finite B" "A \<noteq> {}"
  shows "snd (Min (continuum_item_cmp ` (A \<union> B))) = snd (Min (continuum_item_cmp ` A)) \<or>
    snd (Min (continuum_item_cmp ` (A \<union> B))) \<in> ci_index ` B"
proof (cases "B = {}")
  case False
  then have "Min (continuum_item_cmp ` B) \<in> continuum_item_cmp ` B" using assms by (intro Min_in) auto
  then have "snd (Min (continuum_item_cmp ` B)) \<in> ci_index ` B" by auto
  then show ?thesis using assms False by (simp add: image_Un Min_Un min_def)
qed simp

lemma ring_owner_eq:
  "ring_owner P h = snd (Min (continuum_item_cmp ` (if points_above P h = {} then P else points_above P h)))"
  by (simp add: ring_owner_def Let_def)

lemma ring_owner_union:
  assumes "finite P" "finite Q" "P \<noteq> {}"
  shows "ring_owner (P \<union> Q) h = ring_owner P h \<or> ring_owner (P \<union> Q) h \<in> ci_index ` Q"
proof -
  have up: "points_above (P \<union> Q) h = points_above P h \<union> points_above Q h" by (auto simp: points_above_def)
  have fin: "finite (points_above P h)" "finite (points_above Q h)" "points_above Q h \<subseteq> Q"
    using assms by (auto simp: points_above_def)
  note new = first_union [OF fin(1,2)] first_union [OF assms]
  consider "points_above P h \<noteq> {}" | "points_above P h = {}" "points_above Q h \<noteq> {}"
    | "points_above P h = {}" "points_above Q h = {}" by auto
  then show ?thesis
  proof cases
    case 1
    then have "ring_owner (P \<union> Q) h = ring_owner P h \<or> ring_owner (P \<union> Q) h \<in> ci_index ` points_above Q h"
      using new(1) by (simp add: ring_owner_eq up)
    with fin(3) show ?thesis by blast
  next
    case 2
    then have "Min (continuum_item_cmp ` points_above Q h) \<in> continuum_item_cmp ` points_above Q h"
      using fin 2 by (intro Min_in) auto
    then have "snd (Min (continuum_item_cmp ` points_above Q h)) \<in> ci_index ` points_above Q h" by auto
    then have "ring_owner (P \<union> Q) h \<in> ci_index ` points_above Q h" using 2 by (simp add: ring_owner_eq up)
    with fin(3) show ?thesis by blast
  next
    case 3
    then show ?thesis using new(2) by (simp add: ring_owner_eq up)
  qed
qed


subsection \<open>Building the ring\<close>

text \<open>A kit with a hash function; \<open>hashkit_create\<close> and the selection of a function give such kits.\<close>

definition kit_ok :: "hashkit_st \<Rightarrow> bool" where
  "kit_ok kit \<longleftrightarrow> fn (base_hash kit) \<noteq> Fn_null"

lemma hashkit_digest_Done: "kit_ok kit \<Longrightarrow> \<exists>v. hashkit_digest bld kit k = Done v"
  by (cases "fn (base_hash kit)") (auto simp: hashkit_digest_def kit_ok_def)

definition digest_value :: "env \<Rightarrow> hashkit_st \<Rightarrow> ckey \<Rightarrow> u32" where
  "digest_value env kit k = (case hashkit_digest (env_build env) kit k of Done v \<Rightarrow> v | Fault \<Rightarrow> 0)"

lemma hashkit_digest_value: "kit_ok kit \<Longrightarrow> hashkit_digest (env_build env) kit k = Done (digest_value env kit k)"
  using hashkit_digest_Done [of kit "env_build env" k] by (auto simp: digest_value_def)

text \<open>The points of a text, of a server and of all servers that are alive.\<close>

definition text_points :: "env \<Rightarrow> memcached_st \<Rightarrow> u32 \<Rightarrow> bytes \<Rightarrow> continuum_item list" where
  "text_points env m i key =
     map (\<lambda>v. \<lparr>ci_index = i, ci_value = v\<rparr>)
       (if kt_weighted (mc_ketama m) then map (ketama_server_hash (env_build env) key) [0..<4]
        else [digest_value env (mc_hashkit m) (stack_key key)])"

definition host_points :: "env \<Rightarrow> memcached_st \<Rightarrow> u32 \<Rightarrow> u32 \<Rightarrow> memcached_instance_st \<Rightarrow> continuum_item list" where
  "host_points env m i points ins = concat (map (\<lambda>j. text_points env m i (sort_host m ins j)) [0..<hashes_of_host m points])"

fun ring_points :: "env \<Rightarrow> memcached_st \<Rightarrow> int \<Rightarrow> u32 \<Rightarrow> u64 \<Rightarrow> nat \<Rightarrow> memcached_instance_st list \<Rightarrow> continuum_item list" where
  "ring_points env m now live w i [] = []"
| "ring_points env m now live w i (ins # rest) =
     (if host_live m now ins then host_points env m (word_of_nat i) (points_of_host m live w ins) ins else []) @
     ring_points env m now live w (Suc i) rest"

lemma key_points_eq: "kit_ok (mc_hashkit m) \<Longrightarrow> key_points env m i key = Done (text_points env m i key)"
  by (auto simp: key_points_def text_points_def hashkit_digest_value comp_def)

lemma place_points_eq:
  "k + length ps \<le> length c \<Longrightarrow> place_points c k ps = Done (take k c @ ps @ drop (k + length ps) c, k + length ps)"
proof (induction ps arbitrary: c k)
  case (Cons p ps)
  then have "take (Suc k) (c[k := p]) = take k c @ [p]" by (simp add: upd_conv_take_nth_drop)
  with Cons show ?case by simp
qed simp

lemma decimal_length: "n < 10 ^ Suc d \<Longrightarrow> length (decimal n) \<le> Suc d"
proof (induction d arbitrary: n)
  case 0
  then show ?case by (subst decimal.simps) simp
next
  case (Suc d)
  then have "n div 10 < 10 ^ Suc d" by (simp add: less_mult_imp_div_less)
  then show ?case using Suc.IH [of "n div 10"] by (subst decimal.simps) simp
qed

text \<open>The text of a point always fits in its buffer.\<close>

lemma sort_host_fits:
  assumes "length (host_text ins) < MEMCACHED_NI_MAXHOST" and "j < 2 ^ 32"
  shows "length (sort_host m ins j) < sort_host_size m"
proof -
  have "length (decimal j) \<le> Suc 9" using assms(2) by (intro decimal_length) simp
  moreover have "length (decimal (unat (ins_port ins))) \<le> Suc 4"
    using unat_bounds(2) [of "ins_port ins"] by (intro decimal_length) simp
  ultimately show ?thesis
    using assms(1) by (simp add: sort_host_def sort_host_size_def MEMCACHED_NI_MAXHOST_def MEMCACHED_NI_MAXSERV_def lit_def)
qed

lemma fill_host_eq:
  assumes "kit_ok (mc_hashkit m)" and "length (host_text ins) < MEMCACHED_NI_MAXHOST" and "\<forall>j\<in>set js. j < 2 ^ 32"
  shows "ps = concat (map (\<lambda>j. text_points env m i (sort_host m ins j)) js) \<Longrightarrow> k + length ps \<le> length c \<Longrightarrow>
    fill_host env m i ins js c k = Done (True, take k c @ ps @ drop (k + length ps) c, k + length ps)"
  using assms(3)
proof (induction js arbitrary: c k ps)
  case (Cons j js)
  let ?p = "text_points env m i (sort_host m ins j)"
  let ?rest = "concat (map (\<lambda>j. text_points env m i (sort_host m ins j)) js)"
  let ?c = "take k c @ ?p @ drop (k + length ?p) c"
  have len: "k + length ?p \<le> length c" "k + length ?p + length ?rest \<le> length ?c" using Cons.prems by auto
  have "\<not> sort_host_size m \<le> length (sort_host m ins j)" using sort_host_fits [of ins j m] assms(2) Cons.prems(3) by simp
  then have "fill_host env m i ins (j # js) c k = fill_host env m i ins js ?c (k + length ?p)"
    using key_points_eq [OF assms(1)] place_points_eq [OF len(1)] by (simp add: Let_def)
  also have "\<dots> = Done (True, take (k + length ?p) ?c @ ?rest @ drop (k + length ?p + length ?rest) ?c, k + length ?p + length ?rest)"
    using Cons.prems(3) by (intro Cons.IH [OF refl len(2)]) simp
  also have "take (k + length ?p) ?c @ ?rest @ drop (k + length ?p + length ?rest) ?c = take k c @ ps @ drop (k + length ps) c"
    using len(1) Cons.prems(1) by (simp add: ac_simps)
  finally show ?case using Cons.prems(1) by (simp add: ac_simps)
qed simp


lemma hashes_of_host_less: "hashes_of_host m points < 2 ^ 32"
  using unat_bounds(3) [of "points div (if kt_weighted (mc_ketama m) then 4 else 1)"] by (simp add: hashes_of_host_def)

lemma fill_hosts_eq:
  assumes "kit_ok (mc_hashkit m)" and "\<forall>ins\<in>set hosts. length (host_text ins) < MEMCACHED_NI_MAXHOST"
  shows "ps = ring_points env m now live w i hosts \<Longrightarrow> k + length ps \<le> length c \<Longrightarrow>
    fill_hosts env m now live w (word_of_nat i) hosts c k counter =
      Done (True, take k c @ ps @ drop (k + length ps) c, k + length ps,
        counter + sum_list (map (points_of_host m live w) (filter (host_live m now) hosts)))"
  using assms(2)
proof (induction hosts arbitrary: c k ps i counter)
  case (Cons ins hosts)
  let ?pps = "points_of_host m live w ins"
  let ?rest = "ring_points env m now live w (Suc i) hosts"
  have i: "word_of_nat (Suc i) = word_of_nat i + (1 :: u32)" by (simp add: add.commute)
  show ?case
  proof (cases "host_live m now ins")
    case True
    let ?p = "host_points env m (word_of_nat i) ?pps ins"
    let ?c = "take k c @ ?p @ drop (k + length ?p) c"
    have ps: "ps = ?p @ ?rest" using Cons.prems(1) True by simp
    have len: "k + length ?p \<le> length c" "k + length ?p + length ?rest \<le> length ?c" using Cons.prems(2) ps by auto
    have "fill_host env m (word_of_nat i) ins [0..<hashes_of_host m ?pps] c k = Done (True, ?c, k + length ?p)"
      using Cons.prems(3) hashes_of_host_less [of m ?pps] len(1)
      by (intro fill_host_eq [OF assms(1)]) (auto simp: host_points_def intro: less_trans)
    then have "fill_hosts env m now live w (word_of_nat i) (ins # hosts) c k counter =
        fill_hosts env m now live w (word_of_nat (Suc i)) hosts ?c (k + length ?p) (counter + ?pps)"
      using True by (simp add: Let_def i del: of_nat_Suc)
    also have "\<dots> = Done (True, take (k + length ?p) ?c @ ?rest @ drop (k + length ?p + length ?rest) ?c, k + length ?p + length ?rest,
        counter + ?pps + sum_list (map (points_of_host m live w) (filter (host_live m now) hosts)))"
      using Cons.prems(3) by (intro Cons.IH [OF refl len(2)]) simp
    finally show ?thesis using len(1) ps True by (simp add: ac_simps)
  next
    case False
    then show ?thesis using Cons.IH [of ps "Suc i" k c counter] Cons.prems by (simp add: i del: of_nat_Suc)
  qed
qed simp

text \<open>Every server gets the number of points that is counted for it.\<close>

lemma points_of_host_dvd:
  assumes "kt_weighted (mc_ketama m)"
  shows "4 dvd unat (points_of_host m live w ins)"
proof -
  let ?f = "\<lfloor>raw_points (unat (ins_weight ins)) (unat w) (unat live)\<rfloor>"
  have "int (unat (word_of_int (?f * 4) :: u32)) = ?f * 4 mod 2 ^ 32"
    by (simp add: unsigned_of_int take_bit_eq_mod del: of_int_mult)
  moreover have "(4 :: int) dvd ?f * 4 mod 2 ^ 32" by (simp add: dvd_mod)
  ultimately have "int 4 dvd int (unat (word_of_int (?f * 4) :: u32))" by (simp del: of_int_mult)
  then show ?thesis using assms by (simp only: points_of_host_def ketama_points_raw int_dvd_int_iff if_True)
qed

lemma length_host_points: "length (host_points env m i (points_of_host m live w ins) ins) = unat (points_of_host m live w ins)"
proof -
  have "length (host_points env m i (points_of_host m live w ins) ins) =
      hashes_of_host m (points_of_host m live w ins) * (if kt_weighted (mc_ketama m) then 4 else 1)"
    by (simp add: host_points_def length_concat text_points_def comp_def sum_list_triv)
  also have "\<dots> = unat (points_of_host m live w ins)"
    using points_of_host_dvd [of m live w ins] by (auto simp: hashes_of_host_def unat_div)
  finally show ?thesis .
qed

lemma length_ring_points:
  "length (ring_points env m now live w i hosts) =
     sum_list (map (\<lambda>ins. unat (points_of_host m live w ins)) (filter (host_live m now) hosts))"
  by (induction hosts arbitrary: i) (simp_all add: length_host_points)


subsection \<open>The ring of a client\<close>

text \<open>
  The state every operation keeps: a hash function, host names that fit their buffer, weights of at least 1, the
  array as long as its recorded size, and at most 10000 servers, the number up to which the rounding errors of
  weighted points are known to be harmless.
\<close>

definition client_wf :: "memcached_st \<Rightarrow> bool" where
  "client_wf m \<longleftrightarrow> kit_ok (mc_hashkit m) \<and> length (mc_servers m) \<le> 10000 \<and>
     (\<forall>ins\<in>set (mc_servers m). length (host_text ins) < MEMCACHED_NI_MAXHOST \<and> 1 \<le> ins_weight ins) \<and>
     length (kt_continuum (mc_ketama m)) = unat (kt_continuum_count (mc_ketama m))"

definition alive :: "memcached_st \<Rightarrow> int \<Rightarrow> memcached_instance_st list" where
  "alive m now = filter (host_live m now) (mc_servers m)"

definition points_per_server :: "memcached_st \<Rightarrow> nat" where
  "points_per_server m = (if kt_weighted (mc_ketama m) then 160 else 100)"

definition client_ring :: "env \<Rightarrow> memcached_st \<Rightarrow> int \<Rightarrow> continuum_item list" where
  "client_ring env m now = ring_points env m now (live_servers m now) (total_weight m now) 0 (mc_servers m)"

lemma length_alive: "client_wf m \<Longrightarrow> length (alive m now) \<le> 10000"
  by (auto simp: client_wf_def alive_def intro: order_trans [OF length_filter_le])

lemma unat_live_servers: "client_wf m \<Longrightarrow> unat (live_servers m now) = length (alive m now)"
  using length_alive [of m now] by (simp add: live_servers_def alive_def [symmetric] unsigned_of_nat take_bit_nat_eq_self)

lemma unat_sum_weights:
  "length hosts \<le> 10000 \<Longrightarrow> unat (sum_list (map (\<lambda>ins. unsigned (ins_weight ins)) hosts) :: u64) =
     sum_list (map (\<lambda>ins. unat (ins_weight ins)) hosts)"
  "sum_list (map (\<lambda>ins. unat (ins_weight ins)) hosts) \<le> length hosts * 4294967296"
proof (induction hosts)
  case (Cons ins hosts)
  have w: "unat (ins_weight ins) < 4294967296" by (rule unat_bounds(3))
  { case 2
    with Cons w show ?case by simp }
  { case 1
    let ?s = "sum_list (map (\<lambda>ins. unsigned (ins_weight ins)) hosts) :: u64"
    have "unat ?s = sum_list (map (\<lambda>ins. unat (ins_weight ins)) hosts)" using 1 Cons.IH(1) by simp
    moreover have "sum_list (map (\<lambda>ins. unat (ins_weight ins)) hosts) \<le> 10000 * 4294967296"
      using 1 Cons.IH(2) by simp
    ultimately have "unat (unsigned (ins_weight ins) :: u64) + unat ?s < 2 ^ 64" using w by (simp add: unat_widen)
    then have "unat (unsigned (ins_weight ins) + ?s) = unat (ins_weight ins) + unat ?s"
      by (subst unat_add_lem [THEN iffD1]) (simp_all add: unat_widen)
    with 1 Cons.IH(1) show ?case by simp }
qed simp_all

lemma unat_total_weight:
  "client_wf m \<Longrightarrow> kt_weighted (mc_ketama m) \<Longrightarrow>
     unat (total_weight m now) = sum_list (map (\<lambda>ins. unat (ins_weight ins)) (alive m now))"
  using length_alive [of m now] unat_sum_weights(1) [of "alive m now"] by (simp add: total_weight_def alive_def [symmetric])


lemma weighted_ring_length:
  assumes "client_wf m" and "kt_weighted (mc_ketama m)" and "alive m now \<noteq> []"
  defines "ws \<equiv> map (\<lambda>ins. unat (ins_weight ins)) (alive m now)"
  shows "length (client_ring env m now) = 4 * sum_list (map (\<lambda>w. nat \<lfloor>raw_points w (sum_list ws) (length ws)\<rfloor>) ws)"
    and "1 \<le> sum_list ws" and "length ws \<le> 10000" and "\<forall>w\<in>set ws. w \<le> 4294967296"
proof -
  show len: "length ws \<le> 10000" using length_alive [OF assms(1)] by (simp add: ws_def)
  show "\<forall>w\<in>set ws. w \<le> 4294967296" using unat_bounds(3) by (auto simp: ws_def intro: less_imp_le)
  obtain ins where ins: "ins \<in> set (alive m now)" using assms(3) by (cases "alive m now") auto
  then have "1 \<le> ins_weight ins" using assms(1) by (auto simp: client_wf_def alive_def)
  then have "1 \<le> unat (ins_weight ins)" by (simp add: word_le_nat_alt)
  also have "\<dots> \<le> sum_list ws" using ins by (intro member_le_sum_list) (auto simp: ws_def)
  finally show W: "1 \<le> sum_list ws" .
  have n: "1 \<le> length ws" using assms(3) by (cases "alive m now") (auto simp: ws_def)
  have tw: "unat (total_weight m now) = sum_list ws" using unat_total_weight [OF assms(1,2)] by (simp add: ws_def)
  have lv: "unat (live_servers m now) = length ws" using unat_live_servers [OF assms(1)] by (simp add: ws_def)
  have each: "unat (points_of_host m (live_servers m now) (total_weight m now) ins) =
      4 * nat \<lfloor>raw_points (unat (ins_weight ins)) (sum_list ws) (length ws)\<rfloor>" if "ins \<in> set (alive m now)" for ins
  proof -
    have "unat (ins_weight ins) \<le> sum_list ws" using that by (intro member_le_sum_list) (auto simp: ws_def)
    then show ?thesis
      using unat_ketama_points [of "total_weight m now" "live_servers m now" "ins_weight ins"] assms(2) W n len
      by (simp add: points_of_host_def tw lv)
  qed
  have "length (client_ring env m now) =
      sum_list (map (\<lambda>ins. unat (points_of_host m (live_servers m now) (total_weight m now) ins)) (alive m now))"
    by (simp add: client_ring_def length_ring_points alive_def)
  also have "\<dots> = sum_list (map (\<lambda>ins. 4 * nat \<lfloor>raw_points (unat (ins_weight ins)) (sum_list ws) (length ws)\<rfloor>) (alive m now))"
    using each by (intro arg_cong [where f = sum_list] map_cong) auto
  also have "\<dots> = 4 * sum_list (map (\<lambda>w. nat \<lfloor>raw_points w (sum_list ws) (length ws)\<rfloor>) ws)"
    by (simp add: ws_def comp_def sum_list_const_mult)
  finally show "length (client_ring env m now) = 4 * sum_list (map (\<lambda>w. nat \<lfloor>raw_points w (sum_list ws) (length ws)\<rfloor>) ws)" .
qed

lemma plain_ring_length:
  "\<not> kt_weighted (mc_ketama m) \<Longrightarrow> length (client_ring env m now) = length (alive m now) * 100"
  by (simp add: client_ring_def length_ring_points alive_def points_of_host_def MEMCACHED_POINTS_PER_SERVER_def sum_list_triv)

lemma client_ring_size:
  assumes "client_wf m"
  shows "length (client_ring env m now) \<le> length (alive m now) * points_per_server m"
proof (cases "kt_weighted (mc_ketama m) \<and> alive m now \<noteq> []")
  case True
  note len = weighted_ring_length [OF assms True [THEN conjunct1] True [THEN conjunct2]]
  show ?thesis using sum_floor_points [OF len(2,3)] True unfolding len(1) by (simp add: points_per_server_def)
next
  case False
  then consider "\<not> kt_weighted (mc_ketama m)" | "alive m now = []" by auto
  then show ?thesis
  proof cases
    case 1
    then show ?thesis by (simp add: plain_ring_length points_per_server_def)
  next
    case 2
    then show ?thesis by (simp add: client_ring_def length_ring_points alive_def)
  qed
qed

text \<open>
  C12: The points single-precision arithmetic gives to weighted servers never exceed the 160 per server the array is
  sized for, for up to 10000 servers of any weights: the fractions cut off make up for the rounding.
\<close>

theorem weighted_points_fit:
  assumes "client_wf m" and "kt_weighted (mc_ketama m)"
  shows "sum_list (map (\<lambda>ins. unat (ketama_points (ins_weight ins) (total_weight m now) (live_servers m now))) (alive m now))
    \<le> 160 * length (alive m now)"
proof -
  have "sum_list (map (\<lambda>ins. unat (ketama_points (ins_weight ins) (total_weight m now) (live_servers m now))) (alive m now)) =
      length (client_ring env m now)" for env
    using assms(2) by (simp add: client_ring_def length_ring_points alive_def points_of_host_def)
  then show ?thesis using client_ring_size [OF assms(1), of _ now] assms(2) by (simp add: points_per_server_def mult.commute)
qed

lemma client_ring_nonempty:
  assumes "client_wf m" and "alive m now \<noteq> []"
  shows "client_ring env m now \<noteq> []"
proof (cases "kt_weighted (mc_ketama m)")
  case True
  let ?ws = "map (\<lambda>ins. unat (ins_weight ins)) (alive m now)"
  note len = weighted_ring_length [OF assms(1) True assms(2)]
  obtain w where w: "w \<in> set ?ws" "sum_list ?ws \<le> w * length ?ws" using exists_average [of ?ws] assms(2) by auto
  have "1 \<le> length ?ws" using assms(2) by (cases "alive m now") auto
  then have "1 \<le> raw_points w (sum_list ?ws) (length ?ws)"
    using raw_points_ge len(2,3,4) w by blast
  then have "1 \<le> nat \<lfloor>raw_points w (sum_list ?ws) (length ?ws)\<rfloor>" by linarith
  also have "\<dots> \<le> sum_list (map (\<lambda>w. nat \<lfloor>raw_points w (sum_list ?ws) (length ?ws)\<rfloor>) ?ws)"
    using w(1) by (intro member_le_sum_list) auto
  finally have "0 < length (client_ring env m now)" unfolding len(1) by simp
  then show ?thesis by auto
next
  case False
  then have "length (client_ring env m now) = length (alive m now) * 100" by (rule plain_ring_length)
  then show ?thesis using assms(2) by auto
qed


subsection \<open>What \<open>update_continuum\<close> builds\<close>

text \<open>The ring of a client depends on the servers, the distribution, the kit and two flags.\<close>

lemma ring_cong:
  assumes "mc_flags m' = mc_flags m" and "mc_distribution m' = mc_distribution m" and "mc_hashkit m' = mc_hashkit m"
    and "kt_weighted (mc_ketama m') = kt_weighted (mc_ketama m)"
  shows "ring_points env m' now live w i hosts = ring_points env m now live w i hosts"
    and "host_live m' now = host_live m now" and "points_of_host m' live w = points_of_host m live w"
proof -
  show live: "host_live m' now = host_live m now" using assms(1) by (simp add: host_live_def fun_eq_iff)
  show points: "points_of_host m' live w = points_of_host m live w" for live w
    using assms(4) by (simp add: points_of_host_def fun_eq_iff)
  have "sort_host m' = sort_host m" using assms(2) by (simp add: sort_host_def is_spy_def fun_eq_iff)
  then have "host_points env m' = host_points env m"
    using assms(3,4) by (simp add: host_points_def text_points_def hashes_of_host_def fun_eq_iff)
  then show "ring_points env m' now live w i hosts = ring_points env m now live w i hosts"
    using live points by (induction hosts arbitrary: i) simp_all
qed

lemma ring_update:
  assumes "kt_weighted k = kt_weighted (mc_ketama m)"
  shows "ring_points env (m\<lparr>mc_ketama := k\<rparr>) now live w i hosts = ring_points env m now live w i hosts"
    and "host_live (m\<lparr>mc_ketama := k\<rparr>) now = host_live m now"
    and "live_servers (m\<lparr>mc_ketama := k\<rparr>) now = live_servers m now"
    and "total_weight (m\<lparr>mc_ketama := k\<rparr>) now = total_weight m now"
    and "client_ring env (m\<lparr>mc_ketama := k\<rparr>) now = client_ring env m now"
proof -
  note same = ring_cong [of "m\<lparr>mc_ketama := k\<rparr>" m, simplified, OF assms]
  show "ring_points env (m\<lparr>mc_ketama := k\<rparr>) now live w i hosts = ring_points env m now live w i hosts" by (rule same(1))
  show "host_live (m\<lparr>mc_ketama := k\<rparr>) now = host_live m now" by (rule same(2))
  show n: "live_servers (m\<lparr>mc_ketama := k\<rparr>) now = live_servers m now" by (simp add: live_servers_def same(2))
  show t: "total_weight (m\<lparr>mc_ketama := k\<rparr>) now = total_weight m now" using assms by (simp add: total_weight_def same(2))
  show "client_ring env (m\<lparr>mc_ketama := k\<rparr>) now = client_ring env m now" by (simp add: client_ring_def n t same(1))
qed

text \<open>The array begins with the sorted points of a ring.\<close>

definition holds_ring :: "memcached_ketama \<Rightarrow> continuum_item list \<Rightarrow> bool" where
  "holds_ring k ps \<longleftrightarrow> unat (kt_points_counter k) = length ps \<and>
     (\<exists>rest. kt_continuum k = sort_key continuum_item_cmp ps @ rest)"

text \<open>The array has room for the points of all servers that are alive.\<close>

lemma grow_continuum_room:
  assumes "client_wf m" and "grow_continuum env (live_servers m now) m = Some m2"
  obtains c count where "m2 = m\<lparr>mc_ketama := mc_ketama m\<lparr>kt_continuum := c, kt_continuum_count := count\<rparr>\<rparr>"
    and "length c = unat count" and "length (alive m now) * points_per_server m \<le> length c"
proof -
  let ?p = "(if kt_weighted (mc_ketama m) then MEMCACHED_POINTS_PER_SERVER_KETAMA else MEMCACHED_POINTS_PER_SERVER)"
  let ?limit = "live_servers m now * ?p" and ?extra = "MEMCACHED_CONTINUUM_ADDITION * ?p"
  have n: "length (alive m now) \<le> 10000" by (rule length_alive [OF assms(1)])
  have limit: "unat ?limit = length (alive m now) * points_per_server m"
    using n by (subst unat_mult_lem [THEN iffD1])
      (auto simp: unat_live_servers [OF assms(1)] points_per_server_def MEMCACHED_POINTS_PER_SERVER_KETAMA_def MEMCACHED_POINTS_PER_SERVER_def)
  have extra: "unat ?extra \<le> 1600"
    by (simp add: MEMCACHED_CONTINUUM_ADDITION_def MEMCACHED_POINTS_PER_SERVER_KETAMA_def MEMCACHED_POINTS_PER_SERVER_def)
  have "unat ?limit \<le> 1600000" using n unfolding limit by (auto simp: points_per_server_def)
  then have sum: "unat (?limit + ?extra) = unat ?limit + unat ?extra"
    using extra by (subst unat_add_lem [THEN iffD1]) auto
  show ?thesis
  proof (cases "kt_continuum_count (mc_ketama m) < ?limit")
    case True
    let ?c = "take (unat (?limit + ?extra)) (kt_continuum (mc_ketama m)) @
      replicate (unat (?limit + ?extra) - length (kt_continuum (mc_ketama m))) \<lparr>ci_index = 0, ci_value = 0\<rparr>"
    have "m2 = m\<lparr>mc_ketama := mc_ketama m\<lparr>kt_continuum := ?c, kt_continuum_count := ?limit + ?extra\<rparr>\<rparr>"
      using assms(2) True by (simp add: grow_continuum_def Let_def split: if_splits)
    then show ?thesis by (rule that) (use limit sum in auto)
  next
    case False
    then have "m2 = m\<lparr>mc_ketama := mc_ketama m\<lparr>kt_continuum := kt_continuum (mc_ketama m), kt_continuum_count := kt_continuum_count (mc_ketama m)\<rparr>\<rparr>"
      using assms(2) by (simp add: grow_continuum_def Let_def)
    then show ?thesis
      by (rule that) (use assms(1) False limit in \<open>auto simp: client_wf_def not_less word_le_nat_alt\<close>)
  qed
qed


lemma sum_list_unat:
  "sum_list (map (\<lambda>x. unat (f x)) xs) < 2 ^ 32 \<Longrightarrow> unat (sum_list (map f xs) :: u32) = sum_list (map (\<lambda>x. unat (f x)) xs)"
proof (induction xs)
  case (Cons x xs)
  then have "unat (f x) + unat (sum_list (map f xs)) < 2 ^ 32" by simp
  then have "unat (f x + sum_list (map f xs)) = unat (f x) + unat (sum_list (map f xs))"
    by (subst unat_add_lem [THEN iffD1]) auto
  with Cons show ?case by simp
qed simp

lemma sort_continuum_eq:
  "unat counter = length ps \<Longrightarrow> sort_continuum counter (ps @ rest) m =
     Done (MEMCACHED_SUCCESS, m\<lparr>mc_ketama := mc_ketama m\<lparr>kt_points_counter := counter, kt_continuum := sort_key continuum_item_cmp ps @ rest\<rparr>\<rparr>)"
  by (simp add: sort_continuum_def)

text \<open>
  Rebuilding the continuum of a client with a server that is alive never leaves the array: it ends for lack of
  memory, or the array holds the ring.
\<close>

lemma update_continuum_cases:
  assumes "client_wf m" and "env_now env = Some now" and "alive m now \<noteq> []"
  shows "(\<exists>k. update_continuum env m = Done (MEMCACHED_MEMORY_ALLOCATION_FAILURE, m\<lparr>mc_ketama := k\<rparr>) \<and>
      k = mc_ketama m\<lparr>kt_next_rebuild := kt_next_rebuild k\<rparr> \<and> (\<exists>n. \<not> env_alloc env n)) \<or>
    (\<exists>k. update_continuum env m = Done (MEMCACHED_SUCCESS, m\<lparr>mc_ketama := k\<rparr>) \<and>
      kt_weighted k = kt_weighted (mc_ketama m) \<and> length (kt_continuum k) = unat (kt_continuum_count k) \<and>
      holds_ring k (client_ring env m now))"
proof -
  define k1 where "k1 = (if fl_auto_eject_hosts (mc_flags m) then (mc_ketama m)\<lparr>kt_next_rebuild := next_rebuild now (mc_servers m)\<rparr> else mc_ketama m)"
  define m1 where "m1 = m\<lparr>mc_ketama := k1\<rparr>"
  have m1: "m1 = (if fl_auto_eject_hosts (mc_flags m)
      then m\<lparr>mc_ketama := mc_ketama m\<lparr>kt_next_rebuild := next_rebuild now (mc_servers m)\<rparr>\<rparr> else m)"
    by (simp add: m1_def k1_def)
  have k1: "kt_weighted k1 = kt_weighted (mc_ketama m)" "k1 = mc_ketama m\<lparr>kt_next_rebuild := kt_next_rebuild k1\<rparr>"
    by (simp_all add: k1_def)
  note same = ring_update [OF k1(1), folded m1_def]
  have wf1: "client_wf m1" using assms(1) by (simp add: client_wf_def m1_def k1_def)
  have alive1: "alive m1 now = alive m now" by (simp add: alive_def same(2)) (simp add: m1_def)
  then have live: "live_servers m1 now \<noteq> 0" using assms(3) unat_live_servers [OF wf1, of now] by auto
  show ?thesis
  proof (cases "grow_continuum env (live_servers m1 now) m1")
    case None
    then have "update_continuum env m = Done (MEMCACHED_MEMORY_ALLOCATION_FAILURE, m1)"
      using assms(2) live m1 by (simp add: update_continuum_def Let_def)
    moreover have "\<exists>n. \<not> env_alloc env n" using None by (auto simp: grow_continuum_def Let_def split: if_splits)
    ultimately show ?thesis using k1(2) by (auto simp: m1_def)
  next
    case (Some m2)
    then obtain c count where m2: "m2 = m1\<lparr>mc_ketama := mc_ketama m1\<lparr>kt_continuum := c, kt_continuum_count := count\<rparr>\<rparr>"
      and c: "length c = unat count" and room: "length (alive m1 now) * points_per_server m1 \<le> length c"
      by (rule grow_continuum_room [OF wf1])
    define k2 where "k2 = k1\<lparr>kt_continuum := c, kt_continuum_count := count\<rparr>"
    have m2k: "m2 = m\<lparr>mc_ketama := k2\<rparr>" by (simp add: m2 m1_def k2_def)
    have k2: "kt_weighted k2 = kt_weighted (mc_ketama m)" by (simp add: k2_def k1(1))
    note same2 = ring_update [OF k2, folded m2k]
    let ?ps = "client_ring env m now" and ?live = "live_servers m now" and ?w = "total_weight m now"
    have len: "length ?ps \<le> length c"
      using client_ring_size [OF wf1, of env now] room same(5) by simp
    have ps: "?ps = ring_points env m2 now ?live ?w 0 (mc_servers m)" by (simp add: client_ring_def same2(1))
    define counter where "counter = sum_list (map (points_of_host m2 ?live ?w) (filter (host_live m2 now) (mc_servers m)))"
    have fill: "fill_hosts env m2 now ?live ?w 0 (mc_servers m) c 0 0 = Done (True, ?ps @ drop (length ?ps) c, length ?ps, counter)"
      using fill_hosts_eq [OF _ _ ps, of 0 c 0] assms(1) len by (auto simp: client_wf_def m2k counter_def)
    have "length ?ps \<le> 1600000"
      using client_ring_size [OF assms(1), of env now] length_alive [OF assms(1), of now]
      by (auto simp: points_per_server_def split: if_splits)
    moreover have lps: "length ?ps = sum_list (map (\<lambda>ins. unat (points_of_host m2 ?live ?w ins)) (filter (host_live m2 now) (mc_servers m)))"
      unfolding ps by (rule length_ring_points)
    ultimately have counter: "unat counter = length ?ps" unfolding lps counter_def by (intro sum_list_unat) simp
    define k3 where "k3 = k2\<lparr>kt_points_counter := counter, kt_continuum := sort_key continuum_item_cmp ?ps @ drop (length ?ps) c\<rparr>"
    have "sort_continuum counter (?ps @ drop (length ?ps) c) m2 = Done (MEMCACHED_SUCCESS, m\<lparr>mc_ketama := k3\<rparr>)"
      using sort_continuum_eq [OF counter, of "drop (length ?ps) c" m2] by (simp add: m2k k3_def)
    moreover have "kt_continuum (mc_ketama m2) = c" "mc_servers m2 = mc_servers m" by (simp_all add: m2k k2_def)
    ultimately have "update_continuum env m = Done (MEMCACHED_SUCCESS, m\<lparr>mc_ketama := k3\<rparr>)"
      using assms(2) live Some m1 fill same(3) same2(4) by (simp add: update_continuum_def Let_def)
    then show ?thesis
      using len c k2 counter by (intro disjI2 exI [of _ k3]) (auto simp: k3_def holds_ring_def k2_def)
  qed
qed


subsection \<open>The indices on a ring\<close>

lemma host_points_index: "p \<in> set (host_points env m i points ins) \<Longrightarrow> ci_index p = i"
  by (auto simp: host_points_def text_points_def split: if_splits)

lemma ring_points_index:
  "p \<in> set (ring_points env m now live w i hosts) \<Longrightarrow>
     \<exists>j. i \<le> j \<and> j < i + length hosts \<and> ci_index p = word_of_nat j \<and> host_live m now (hosts ! (j - i))"
proof (induction hosts arbitrary: i)
  case (Cons ins hosts)
  consider "host_live m now ins" "p \<in> set (host_points env m (word_of_nat i) (points_of_host m live w ins) ins)"
    | "p \<in> set (ring_points env m now live w (Suc i) hosts)" using Cons.prems by (auto split: if_splits)
  then show ?case
  proof cases
    case 1
    then show ?thesis using host_points_index [OF 1(2)] by (intro exI [of _ i]) simp
  next
    case 2
    then obtain j where "Suc i \<le> j" "j < Suc i + length hosts" "ci_index p = word_of_nat j" "host_live m now (hosts ! (j - Suc i))"
      using Cons.IH by blast
    then show ?thesis by (intro exI [of _ j]) (auto simp: nth_Cons')
  qed
qed simp

lemma client_ring_index:
  "p \<in> set (client_ring env m now) \<Longrightarrow>
     \<exists>j<length (mc_servers m). ci_index p = word_of_nat j \<and> host_live m now (mc_servers m ! j)"
  unfolding client_ring_def by (drule ring_points_index) simp

lemma ring_points_append:
  "ring_points env m now live w i (hosts @ others) =
     ring_points env m now live w i hosts @ ring_points env m now live w (i + length hosts) others"
  by (induction hosts arbitrary: i) simp_all

text \<open>Without weights the points of a server do not depend on the other servers.\<close>

lemma plain_ring_points:
  "\<not> kt_weighted (mc_ketama m) \<Longrightarrow> ring_points env m now live w i hosts = ring_points env m now 0 0 i hosts"
  by (induction hosts arbitrary: i) (simp_all add: points_of_host_def)

end
