(* ===== verification/Key_Distribution.thy ===== *)
theory Key_Distribution
  imports Continuum
begin

text \<open>
  The distribution of keys to servers as a whole: the server of a key is the owner of its hash on the ring of the
  servers that are alive, adding a server moves keys to the new server only, and a server that fails takes no keys
  of others with it.
\<close>

subsection \<open>Dispatch\<close>

lemma dispatch_ring:
  assumes "memcached_is_consistent_distribution (mc_distribution m)" and "holds_ring (mc_ketama m) ps" and "ps \<noteq> []"
  shows "dispatch_host env m h = Done (ring_owner (set ps) h)"
proof -
  let ?s = "sort_key continuum_item_cmp ps"
  obtain rest where c: "kt_continuum (mc_ketama m) = ?s @ rest" using assms(2) by (auto simp: holds_ring_def)
  have num: "unat (kt_points_counter (mc_ketama m)) = length ?s" using assms(2) by (simp add: holds_ring_def)
  obtain k where k: "search_loop (?s @ rest) h 0 (length ?s) = Done k" "k \<le> length ?s"
    using search_loop_Done [of 0 "length ?s" "?s @ rest" h] by auto
  let ?r = "if k = length ?s then 0 else k"
  have r: "?r < length ?s" using k(2) assms(3) by (auto simp: length_greater_0_conv)
  have "?s \<noteq> []" using assms(3) by (metis length_0_conv length_sort)
  then have "ring_owner (set ?s) h = ci_index (?s ! ?r)" by (intro search_finds_owner [OF _ _ k(1)]) simp_all
  then show ?thesis using assms(1) c num k(1) r by (simp add: dispatch_host_def Let_def nth_append)
qed

text \<open>The hash of a key: fixed when there is one server.\<close>

lemma generate_hash_wrapper_Done: "kit_ok (mc_hashkit m) \<Longrightarrow> \<exists>h. generate_hash_wrapper env m key = Done h"
  using hashkit_digest_Done [of "mc_hashkit m" "env_build env"]
  by (auto simp: generate_hash_wrapper_def generate_hash_def Let_def)

lemma generate_hash_wrapper_cong:
  "mc_flags m' = mc_flags m \<Longrightarrow> mc_namespace m' = mc_namespace m \<Longrightarrow> mc_hashkit m' = mc_hashkit m \<Longrightarrow>
     memcached_server_count m' = 1 \<longleftrightarrow> memcached_server_count m = 1 \<Longrightarrow>
     generate_hash_wrapper env m' key = generate_hash_wrapper env m key"
  by (simp add: generate_hash_wrapper_def generate_hash_def namespace_bytes_def)

text \<open>A successful run of the distribution with a server alive builds the ring.\<close>

definition ordered :: "memcached_st \<Rightarrow> memcached_st" where
  "ordered m = (if fl_use_sort_hosts (mc_flags m) then sort_hosts m else m)"

lemma ordered_simps [simp]:
  "mc_flags (ordered m) = mc_flags m" "mc_distribution (ordered m) = mc_distribution m" "mc_hashkit (ordered m) = mc_hashkit m"
  "mc_ketama (ordered m) = mc_ketama m" "mc_namespace (ordered m) = mc_namespace m"
  "mc_virtual_bucket (ordered m) = mc_virtual_bucket m"
  "set (mc_servers (ordered m)) = set (mc_servers m)" "length (mc_servers (ordered m)) = length (mc_servers m)"
  by (simp_all add: ordered_def sort_hosts_def)

lemma ordered_servers_Nil [simp]: "mc_servers (ordered m) = [] \<longleftrightarrow> mc_servers m = []"
  by (metis length_0_conv ordered_simps(8))

lemma client_wf_ordered [simp]: "client_wf (ordered m) \<longleftrightarrow> client_wf m"
  by (simp add: client_wf_def)

lemma alive_ordered: "alive (ordered m) now = [] \<longleftrightarrow> alive m now = []"
  by (simp add: alive_def filter_empty_conv host_live_def)

lemma run_distribution_ordered:
  "run_distribution env m =
     (if memcached_is_consistent_distribution (mc_distribution m) then update_continuum env (ordered m)
      else Done (MEMCACHED_SUCCESS, ordered m))"
  by (simp add: run_distribution_def ordered_def sort_hosts_def Let_def)

lemma run_distribution_ring:
  assumes "client_wf m" and "memcached_is_consistent_distribution (mc_distribution m)" and "env_now env = Some now"
    and "alive m now \<noteq> []" and "run_distribution env m = Done (MEMCACHED_SUCCESS, m')"
  obtains k where "m' = (ordered m)\<lparr>mc_ketama := k\<rparr>" and "kt_weighted k = kt_weighted (mc_ketama m)"
    and "holds_ring k (client_ring env m' now)" and "client_ring env m' now \<noteq> []" and "client_wf m'"
proof -
  have wf: "client_wf (ordered m)" and al: "alive (ordered m) now \<noteq> []" using assms(1,4) by (simp_all add: alive_ordered)
  have "update_continuum env (ordered m) = Done (MEMCACHED_SUCCESS, m')"
    using assms(2,5) by (simp add: run_distribution_ordered)
  with update_continuum_cases [OF wf assms(3) al] obtain k where k: "m' = (ordered m)\<lparr>mc_ketama := k\<rparr>"
      "kt_weighted k = kt_weighted (mc_ketama m)" "length (kt_continuum k) = unat (kt_continuum_count k)"
      "holds_ring k (client_ring env (ordered m) now)" by auto
  moreover have "client_ring env m' now = client_ring env (ordered m) now" using k(1,2) ring_update(5) [of k "ordered m"] by simp
  moreover have "client_wf m'" using wf k by (simp add: client_wf_def)
  ultimately show ?thesis using that client_ring_nonempty [OF wf al] by metis
qed

text \<open>
  C3: After a successful run of the distribution with a server alive, the server of a key is the owner of the hash
  of the key on the ring of the servers: the server of the first point at or behind the hash, or of the first
  point at all, the smaller index winning a tie.  The ring has the points of every server that is alive, 100 each or
  as many as its weight gives.  The array the code fills, sorts and searches does not show.
\<close>

theorem generate_hash_is_ring_owner:
  assumes "client_wf m" and "memcached_is_consistent_distribution (mc_distribution m)" and "env_now env = Some now"
    and "alive m now \<noteq> []" and "run_distribution env m = Done (MEMCACHED_SUCCESS, m')"
  shows "\<exists>h. generate_hash_wrapper env m' key = Done h \<and>
    memcached_generate_hash env m' key = Done (ring_owner (set (client_ring env m' now)) h)"
proof -
  obtain k where k: "m' = (ordered m)\<lparr>mc_ketama := k\<rparr>" "holds_ring k (client_ring env m' now)"
      "client_ring env m' now \<noteq> []" "client_wf m'"
    by (rule run_distribution_ring [OF assms])
  have "dispatch_host env m' h = Done (ring_owner (set (client_ring env m' now)) h)" for h
    using assms(2) k by (intro dispatch_ring) auto
  then show ?thesis
    using generate_hash_wrapper_Done [of m' env key] k(4) by (auto simp: memcached_generate_hash_def client_wf_def)
qed



subsection \<open>Adding a server\<close>

lemma memcached_set_error_fatal: "memcached_fatal rc \<Longrightarrow> fst (memcached_set_error env rc m) \<noteq> MEMCACHED_SUCCESS"
  by (auto simp: memcached_set_error_def memc_set_def refine_error_def memcached_fatal_def Let_def split: if_splits)

lemma instance_create_with_Some:
  assumes "instance_create_with env name port weight type m = (Some ins, m')"
  shows "m' = m\<lparr>mc_server_version := mc_server_version m + 1\<rparr>" and "memcached_is_valid_servername name"
    and "ins_hostname ins = (if name = [] then lit ''localhost'' else name)" and "ins_port ins = port" and "ins_type ins = type"
    and "ins_weight ins = (if weight \<noteq> 0 then weight else 1)" and "ins_next_retry ins = 0"
  using assms by (auto simp: instance_create_with_def server_init_def Let_def split: if_splits)

lemma push_instance_cases:
  assumes "push_instance env name port weight type m = (True, m')"
  obtains ins v where "m' = m\<lparr>mc_server_version := v, mc_servers := mc_servers m @ [ins]\<rparr>"
    and "length (host_text ins) < MEMCACHED_NI_MAXHOST" and "1 \<le> ins_weight ins" and "ins_next_retry ins = 0"
    and "ins_weight ins = (if weight \<noteq> 0 then weight else 1)"
proof -
  obtain ins m1 where c: "instance_create_with env name port weight type m = (Some ins, m1)"
    and m': "m' = m1\<lparr>mc_servers := mc_servers m1 @ [ins]\<rparr>"
    using assms by (auto simp: push_instance_def split: prod.splits option.splits)
  note ins = instance_create_with_Some [OF c]
  have "unat weight \<noteq> 0" if "weight \<noteq> 0" using that by (simp add: unat_eq_zero)
  then have "1 \<le> ins_weight ins" unfolding ins(6) by (auto simp: word_le_nat_alt)
  moreover have "length (ins_hostname ins) < MEMCACHED_NI_MAXHOST"
    using ins(2,3) by (auto simp: memcached_is_valid_servername_def lit_def MEMCACHED_NI_MAXHOST_def)
  then have "length (host_text ins) < MEMCACHED_NI_MAXHOST"
    unfolding host_text_def by (rule le_less_trans [OF length_takeWhile_le])
  moreover have "m' = m\<lparr>mc_server_version := mc_server_version m + 1, mc_servers := mc_servers m @ [ins]\<rparr>"
    using m' ins(1) by simp
  ultimately show ?thesis using ins(6,7) that by blast
qed


lemma memcached_server_add_success:
  assumes "memcached_server_add env hostname port m = Done (MEMCACHED_SUCCESS, m')"
  obtains ins v where "run_distribution env (m\<lparr>mc_server_version := v, mc_servers := mc_servers m @ [ins]\<rparr>) = Done (MEMCACHED_SUCCESS, m')"
    and "length (host_text ins) < MEMCACHED_NI_MAXHOST" and "1 \<le> ins_weight ins" and "ins_next_retry ins = 0"
proof -
  obtain name p t where add: "server_add env name p 0 t m = Done (MEMCACHED_SUCCESS, m')"
    using assms memcached_set_error_fatal [of MEMCACHED_INVALID_ARGUMENTS env m]
    by (auto simp: memcached_server_add_def memcached_server_add_with_weight_def Let_def memcached_fatal_def split: if_splits)
  have mem: "memcached_set_error env MEMCACHED_MEMORY_ALLOCATION_FAILURE n \<noteq> (MEMCACHED_SUCCESS, m')" for n
    using memcached_set_error_fatal [of MEMCACHED_MEMORY_ALLOCATION_FAILURE env n] by (auto simp: memcached_fatal_def)
  have "\<exists>m1. push_instance env name p 0 t m = (True, m1) \<and> run_distribution env m1 = Done (MEMCACHED_SUCCESS, m')"
    using add mem by (auto simp: server_add_def Let_def split: if_splits prod.splits)
  then obtain m1 where m1: "push_instance env name p 0 t m = (True, m1)" "run_distribution env m1 = Done (MEMCACHED_SUCCESS, m')"
    by blast
  from m1(1) obtain ins v where "m1 = m\<lparr>mc_server_version := v, mc_servers := mc_servers m @ [ins]\<rparr>"
      "length (host_text ins) < MEMCACHED_NI_MAXHOST" "1 \<le> ins_weight ins" "ins_next_retry ins = 0"
    by (rule push_instance_cases)
  with m1(2) show ?thesis using that by blast
qed

text \<open>The ring with one more server at the end: its points are added.\<close>

lemma client_ring_snoc:
  assumes "\<not> kt_weighted (mc_ketama m)" and "mc_flags m' = mc_flags m" and "mc_distribution m' = mc_distribution m"
    and "mc_hashkit m' = mc_hashkit m" and "kt_weighted (mc_ketama m') = kt_weighted (mc_ketama m)"
    and "mc_servers m' = mc_servers m @ [ins]"
  shows "\<exists>Q. set (client_ring env m' now) = set (client_ring env m now) \<union> Q \<and> finite Q \<and>
    ci_index ` Q \<subseteq> {word_of_nat (length (mc_servers m))}"
proof -
  note cong = ring_cong(1) [OF assms(2-5)]
  let ?Q = "set (ring_points env m now 0 0 (length (mc_servers m)) [ins])"
  have "ci_index ` ?Q \<subseteq> {word_of_nat (length (mc_servers m))}" by (auto dest: host_points_index split: if_splits)
  moreover have "client_ring env m' now = ring_points env m now 0 0 0 (mc_servers m @ [ins])"
    unfolding client_ring_def cong assms(6) by (subst plain_ring_points [OF assms(1)]) (rule refl)
  moreover have "client_ring env m now = ring_points env m now 0 0 0 (mc_servers m)"
    unfolding client_ring_def by (subst plain_ring_points [OF assms(1)]) (rule refl)
  ultimately show ?thesis by (intro exI [of _ ?Q]) (simp add: ring_points_append del: ring_points.simps)
qed

text \<open>Points added for one more server take keys to that server only; with one server before, all keys were its own.\<close>

lemma keys_of_larger_ring:
  assumes "client_wf m1" "client_wf m2"
    and "memcached_is_consistent_distribution (mc_distribution m1)" "memcached_is_consistent_distribution (mc_distribution m2)"
    and "holds_ring (mc_ketama m1) (client_ring env m1 now)" "holds_ring (mc_ketama m2) (client_ring env m2 now)"
    and "client_ring env m1 now \<noteq> []"
    and "set (client_ring env m2 now) = set (client_ring env m1 now) \<union> Q" "finite Q" "ci_index ` Q \<subseteq> {new}"
    and "mc_flags m2 = mc_flags m1" "mc_namespace m2 = mc_namespace m1" "mc_hashkit m2 = mc_hashkit m1"
    and "memcached_server_count m2 = Suc (memcached_server_count m1)" "memcached_server_count m1 \<noteq> 0"
  shows "\<exists>i. memcached_generate_hash env m1 key = Done i \<and>
    (memcached_generate_hash env m2 key = Done i \<or> memcached_generate_hash env m2 key = Done new)"
proof -
  let ?P1 = "set (client_ring env m1 now)" and ?P2 = "set (client_ring env m2 now)"
  have "client_ring env m2 now \<noteq> []" using assms(7,8) by auto
  then have d: "dispatch_host env m1 h = Done (ring_owner ?P1 h)" "dispatch_host env m2 h = Done (ring_owner ?P2 h)" for h
    using dispatch_ring [OF assms(3,5,7)] dispatch_ring [OF assms(4,6)] by blast+
  have new: "ring_owner ?P2 h = ring_owner ?P1 h \<or> ring_owner ?P2 h = new" for h
    using ring_owner_union [of ?P1 Q h] assms(7-10) by auto
  obtain h1 h2 where h: "generate_hash_wrapper env m1 key = Done h1" "generate_hash_wrapper env m2 key = Done h2"
    using generate_hash_wrapper_Done assms(1,2) by (metis client_wf_def)
  have "ring_owner ?P1 h1 = ring_owner ?P1 h2"
  proof (cases "memcached_server_count m1 = 1")
    case True
    have "ring_owner ?P1 h = 0" for h
    proof -
      obtain p where "p \<in> ?P1" "ring_owner ?P1 h = ci_index p" using ring_owner_in [of ?P1 h] assms(7) by auto
      then show ?thesis
        using client_ring_index [of p env m1 now] True by (auto simp: memcached_server_count_def)
    qed
    then show ?thesis by simp
  next
    case False
    then have "generate_hash_wrapper env m2 key = generate_hash_wrapper env m1 key"
      using assms by (intro generate_hash_wrapper_cong) simp_all
    then show ?thesis using h by simp
  qed
  then show ?thesis using new [of h2] h d by (auto simp: memcached_generate_hash_def)
qed

text \<open>
  C1: Adding a server to a client with a consistent distribution, no weights, no automatic ejection and hosts that are
  not sorted moves keys to the new server only: every key keeps its server or goes to the new one.
\<close>

theorem server_add_moves_keys_to_new_server:
  assumes "client_wf m" and "mc_servers m \<noteq> []" and "memcached_server_count m < 10000"
    and "memcached_is_consistent_distribution (mc_distribution m)" and "\<not> kt_weighted (mc_ketama m)"
    and "\<not> fl_use_sort_hosts (mc_flags m)" and "\<not> fl_auto_eject_hosts (mc_flags m)" and "env_now env = Some now"
    and "run_distribution env m = Done (MEMCACHED_SUCCESS, m1)"
    and "memcached_server_add env hostname port m1 = Done (MEMCACHED_SUCCESS, m2)"
  shows "\<exists>i. memcached_generate_hash env m1 key = Done i \<and>
    (memcached_generate_hash env m2 key = Done i \<or>
     memcached_generate_hash env m2 key = Done (word_of_nat (memcached_server_count m1)))"
proof -
  have "alive m now \<noteq> []" using assms(2,7) by (simp add: alive_def host_live_def)
  then obtain k where m1: "m1 = (ordered m)\<lparr>mc_ketama := k\<rparr>" and k: "kt_weighted k = kt_weighted (mc_ketama m)"
    and r1: "holds_ring k (client_ring env m1 now)" "client_ring env m1 now \<noteq> []" and wf1: "client_wf m1"
    by (rule run_distribution_ring [OF assms(1,4,8) _ assms(9)])
  from assms(10) obtain ins v where
      run: "run_distribution env (m1\<lparr>mc_server_version := v, mc_servers := mc_servers m1 @ [ins]\<rparr>) = Done (MEMCACHED_SUCCESS, m2)"
    and ins: "length (host_text ins) < MEMCACHED_NI_MAXHOST" "1 \<le> ins_weight ins"
    by (rule memcached_server_add_success)
  define m1' where "m1' = m1\<lparr>mc_server_version := v, mc_servers := mc_servers m1 @ [ins]\<rparr>"
  have m1s: "mc_servers m1 = mc_servers m" "mc_distribution m1 = mc_distribution m" "mc_flags m1 = mc_flags m"
    using assms(6) by (simp_all add: m1 ordered_def)
  have wf1': "client_wf m1'" using wf1 ins assms(3) by (simp add: client_wf_def m1'_def memcached_server_count_def m1s)
  have cons1': "memcached_is_consistent_distribution (mc_distribution m1')" using assms(4) by (simp add: m1'_def m1s)
  have "alive m1' now \<noteq> []" using assms(7) by (simp add: alive_def host_live_def m1'_def m1s)
  then obtain k2 where m2: "m2 = (ordered m1')\<lparr>mc_ketama := k2\<rparr>" and k2: "kt_weighted k2 = kt_weighted (mc_ketama m1')"
    and r2: "holds_ring k2 (client_ring env m2 now)" "client_ring env m2 now \<noteq> []" and wf2: "client_wf m2"
    by (rule run_distribution_ring [OF wf1' cons1' assms(8) _ run [folded m1'_def]])
  have ord: "ordered m1' = m1'" using assms(6) by (simp add: ordered_def m1'_def m1s)
  obtain Q where Q: "set (client_ring env m2 now) = set (client_ring env m1 now) \<union> Q" "finite Q"
      "ci_index ` Q \<subseteq> {word_of_nat (memcached_server_count m1)}"
    using client_ring_snoc [of m1 m2 ins env now] assms(5) k k2 ord by (auto simp: m2 m1'_def m1 memcached_server_count_def)
  show ?thesis
  proof (rule keys_of_larger_ring [OF wf1 wf2 _ _ _ _ r1(2) Q])
    show "memcached_server_count m2 = Suc (memcached_server_count m1)" by (simp add: m2 ord m1'_def memcached_server_count_def)
    show "memcached_server_count m1 \<noteq> 0" using assms(2) by (simp add: memcached_server_count_def m1s)
    show "holds_ring (mc_ketama m1) (client_ring env m1 now)" using r1(1) by (simp add: m1)
    show "holds_ring (mc_ketama m2) (client_ring env m2 now)" using r2(1) by (simp add: m2)
  qed (use assms(4) cons1' in \<open>simp_all add: m2 ord m1'_def m1s\<close>)
qed



subsection \<open>Ejecting a server\<close>

lemma ring_points_without:
  assumes "d < length hosts" and "\<not> host_live m now ins"
  shows "\<exists>Q. set (ring_points env m now 0 0 0 hosts) = set (ring_points env m now 0 0 0 (hosts[d := ins])) \<union> Q \<and>
    finite Q \<and> ci_index ` Q \<subseteq> {word_of_nat d}"
proof -
  let ?Q = "set (ring_points env m now 0 0 d [hosts ! d])"
  have "hosts = take d hosts @ [hosts ! d] @ drop (Suc d) hosts" using assms(1) by (simp add: id_take_nth_drop)
  then have "ring_points env m now 0 0 0 hosts = ring_points env m now 0 0 0 (take d hosts @ [hosts ! d] @ drop (Suc d) hosts)" by simp
  then have full: "set (ring_points env m now 0 0 0 hosts) = set (ring_points env m now 0 0 0 (take d hosts)) \<union> ?Q \<union>
      set (ring_points env m now 0 0 (Suc d) (drop (Suc d) hosts))"
    using assms(1) by (simp add: ring_points_append min_def Un_assoc)
  have "hosts[d := ins] = take d hosts @ [ins] @ drop (Suc d) hosts" using assms(1) by (simp add: upd_conv_take_nth_drop)
  then have "set (ring_points env m now 0 0 0 (hosts[d := ins])) = set (ring_points env m now 0 0 0 (take d hosts)) \<union>
      set (ring_points env m now 0 0 (Suc d) (drop (Suc d) hosts))"
    using assms by (simp add: ring_points_append min_def)
  with full have "set (ring_points env m now 0 0 0 hosts) = set (ring_points env m now 0 0 0 (hosts[d := ins])) \<union> ?Q" by auto
  moreover have "ci_index ` ?Q \<subseteq> {word_of_nat d}" by (auto dest: host_points_index split: if_splits)
  ultimately show ?thesis by blast
qed

text \<open>A key of another server keeps its owner when the points of a server go, and such a key shows that there are others.\<close>

lemma keys_of_smaller_ring:
  assumes "memcached_is_consistent_distribution (mc_distribution m1)" and "holds_ring (mc_ketama m1) P1" and "P1 \<noteq> []"
    and "set P1 = set P2 \<union> Q" "finite Q" "ci_index ` Q \<subseteq> {d}"
    and "memcached_generate_hash env m1 key = Done i" and "i \<noteq> d"
  shows "P2 \<noteq> []"
    and "memcached_is_consistent_distribution (mc_distribution m2) \<Longrightarrow> holds_ring (mc_ketama m2) P2 \<Longrightarrow>
      generate_hash_wrapper env m2 key = generate_hash_wrapper env m1 key \<Longrightarrow> memcached_generate_hash env m2 key = Done i"
proof -
  obtain h where h: "generate_hash_wrapper env m1 key = Done h" "ring_owner (set P1) h = i"
    using assms(7) dispatch_ring [OF assms(1-3)] by (auto simp: memcached_generate_hash_def obind_Done_iff)
  show P2: "P2 \<noteq> []"
  proof
    assume "P2 = []"
    then obtain p where "p \<in> Q" "ring_owner (set P1) h = ci_index p" using ring_owner_in [of "set P1" h] assms(3,4) by auto
    then show False using h(2) assms(6,8) by auto
  qed
  have "ring_owner (set P2) h = i" using ring_owner_union [of "set P2" Q h] P2 assms(4-6,8) h(2) by auto
  then show "memcached_generate_hash env m2 key = Done i"
    if "memcached_is_consistent_distribution (mc_distribution m2)" "holds_ring (mc_ketama m2) P2"
      "generate_hash_wrapper env m2 key = generate_hash_wrapper env m1 key"
    using that h(1) dispatch_ring [OF that(1,2) P2] by (simp add: memcached_generate_hash_def)
qed

text \<open>
  C11: In a client with a consistent distribution, automatic ejection, no weights and hosts that are not sorted: when
  a server fails and the distribution runs again, every key of another server stays where it is; only the keys of the
  failed server move.
\<close>

theorem ejection_keeps_keys_of_others:
  assumes "client_wf m" and "memcached_is_consistent_distribution (mc_distribution m)" and "\<not> kt_weighted (mc_ketama m)"
    and "\<not> fl_use_sort_hosts (mc_flags m)" and "fl_auto_eject_hosts (mc_flags m)" and "env_now env = Some now"
    and "alive m now \<noteq> []" and "run_distribution env m = Done (MEMCACHED_SUCCESS, m1)"
    and "d < memcached_server_count m" and "now < t"
    and "run_distribution env (upd_instance d (memcached_instance_next_retry t) m1) = Done (MEMCACHED_SUCCESS, m2)"
    and "memcached_generate_hash env m1 key = Done i" and "i \<noteq> word_of_nat d"
  shows "memcached_generate_hash env m2 key = Done i"
proof -
  obtain k where m1: "m1 = (ordered m)\<lparr>mc_ketama := k\<rparr>" and k: "kt_weighted k = kt_weighted (mc_ketama m)"
    and r1: "holds_ring k (client_ring env m1 now)" "client_ring env m1 now \<noteq> []" and wf1: "client_wf m1"
    by (rule run_distribution_ring [OF assms(1,2,6,7,8)])
  have m1s: "mc_servers m1 = mc_servers m" "mc_distribution m1 = mc_distribution m" "mc_flags m1 = mc_flags m"
    using assms(4) by (simp_all add: m1 ordered_def)
  define dead where "dead = memcached_instance_next_retry t (mc_servers m1 ! d)"
  define m1' where "m1' = m1\<lparr>mc_servers := (mc_servers m1)[d := dead]\<rparr>"
  have m1': "upd_instance d (memcached_instance_next_retry t) m1 = m1'" by (simp add: m1'_def upd_instance_def dead_def)
  have d: "d < length (mc_servers m1)" using assms(9) by (simp add: memcached_server_count_def m1s)
  have "host_text dead = host_text (mc_servers m1 ! d)" "ins_weight dead = ins_weight (mc_servers m1 ! d)"
    by (simp_all add: dead_def memcached_instance_next_retry_def host_text_def)
  then have wf1': "client_wf m1'" using wf1 d by (auto simp: client_wf_def m1'_def dest!: set_update_subset_insert [THEN subsetD])
  have out: "\<not> host_live m1 now dead" using assms(5,10) by (simp add: host_live_def m1s dead_def memcached_instance_next_retry_def)
  have plain: "\<not> kt_weighted (mc_ketama m1)" using assms(3) k by (simp add: m1)
  have same: "ring_points env m1' now live w j hosts = ring_points env m1 now live w j hosts" "host_live m1' now = host_live m1 now" for live w j hosts
    by (rule ring_cong; simp add: m1'_def)+
  have rings: "client_ring env m1 now = ring_points env m1 now 0 0 0 (mc_servers m1)"
      "client_ring env m1' now = ring_points env m1 now 0 0 0 ((mc_servers m1)[d := dead])"
    unfolding client_ring_def same by (subst plain_ring_points [OF plain]; simp add: m1'_def)+
  obtain Q where Q: "set (client_ring env m1 now) = set (client_ring env m1' now) \<union> Q" "finite Q" "ci_index ` Q \<subseteq> {word_of_nat d}"
    using ring_points_without [OF d out, of env] unfolding rings by blast
  have c1: "memcached_is_consistent_distribution (mc_distribution m1)" "holds_ring (mc_ketama m1) (client_ring env m1 now)"
    using assms(2) r1(1) by (simp_all add: m1)
  have "client_ring env m1' now \<noteq> []" by (rule keys_of_smaller_ring(1) [OF c1 r1(2) Q assms(12,13)])
  then have "hd (client_ring env m1' now) \<in> set (client_ring env m1' now)" by simp
  from client_ring_index [OF this] have "alive m1' now \<noteq> []" by (auto simp: alive_def filter_empty_conv)
  then obtain k2 where m2: "m2 = (ordered m1')\<lparr>mc_ketama := k2\<rparr>" and k2: "kt_weighted k2 = kt_weighted (mc_ketama m1')"
    and r2: "holds_ring k2 (client_ring env m2 now)"
    using run_distribution_ring [OF wf1' _ assms(6) _ assms(11) [unfolded m1']] assms(2) by (auto simp: m1'_def m1)
  have ord: "ordered m1' = m1'" using assms(4) by (simp add: ordered_def m1'_def m1s)
  have ring2: "client_ring env m2 now = client_ring env m1' now" using ring_update(5) [OF k2] by (simp add: m2 ord)
  show ?thesis
  proof (rule keys_of_smaller_ring(2) [OF c1 r1(2) Q assms(12,13)])
    show "memcached_is_consistent_distribution (mc_distribution m2)" using c1(1) by (simp add: m2 ord m1'_def)
    show "holds_ring (mc_ketama m2) (client_ring env m1' now)" using r2 unfolding ring2 by (simp add: m2)
    show "generate_hash_wrapper env m2 key = generate_hash_wrapper env m1 key"
      by (rule generate_hash_wrapper_cong) (simp_all add: m2 ord m1'_def memcached_server_count_def)
  qed
qed

end
