(* ===== verification/Server_Selection.thy ===== *)
theory Server_Selection
  imports Key_Distribution
begin

text \<open>
  The contract of selecting a server for a key, what breaks it, and concrete clients on which the theorems about the
  distribution apply.
\<close>

subsection \<open>Selecting a server\<close>

text \<open>
  The contract between the selection of a server and its users: every hash has a server, and it is one of the
  array.
\<close>

locale server_selection =
  fixes select :: "memcached_st \<Rightarrow> u32 \<Rightarrow> u32 outcome" and ok :: "memcached_st \<Rightarrow> bool"
  assumes select_server: "ok m \<Longrightarrow> \<exists>i. select m h = Done i \<and> unat i < memcached_server_count m"
begin

lemma key_server:
  assumes "ok m" and "kit_ok (mc_hashkit m)"
  shows "\<exists>i. obind (generate_hash_wrapper env m key) (select m) = Done i \<and> unat i < memcached_server_count m"
proof -
  obtain h where "generate_hash_wrapper env m key = Done h" using generate_hash_wrapper_Done [OF assms(2)] by blast
  with select_server [OF assms(1), of h] show ?thesis by simp
qed

lemma key_instance:
  assumes "ok m" and "kit_ok (mc_hashkit m)"
  shows "\<exists>ins. obind (obind (generate_hash_wrapper env m key) (select m)) (\<lambda>i. memcached_instance_fetch i m) = Done ins \<and>
    ins \<in> set (mc_servers m)"
  using key_server [OF assms, of env key] by (auto simp: memcached_instance_fetch_def memcached_server_count_def)

end

definition distributed :: "memcached_st \<Rightarrow> bool" where
  "distributed m \<longleftrightarrow> mc_servers m \<noteq> [] \<and> length (mc_servers m) \<le> 10000 \<and>
     (memcached_is_consistent_distribution (mc_distribution m) \<longrightarrow>
       (\<exists>ps. ps \<noteq> [] \<and> holds_ring (mc_ketama m) ps \<and> (\<forall>p\<in>set ps. unat (ci_index p) < length (mc_servers m)))) \<and>
     (mc_distribution m = MEMCACHED_DISTRIBUTION_VIRTUAL_BUCKET \<longrightarrow> mc_virtual_bucket m = None)"

lemma unat_server_count: "length (mc_servers m) \<le> 10000 \<Longrightarrow> unat (word_of_nat (memcached_server_count m) :: u32) = memcached_server_count m"
  by (simp add: memcached_server_count_def unsigned_of_nat take_bit_nat_eq_self)

lemma modulo_servers_range:
  assumes "distributed m"
  shows "\<exists>i. modulo_servers m x = Done i \<and> unat i < memcached_server_count m"
proof -
  have "unat (x mod word_of_nat (memcached_server_count m)) < memcached_server_count m"
    using assms unat_server_count [of m] by (simp add: unat_mod distributed_def memcached_server_count_def)
  then show ?thesis using assms by (simp add: modulo_servers_def distributed_def memcached_server_count_def)
qed

lemma mask_servers_range:
  assumes "distributed m"
  shows "unat (x AND (word_of_nat (memcached_server_count m) - 1) :: u32) < memcached_server_count m"
proof -
  let ?n = "word_of_nat (memcached_server_count m) :: u32"
  have n: "unat ?n = memcached_server_count m" "memcached_server_count m \<noteq> 0"
    using assms unat_server_count [of m] by (auto simp: distributed_def memcached_server_count_def)
  then have "unat (?n - 1) = memcached_server_count m - 1" by (subst unat_minus_one) auto
  moreover have "x AND (?n - 1) \<le> ?n - 1" by (simp add: word_and_le1)
  ultimately show ?thesis using n(2) by (simp add: word_le_nat_alt)
qed

interpretation dispatch: server_selection "dispatch_host env" distributed for env
proof
  fix m h assume d: "distributed m"
  show "\<exists>i. dispatch_host env m h = Done i \<and> unat i < memcached_server_count m"
  proof (cases "memcached_is_consistent_distribution (mc_distribution m)")
    case True
    with d obtain ps where ps: "ps \<noteq> []" "holds_ring (mc_ketama m) ps" "\<forall>p\<in>set ps. unat (ci_index p) < length (mc_servers m)"
      by (auto simp: distributed_def)
    then show ?thesis
      using dispatch_ring [OF True ps(2,1)] ring_owner_in [of "set ps" h] by (auto simp: memcached_server_count_def)
  next
    case False
    then show ?thesis
      using d modulo_servers_range [OF d] mask_servers_range [OF d]
      by (auto simp: dispatch_host_def memcached_virtual_bucket_get_def distributed_def)
  qed
qed


lemma client_ring_range:
  assumes "client_wf m" and "p \<in> set (client_ring env m now)"
  shows "unat (ci_index p) < length (mc_servers m)"
proof -
  obtain j where "j < length (mc_servers m)" "ci_index p = word_of_nat j" using client_ring_index [OF assms(2)] by blast
  then show ?thesis using assms(1) by (simp add: client_wf_def unsigned_of_nat take_bit_nat_eq_self)
qed

lemma run_distribution_distributed:
  assumes "client_wf m" and "mc_servers m \<noteq> []" and "run_distribution env m = Done (MEMCACHED_SUCCESS, m')"
    and "memcached_is_consistent_distribution (mc_distribution m) \<Longrightarrow> \<exists>now. env_now env = Some now \<and> alive m now \<noteq> []"
    and "mc_distribution m = MEMCACHED_DISTRIBUTION_VIRTUAL_BUCKET \<Longrightarrow> mc_virtual_bucket m = None"
  shows "distributed m'" and "kit_ok (mc_hashkit m')"
proof -
  have "distributed m' \<and> kit_ok (mc_hashkit m')"
  proof (cases "memcached_is_consistent_distribution (mc_distribution m)")
    case True
    then obtain now where now: "env_now env = Some now" "alive m now \<noteq> []" using assms(4) by blast
    obtain k where k: "m' = (ordered m)\<lparr>mc_ketama := k\<rparr>" "holds_ring k (client_ring env m' now)"
        "client_ring env m' now \<noteq> []" "client_wf m'"
      by (rule run_distribution_ring [OF assms(1) True now assms(3)])
    have "mc_servers m' \<noteq> []" using assms(2) by (simp add: k(1))
    moreover have "mc_distribution m' \<noteq> MEMCACHED_DISTRIBUTION_VIRTUAL_BUCKET" using True by (auto simp: k(1))
    moreover have "\<forall>p\<in>set (client_ring env m' now). unat (ci_index p) < length (mc_servers m')"
      using client_ring_range [OF k(4)] by blast
    moreover have "holds_ring (mc_ketama m') (client_ring env m' now)" using k(1,2) by simp
    ultimately show ?thesis using k(3,4) by (auto simp: distributed_def client_wf_def)
  next
    case False
    then have "m' = ordered m" using assms(3) by (simp add: run_distribution_ordered)
    with False assms(1,2,5) show ?thesis by (auto simp: distributed_def client_wf_def)
  qed
  then show "distributed m'" "kit_ok (mc_hashkit m')" by simp_all
qed

lemma distributed_key_server:
  assumes "distributed m" and "kit_ok (mc_hashkit m)"
  shows "\<exists>i. memcached_generate_hash env m key = Done i \<and> unat i < memcached_server_count m"
  using dispatch.key_server [OF assms, of env key] by (simp add: memcached_generate_hash_def)

text \<open>
  C10: After a successful run of the distribution every key has a server, and the index is inside the array of
  servers, for every distribution: nothing is read outside the continuum, and there is no division by zero.  A
  consistent distribution needs a server that is alive, virtual buckets must not be set, since their servers are
  the caller's.
\<close>

theorem generate_hash_in_range:
  assumes "client_wf m" and "mc_servers m \<noteq> []" and "run_distribution env m = Done (MEMCACHED_SUCCESS, m')"
    and "memcached_is_consistent_distribution (mc_distribution m) \<Longrightarrow> \<exists>now. env_now env = Some now \<and> alive m now \<noteq> []"
    and "mc_distribution m = MEMCACHED_DISTRIBUTION_VIRTUAL_BUCKET \<Longrightarrow> mc_virtual_bucket m = None"
  shows "\<exists>i. memcached_generate_hash env m' key = Done i \<and> unat i < memcached_server_count m'"
  by (rule distributed_key_server [OF run_distribution_distributed [OF assms]])


subsection \<open>What breaks the selection\<close>

text \<open>
  C38: Switching to a consistent distribution while every server is ejected reports success and builds no continuum;
  the next key is then looked up in a null array.
\<close>

theorem ejected_servers_fault:
  assumes "mc_servers m \<noteq> []" and "kt_points_counter (mc_ketama m) = 0" and "kt_continuum (mc_ketama m) = []"
    and "fl_auto_eject_hosts (mc_flags m)" and "env_now env = Some now" and "\<forall>ins\<in>set (mc_servers m). now < ins_next_retry ins"
  shows "\<exists>m'. memcached_behavior_set_distribution env MEMCACHED_DISTRIBUTION_CONSISTENT m = Done (MEMCACHED_SUCCESS, m') \<and>
    mc_servers m' \<noteq> [] \<and> (\<forall>key. memcached_generate_hash env m' key = Fault)"
proof -
  let ?m = "ordered (set_weighted_ketama False m\<lparr>mc_distribution := MEMCACHED_DISTRIBUTION_CONSISTENT\<rparr>)"
  let ?m' = "?m\<lparr>mc_ketama := (mc_ketama ?m)\<lparr>kt_next_rebuild := next_rebuild now (mc_servers ?m)\<rparr>\<rparr>"
  have srv: "set (mc_servers ?m) = set (mc_servers m)" "mc_flags ?m = mc_flags m" by (simp_all add: set_weighted_ketama_def)
  have "live_servers ?m' now = 0"
    using assms(4,6) srv by (simp add: live_servers_def host_live_def filter_False not_le)
  then have run: "update_continuum env ?m = Done (MEMCACHED_SUCCESS, ?m')"
    using assms(4,5) srv by (simp add: update_continuum_def Let_def)
  then have "memcached_behavior_set_distribution env MEMCACHED_DISTRIBUTION_CONSISTENT m = Done (MEMCACHED_SUCCESS, ?m')"
    by (simp add: memcached_behavior_set_distribution_def Let_def run_distribution_ordered)
  moreover have "memcached_generate_hash env ?m' key = Fault" for key
  proof -
    have "dispatch_host env ?m' h = Fault" for h
      using assms(2,3) by (simp add: dispatch_host_def set_weighted_ketama_def search_loop_end)
    then show ?thesis by (cases "generate_hash_wrapper env ?m' key") (simp_all add: memcached_generate_hash_def)
  qed
  moreover have "mc_servers ?m' \<noteq> []" using assms(1) by (simp add: set_weighted_ketama_def)
  ultimately show ?thesis by blast
qed


text \<open>Running the distribution keeps whether points are weighted.\<close>

lemma memc_set_keeps:
  "memc_set env rc e m = (rc', m') \<Longrightarrow> mc_ketama m' = mc_ketama m \<and> mc_distribution m' = mc_distribution m"
  by (auto simp: memc_set_def memcached_error_free_def case_prod_unfold Let_def split: if_splits)

lemma memcached_set_error_keeps:
  "memcached_set_error env rc m = (rc', m') \<Longrightarrow> mc_ketama m' = mc_ketama m \<and> mc_distribution m' = mc_distribution m"
  "memcached_set_errno env e m = (rc', m') \<Longrightarrow> mc_ketama m' = mc_ketama m \<and> mc_distribution m' = mc_distribution m"
  by (auto simp: memcached_set_error_def memcached_set_errno_def dest: memc_set_keeps split: if_splits)

lemma update_continuum_keeps:
  assumes "update_continuum env m = Done (rc, m')"
  shows "kt_weighted (mc_ketama m') = kt_weighted (mc_ketama m) \<and> mc_distribution m' = mc_distribution m"
proof -
  have grow: "kt_weighted (mc_ketama m2) = kt_weighted (mc_ketama m1) \<and> mc_distribution m2 = mc_distribution m1"
    if "grow_continuum env live m1 = Some m2" for live m1 m2
    using that by (auto simp: grow_continuum_def Let_def split: if_splits)
  show ?thesis
    using assms
    by (auto simp: update_continuum_def Let_def obind_Done_iff sort_continuum_def dest!: grow memcached_set_error_keeps
        split: option.splits if_splits prod.splits)
qed

lemma run_distribution_keeps:
  "run_distribution env m = Done (rc, m') \<Longrightarrow>
     kt_weighted (mc_ketama m') = kt_weighted (mc_ketama m) \<and> mc_distribution m' = mc_distribution m"
  using update_continuum_keeps [of env "ordered m" rc m'] by (auto simp: run_distribution_ordered split: if_splits)

lemma push_instance_keeps:
  "push_instance env name port weight type m = (ok, m') \<Longrightarrow> mc_ketama m' = mc_ketama m \<and> mc_distribution m' = mc_distribution m"
  using memcached_set_error_keeps(1) [of env MEMCACHED_INVALID_ARGUMENTS m]
  by (cases "memcached_set_error env MEMCACHED_INVALID_ARGUMENTS m")
    (auto simp: push_instance_def instance_create_with_def server_init_def Let_def split: if_splits)

lemma push_servers_keeps:
  "push_servers env ss m = (ok, m') \<Longrightarrow> \<forall>s\<in>set ss. srv_weight s \<le> 1 \<Longrightarrow>
     kt_weighted (mc_ketama m') = kt_weighted (mc_ketama m) \<and> mc_distribution m' = mc_distribution m"
proof (induction ss arbitrary: m)
  case (Cons s ss)
  obtain ok1 m1 where m1: "push_instance env (srv_hostname s) (srv_port s) (srv_weight s) (srv_type s) m = (ok1, m1)"
    by (cases "push_instance env (srv_hostname s) (srv_port s) (srv_weight s) (srv_type s) m")
  note keep = push_instance_keeps [OF m1]
  have "\<not> 1 < srv_weight s" using Cons.prems(2) by (simp add: not_less)
  with m1 Cons.prems(1) have "if ok1 then push_servers env ss m1 = (ok, m')
      else m' = m1\<lparr>mc_servers := mc_servers m1 @ replicate (length ss) (env_slot env)\<rparr>"
    by (auto simp: Let_def)
  then show ?case using keep Cons.IH [of m1] Cons.prems(2) by (auto split: if_splits)
qed simp

text \<open>
  A clone of a client keeps the distribution but not the weighting: when every server has weight 1 its points are
  placed by the rule without weights.
\<close>

lemma memcached_clone_unweighted:
  assumes "\<forall>ins\<in>set (mc_servers m). ins_weight ins \<le> 1" and "memcached_clone env m = Done (Some c)"
  shows "mc_distribution c = mc_distribution m \<and> \<not> kt_weighted (mc_ketama c)"
proof -
  let ?start = "clone_settings m memcached_create"
  obtain kit rc m1 rc' m2 where push: "memcached_push env m (?start\<lparr>mc_hashkit := kit\<rparr>) = Done (rc, m1)"
    and run: "run_distribution env m2 = Done (rc', c)" and m2: "mc_ketama m2 = mc_ketama m1" "mc_distribution m2 = mc_distribution m1"
    using assms(2) by (auto simp: memcached_clone_def Let_def obind_Done_iff split: if_splits option.splits prod.splits)
  have "kt_weighted (mc_ketama m1) = kt_weighted (mc_ketama ?start) \<and> mc_distribution m1 = mc_distribution ?start"
  proof -
    have "\<forall>s\<in>set (map server_of_instance (mc_servers m)). srv_weight s \<le> 1" using assms(1) by (auto simp: server_of_instance_def)
    with push show ?thesis
      by (auto simp: memcached_push_def memcached_instance_push_def memcached_server_push_def obind_Done_iff
          dest!: run_distribution_keeps push_servers_keeps memcached_set_error_keeps split: if_splits option.splits prod.splits)
  qed
  with run_distribution_keeps [OF run] m2 show ?thesis
    by (simp add: clone_settings_def memcached_create_def no_continuum_def)
qed



text \<open>The getter of the distribution hash returns the key hash.\<close>

lemma distribution_hash_not_read_back:
  "\<exists>m'. memcached_behavior_set_distribution_hash env HASHKIT_HASH_MD5 m = (MEMCACHED_SUCCESS, m') \<and>
     hashkit_get_distribution_function (Some (mc_hashkit m')) = HASHKIT_HASH_MD5 \<and>
     memcached_behavior_get_distribution_hash m' = memcached_behavior_get_key_hash m"
  by (simp add: memcached_behavior_set_distribution_hash_def hashkit_set_distribution_function_def hashkit_success_def
      memcached_behavior_get_distribution_hash_def memcached_behavior_get_key_hash_def hashkit_get_function_def
      hashkit_get_distribution_function_def get_function_type_def)

text \<open>Virtual buckets without a map take the hash modulo a power of two: with three servers the second gets no key.\<close>

lemma virtual_bucket_skips_server:
  assumes "mc_virtual_bucket m = None" and "memcached_server_count m = 3"
  shows "memcached_virtual_bucket_get m digest \<noteq> Done 1"
proof
  assume "memcached_virtual_bucket_get m digest = Done 1"
  then have "digest AND 2 = 1" using assms by (simp add: memcached_virtual_bucket_get_def)
  then have "bit (digest AND 2) 0" by simp
  then show False by (simp add: bit_simps)
qed


subsection \<open>Clients on which the theorems apply\<close>

text \<open>With enough memory the distribution runs, and a server can be added.\<close>

lemma run_distribution_succeeds:
  assumes "client_wf m" and "env_now env = Some now" and "alive m now \<noteq> []" and "\<forall>n. env_alloc env n"
  shows "\<exists>m'. run_distribution env m = Done (MEMCACHED_SUCCESS, m')"
  using update_continuum_cases [of "ordered m" env now] assms by (auto simp: run_distribution_ordered alive_ordered)

lemma memcached_server_add_succeeds:
  assumes "client_wf m" and "memcached_server_count m < 10000" and "env_now env = Some now" and "\<not> fl_auto_eject_hosts (mc_flags m)"
    and "\<forall>n. env_alloc env n" and "name \<noteq> []" and "memcached_is_valid_servername name"
  shows "\<exists>m'. memcached_server_add env (Some name) port m = Done (MEMCACHED_SUCCESS, m')"
proof -
  let ?p = "if port = 0 then MEMCACHED_DEFAULT_PORT else port"
  let ?t = "if hd name = 47 then MEMCACHED_CONNECTION_UNIX_SOCKET else MEMCACHED_CONNECTION_TCP"
  obtain m1 where m1: "push_instance env name ?p 0 ?t m = (True, m1)"
    using assms(7) by (simp add: push_instance_def instance_create_with_def server_init_def Let_def)
  then obtain ins v where "m1 = m\<lparr>mc_server_version := v, mc_servers := mc_servers m @ [ins]\<rparr>"
      "length (host_text ins) < MEMCACHED_NI_MAXHOST" "1 \<le> ins_weight ins"
    by (rule push_instance_cases)
  then have "client_wf m1" "alive m1 now \<noteq> []"
    using assms(1,2,4) by (auto simp: client_wf_def memcached_server_count_def alive_def host_live_def)
  then have "\<exists>m'. run_distribution env m1 = Done (MEMCACHED_SUCCESS, m')"
    using run_distribution_succeeds assms(3,5) by blast
  with m1 assms show ?thesis
    by (simp add: memcached_server_add_def memcached_server_add_with_weight_def server_add_def Let_def)
qed

definition sample_env :: env where
  "sample_env = \<lparr>env_build = plain_build\<lparr>custom := (\<lambda>i bs _. if i = 1 \<and> hd bs = 97 then 1 else 0)\<rparr>, env_now = Some 100, env_errno = 0, env_random = 7, env_alloc = (\<lambda>_. True), env_heap = small_heap,
     env_slot = fst (server_init memcached_create [] 0 0 MEMCACHED_CONNECTION_TCP)\<rparr>"

definition sample_server :: "string \<Rightarrow> memcached_instance_st" where
  "sample_server name = fst (server_init memcached_create (lit name) MEMCACHED_DEFAULT_PORT 0 MEMCACHED_CONNECTION_TCP)"

definition sample_client :: "bool \<Rightarrow> memcached_st" where
  "sample_client eject = memcached_create\<lparr>mc_servers := [sample_server ''a'', sample_server ''b''],
     mc_distribution := MEMCACHED_DISTRIBUTION_CONSISTENT, mc_flags := default_flags\<lparr>fl_auto_eject_hosts := eject\<rparr>\<rparr>"

definition sample_key :: ckey where
  "sample_key = stack_key (lit ''key'')"

lemmas sample_defs = sample_env_def sample_server_def sample_client_def memcached_create_def server_init_def Let_def

lemma sample_env_simps [simp]: "env_now sample_env = Some 100" "env_alloc sample_env n"
  by (simp_all add: sample_env_def)

lemma sample_client_wf: "client_wf (sample_client eject)"
  by (simp add: client_wf_def sample_defs kit_ok_def hashkit_init_def host_text_def lit_def MEMCACHED_NI_MAXHOST_def no_continuum_def)

lemma sample_client_simps [simp]:
  "mc_distribution (sample_client e) = MEMCACHED_DISTRIBUTION_CONSISTENT" "\<not> kt_weighted (mc_ketama (sample_client e))"
  "\<not> fl_use_sort_hosts (mc_flags (sample_client e))" "fl_auto_eject_hosts (mc_flags (sample_client e)) = e"
  "memcached_server_count (sample_client e) = 2" "mc_servers (sample_client e) \<noteq> []"
  by (simp_all add: sample_defs no_continuum_def default_flags_def memcached_server_count_def)

lemma sample_client_alive: "alive (sample_client e) 100 \<noteq> []"
  by (simp add: alive_def host_live_def sample_defs)

lemma sample_client_runs: "\<exists>m'. run_distribution sample_env (sample_client e) = Done (MEMCACHED_SUCCESS, m')"
  by (rule run_distribution_succeeds [OF sample_client_wf _ sample_client_alive]) simp_all

theorem generate_hash_is_ring_owner_witness:
  "\<exists>m' h. run_distribution sample_env (sample_client False) = Done (MEMCACHED_SUCCESS, m') \<and>
     generate_hash_wrapper sample_env m' sample_key = Done h \<and>
     memcached_generate_hash sample_env m' sample_key = Done (ring_owner (set (client_ring sample_env m' 100)) h)"
proof -
  obtain m' where run: "run_distribution sample_env (sample_client False) = Done (MEMCACHED_SUCCESS, m')"
    using sample_client_runs by blast
  from generate_hash_is_ring_owner [OF sample_client_wf _ _ sample_client_alive run, of sample_key] run show ?thesis by auto
qed

theorem generate_hash_in_range_witness:
  "\<exists>m' i. run_distribution sample_env (sample_client False) = Done (MEMCACHED_SUCCESS, m') \<and>
     memcached_generate_hash sample_env m' sample_key = Done i \<and> unat i < memcached_server_count m'"
proof -
  obtain m' where run: "run_distribution sample_env (sample_client False) = Done (MEMCACHED_SUCCESS, m')"
    using sample_client_runs by blast
  from generate_hash_in_range [OF sample_client_wf _ run, of sample_key] sample_client_alive run show ?thesis by auto
qed

theorem server_add_moves_keys_to_new_server_witness:
  "\<exists>m1 m2 i. run_distribution sample_env (sample_client False) = Done (MEMCACHED_SUCCESS, m1) \<and>
     memcached_server_add sample_env (Some (lit ''c'')) 0 m1 = Done (MEMCACHED_SUCCESS, m2) \<and>
     memcached_generate_hash sample_env m1 sample_key = Done i \<and>
     (memcached_generate_hash sample_env m2 sample_key = Done i \<or>
      memcached_generate_hash sample_env m2 sample_key = Done (word_of_nat (memcached_server_count m1)))"
proof -
  obtain m1 where run: "run_distribution sample_env (sample_client False) = Done (MEMCACHED_SUCCESS, m1)"
    using sample_client_runs by blast
  obtain k where m1: "m1 = (ordered (sample_client False))\<lparr>mc_ketama := k\<rparr>" and "client_wf m1"
    by (rule run_distribution_ring [OF sample_client_wf _ _ sample_client_alive run]) simp_all
  then obtain m2 where add: "memcached_server_add sample_env (Some (lit ''c'')) 0 m1 = Done (MEMCACHED_SUCCESS, m2)"
    using memcached_server_add_succeeds [of m1 sample_env 100 "lit ''c''" 0]
    by (auto simp: memcached_server_count_def memcached_is_valid_servername_def MEMCACHED_NI_MAXHOST_def lit_def
        ordered_def sample_defs default_flags_def)
  from server_add_moves_keys_to_new_server [OF sample_client_wf _ _ _ _ _ _ _ run add, of 100 sample_key] run add
  show ?thesis by auto
qed

theorem ejection_keeps_keys_of_others_witness:
  "\<exists>d m1 m2 i. run_distribution sample_env (sample_client True) = Done (MEMCACHED_SUCCESS, m1) \<and>
     run_distribution sample_env (upd_instance d (memcached_instance_next_retry 200) m1) = Done (MEMCACHED_SUCCESS, m2) \<and>
     i \<noteq> word_of_nat d \<and> memcached_generate_hash sample_env m1 sample_key = Done i \<and>
     memcached_generate_hash sample_env m2 sample_key = Done i"
proof -
  obtain m1 where run: "run_distribution sample_env (sample_client True) = Done (MEMCACHED_SUCCESS, m1)"
    using sample_client_runs by blast
  obtain k where m1: "m1 = (ordered (sample_client True))\<lparr>mc_ketama := k\<rparr>" and wf: "client_wf m1"
    by (rule run_distribution_ring [OF sample_client_wf _ _ sample_client_alive run]) simp_all
  have servers: "mc_servers m1 = [sample_server ''a'', sample_server ''b'']" "mc_flags m1 = mc_flags (sample_client True)"
    by (simp_all add: m1 ordered_def sample_client_def default_flags_def)
  obtain i where i: "memcached_generate_hash sample_env m1 sample_key = Done i" "unat i < 2"
    using distributed_key_server [OF run_distribution_distributed [OF sample_client_wf _ run], of sample_env sample_key]
      sample_client_alive
    by (auto simp: memcached_server_count_def servers)
  define d :: nat where "d = (if i = 0 then 1 else 0)"
  let ?m = "upd_instance d (memcached_instance_next_retry 200) m1"
  have "\<exists>m2. run_distribution sample_env ?m = Done (MEMCACHED_SUCCESS, m2)"
  proof (rule run_distribution_succeeds)
    show "client_wf ?m"
      using wf by (auto simp: client_wf_def upd_instance_def d_def servers memcached_instance_next_retry_def host_text_def split: if_splits)
    show "alive ?m 100 \<noteq> []"
      by (auto simp: alive_def upd_instance_def d_def servers host_live_def sample_defs memcached_instance_next_retry_def)
  qed simp_all
  then obtain m2 where m2: "run_distribution sample_env ?m = Done (MEMCACHED_SUCCESS, m2)" by blast
  have "i \<noteq> word_of_nat d" by (simp add: d_def)
  then have "memcached_generate_hash sample_env m2 sample_key = Done i"
    using ejection_keeps_keys_of_others [OF sample_client_wf _ _ _ _ _ sample_client_alive run _ _ m2 i(1)]
    by (simp add: d_def)
  with run m2 i \<open>i \<noteq> word_of_nat d\<close> show ?thesis by blast
qed

theorem ejected_servers_fault_witness:
  "\<exists>m'. memcached_behavior_set_distribution sample_env MEMCACHED_DISTRIBUTION_CONSISTENT
       (sample_client True\<lparr>mc_servers := [sample_server ''a''\<lparr>ins_next_retry := 200\<rparr>]\<rparr>) = Done (MEMCACHED_SUCCESS, m') \<and>
     memcached_generate_hash sample_env m' sample_key = Fault"
  using ejected_servers_fault [of "sample_client True\<lparr>mc_servers := [sample_server ''a''\<lparr>ins_next_retry := 200\<rparr>]\<rparr>" sample_env 100]
  by (auto simp: sample_defs no_continuum_def default_flags_def)

theorem weighted_points_fit_witness:
  "(let m = sample_client False\<lparr>mc_ketama := no_continuum\<lparr>kt_weighted := True\<rparr>\<rparr>
    in sum_list (map (\<lambda>ins. unat (ketama_points (ins_weight ins) (total_weight m 100) (live_servers m 100))) (alive m 100)) \<le> 320)"
proof -
  let ?m = "sample_client False\<lparr>mc_ketama := no_continuum\<lparr>kt_weighted := True\<rparr>\<rparr>"
  have "client_wf ?m" using sample_client_wf [of False] by (simp add: client_wf_def no_continuum_def)
  moreover have "length (alive ?m 100) = 2" by (simp add: alive_def host_live_def sample_defs)
  ultimately show ?thesis using weighted_points_fit [of ?m 100] by (simp add: Let_def)
qed

definition sample_servers :: "memcached_st \<Rightarrow> bool" where
  "sample_servers m \<longleftrightarrow> map host_text (mc_servers m) = [lit ''a'', lit ''b''] \<and>
     map ins_port (mc_servers m) = [MEMCACHED_DEFAULT_PORT, MEMCACHED_DEFAULT_PORT] \<and> map ins_weight (mc_servers m) = [1, 1]"

lemma sample_push:
  assumes "mc_servers m = []" and "kit_ok (mc_hashkit m)" and "length (kt_continuum (mc_ketama m)) = unat (kt_continuum_count (mc_ketama m))"
    and "memcached_is_consistent_distribution (mc_distribution m)" and "mc_flags m = mc_flags (sample_client False)"
  obtains k v ss where "memcached_push sample_env (sample_client False) m =
      Done (MEMCACHED_SUCCESS, m\<lparr>mc_server_version := v, mc_servers := ss, mc_ketama := k\<rparr>)"
    and "client_wf (m\<lparr>mc_server_version := v, mc_servers := ss, mc_ketama := k\<rparr>)"
    and "sample_servers (m\<lparr>mc_server_version := v, mc_servers := ss, mc_ketama := k\<rparr>)"
proof -
  have "case push_servers sample_env (map server_of_instance (mc_servers (sample_client False))) m of (ok, p) \<Rightarrow>
      ok \<and> p = m\<lparr>mc_server_version := mc_server_version p, mc_servers := mc_servers p\<rparr> \<and> client_wf p \<and> sample_servers p"
    using assms by (simp add: server_of_instance_def push_instance_def instance_create_with_def memcached_is_valid_servername_def
        host_text_def lit_def MEMCACHED_NI_MAXHOST_def client_wf_def sample_defs sample_servers_def)
  then obtain v ss where p: "push_servers sample_env (map server_of_instance (mc_servers (sample_client False))) m =
        (True, m\<lparr>mc_server_version := v, mc_servers := ss\<rparr>)"
      "client_wf (m\<lparr>mc_server_version := v, mc_servers := ss\<rparr>)" "sample_servers (m\<lparr>mc_server_version := v, mc_servers := ss\<rparr>)"
    by (auto split: prod.splits)
  let ?p = "m\<lparr>mc_server_version := v, mc_servers := ss\<rparr>"
  have ord: "ordered ?p = ?p" using assms(5) by (simp add: ordered_def)
  have al: "alive ?p 100 \<noteq> []" using p(3) assms(5) by (auto simp: alive_def host_live_def sample_servers_def)
  from run_distribution_succeeds [OF p(2) sample_env_simps(1) al] obtain m'
    where run: "run_distribution sample_env ?p = Done (MEMCACHED_SUCCESS, m')" by auto
  then obtain k where k: "m' = ?p\<lparr>mc_ketama := k\<rparr>" "client_wf m'"
    using run_distribution_ring [OF p(2) _ sample_env_simps(1) al run] assms(4) ord by auto
  have "memcached_push sample_env (sample_client False) m = Done (MEMCACHED_SUCCESS, m')"
    using p(1) run by (simp add: memcached_push_def memcached_instance_push_def memcached_server_push_def)
  with that [of k ss v] k p(3) show thesis by (simp add: sample_servers_def)
qed

text \<open>A client with the two servers, a consistent distribution and any hash function has a clone with the same servers and hash.\<close>

lemma sample_clone:
  assumes "mc_servers m = mc_servers (sample_client False)" and "mc_flags m = mc_flags (sample_client False)"
    and "memcached_is_consistent_distribution (mc_distribution m)" and "kit_ok (mc_hashkit m)"
  obtains c where "memcached_clone sample_env m = Done (Some c)" and "mc_distribution c = mc_distribution m"
    and "mc_flags c = mc_flags m" and "base_hash (mc_hashkit c) = base_hash (mc_hashkit m)" and "client_wf c"
    and "sample_servers c"
    and "holds_ring (mc_ketama c) (client_ring sample_env c 100)" and "\<not> kt_weighted (mc_ketama c)"
proof -
  let ?start = "clone_settings m memcached_create"
  obtain kit where kit: "hashkit_clone (env_heap sample_env) (Some (mc_hashkit ?start)) (Some (mc_hashkit m)) = Some kit"
      "base_hash kit = base_hash (mc_hashkit m)" "kit_ok kit"
    using assms(4) by (simp add: hashkit_clone_def hashkit_create_st_def kit_ok_def)
  obtain k v ss where push: "memcached_push sample_env (sample_client False) (?start\<lparr>mc_hashkit := kit\<rparr>) =
        Done (MEMCACHED_SUCCESS, ?start\<lparr>mc_hashkit := kit, mc_server_version := v, mc_servers := ss, mc_ketama := k\<rparr>)"
      and wf: "client_wf (?start\<lparr>mc_hashkit := kit, mc_server_version := v, mc_servers := ss, mc_ketama := k\<rparr>)"
      and ss: "sample_servers (?start\<lparr>mc_hashkit := kit, mc_server_version := v, mc_servers := ss, mc_ketama := k\<rparr>)"
    by (rule sample_push [of "?start\<lparr>mc_hashkit := kit\<rparr>"])
      (use assms kit in \<open>simp_all add: clone_settings_def memcached_create_def no_continuum_def\<close>)
  let ?m1 = "?start\<lparr>mc_hashkit := kit, mc_server_version := v, mc_servers := ss, mc_ketama := k\<rparr>"
  let ?m2 = "?m1\<lparr>mc_namespace := memcached_array_clone sample_env (mc_namespace m),
    mc_configure_filename := memcached_array_clone sample_env (mc_namespace m), mc_configure_version := mc_configure_version m\<rparr>"
  have flags: "mc_flags ?m2 = mc_flags m" "mc_distribution ?m2 = mc_distribution m" by (simp_all add: clone_settings_def)
  have wf2: "client_wf ?m2" using wf by (simp add: client_wf_def)
  have al: "alive ?m2 100 \<noteq> []" using ss flags assms(2) by (auto simp: alive_def host_live_def sample_servers_def)
  obtain c where run: "run_distribution sample_env ?m2 = Done (MEMCACHED_SUCCESS, c)"
    using run_distribution_succeeds [OF wf2 sample_env_simps(1) al] by auto
  obtain k2 where k2: "c = (ordered ?m2)\<lparr>mc_ketama := k2\<rparr>" "holds_ring k2 (client_ring sample_env c 100)" "client_wf c"
    by (rule run_distribution_ring [OF wf2 _ sample_env_simps(1) al run]) (use assms(3) flags in simp_all)
  have ord: "ordered ?m2 = ?m2" using flags assms(2) by (simp add: ordered_def)
  have "memcached_push sample_env m = memcached_push sample_env (sample_client False)"
    using assms(1) by (simp add: memcached_push_def fun_eq_iff)
  with push kit(1) run have clone: "memcached_clone sample_env m = Done (Some c)"
    by (simp add: memcached_clone_def memcached_failed_def)
  moreover have "\<not> kt_weighted (mc_ketama c)"
    using memcached_clone_unweighted [OF _ clone] assms(1) by (simp add: sample_defs)
  ultimately show thesis
    using that [of c] k2 ord ss flags kit(2) by (simp add: sample_servers_def)
qed

subsection \<open>Clones look for keys on other servers\<close>

lemma key_bytes_stack_key [simp]: "key_bytes (stack_key bs) = bs"
  unfolding key_bytes_def stack_key_def by (rule nth_equalityI) simp_all

text \<open>The weighted points do not depend on the hash function of the client.\<close>

lemma weighted_ring_kit:
  assumes "kt_weighted (mc_ketama m)"
  shows "client_ring env (m\<lparr>mc_hashkit := kit\<rparr>) now = client_ring env m now"
proof -
  let ?m = "m\<lparr>mc_hashkit := kit\<rparr>"
  have "text_points env ?m i key = text_points env m i key" for i key using assms by (simp add: text_points_def)
  moreover have "sort_host ?m = sort_host m" "hashes_of_host ?m = hashes_of_host m" "points_of_host ?m = points_of_host m"
      "host_live ?m = host_live m"
    by (simp_all add: fun_eq_iff sort_host_def is_spy_def hashes_of_host_def points_of_host_def host_live_def)
  ultimately have "ring_points env ?m now live w i hosts = ring_points env m now live w i hosts" for live w i hosts
    by (induction hosts arbitrary: i) (simp_all add: host_points_def)
  then show ?thesis
    using \<open>host_live ?m = host_live m\<close> by (simp add: client_ring_def live_servers_def total_weight_def)
qed

text \<open>
  With a hash function that depends on the first byte of the text only, all points of a server without weights
  are in one place.
\<close>

lemma first_byte_ring:
  assumes "\<not> kt_weighted (mc_ketama c)" and "mc_distribution c = MEMCACHED_DISTRIBUTION_CONSISTENT_WEIGHTED"
    and "\<not> fl_auto_eject_hosts (mc_flags c)"
    and "sample_servers c"
    and hash: "\<And>b bs. digest_value env (mc_hashkit c) (stack_key (b # bs)) = f b"
  shows "set (client_ring env c now) = {\<lparr>ci_index = 0, ci_value = f 97\<rparr>, \<lparr>ci_index = 1, ci_value = f 98\<rparr>}"
proof -
  obtain a b where srv: "mc_servers c = [a, b]" "host_text a = lit ''a''" "host_text b = lit ''b''"
      "ins_port a = MEMCACHED_DEFAULT_PORT" "ins_port b = MEMCACHED_DEFAULT_PORT"
    using assms(4) by (auto simp: sample_servers_def Cons_eq_map_conv)
  have "set (host_points env c i (points_of_host c live w ins) ins) = {\<lparr>ci_index = i, ci_value = f x\<rparr>}"
    if "host_text ins = [x]" "ins_port ins = MEMCACHED_DEFAULT_PORT" for i live w ins x
    using that assms(1,2) hash
    by (auto simp: host_points_def text_points_def sort_host_def is_spy_def hashes_of_host_def points_of_host_def
        MEMCACHED_POINTS_PER_SERVER_def lit_def image_constant_conv)
  then show ?thesis
    using srv assms(3) by (simp add: client_ring_def host_live_def lit_def insert_commute)
qed

lemma ring_owner_pair: "ring_owner {p, q} 0 = snd (min (continuum_item_cmp p) (continuum_item_cmp q))"
proof -
  have "points_above {p, q} 0 = {p, q}" by (auto simp: points_above_def)
  then show ?thesis by (simp add: ring_owner_eq)
qed

text \<open>
  The hash functions 0 and 1 of the sample build send all points to 0, or those of the server \<open>a\<close> to 1 and all
  others to 0; both hash the sample key to 0.
\<close>

definition first_byte_kit :: "nat \<Rightarrow> hashkit_st" where
  "first_byte_kit n = (mc_hashkit memcached_create)\<lparr>base_hash := \<lparr>fn = Fn_user n, fn_context = 0\<rparr>\<rparr>"

definition weighted_client :: memcached_st where
  "weighted_client = set_weighted_ketama True (sample_client False)\<lparr>mc_distribution := MEMCACHED_DISTRIBUTION_CONSISTENT_WEIGHTED\<rparr>"

lemma weighted_client_simps [simp]:
  "mc_flags weighted_client = mc_flags (sample_client False)" "mc_servers weighted_client = mc_servers (sample_client False)"
  "mc_distribution weighted_client = MEMCACHED_DISTRIBUTION_CONSISTENT_WEIGHTED" "kt_weighted (mc_ketama weighted_client)"
  "kt_continuum (mc_ketama weighted_client) = []" "kt_continuum_count (mc_ketama weighted_client) = 0" "kit_ok (first_byte_kit n)"
  by (simp_all add: weighted_client_def set_weighted_ketama_def first_byte_kit_def kit_ok_def sample_defs no_continuum_def)

lemma first_byte_digest:
  assumes "base_hash kit = base_hash (first_byte_kit n)"
  shows "digest_value sample_env kit (stack_key (b # bs)) = (if n = 1 \<and> b = 97 then 1 else 0)"
  using assms by (simp add: digest_value_def hashkit_digest_def first_byte_kit_def sample_env_def)

lemma sample_key_owner:
  assumes "base_hash (mc_hashkit m) = base_hash (first_byte_kit n)" and "memcached_is_consistent_distribution (mc_distribution m)"
    and "mc_flags m = mc_flags (sample_client False)" and "length (mc_servers m) = 2"
    and "holds_ring (mc_ketama m) (client_ring sample_env m 100)" and "client_ring sample_env m 100 \<noteq> []"
  shows "memcached_generate_hash sample_env m sample_key = Done (ring_owner (set (client_ring sample_env m 100)) 0)"
proof -
  have "kit_ok (mc_hashkit m)" using assms(1) by (simp add: kit_ok_def first_byte_kit_def)
  then have "generate_hash_wrapper sample_env m sample_key = Done 0"
    using assms(3,4) first_byte_digest [OF assms(1)]
    by (simp add: generate_hash_wrapper_def generate_hash_def hashkit_digest_value memcached_server_count_def sample_key_def lit_def
        sample_client_def default_flags_def)
  then show ?thesis using dispatch_ring [OF assms(2,5,6)] by (simp add: memcached_generate_hash_def)
qed

lemma first_byte_original:
  obtains m1 k where
    "memcached_behavior_set_distribution sample_env MEMCACHED_DISTRIBUTION_CONSISTENT_WEIGHTED
       (sample_client False\<lparr>mc_hashkit := first_byte_kit n\<rparr>) = Done (MEMCACHED_SUCCESS, m1)"
    and "m1 = weighted_client\<lparr>mc_hashkit := first_byte_kit n, mc_ketama := k\<rparr>" and "kt_weighted k"
    and "memcached_generate_hash sample_env m1 sample_key = Done (ring_owner (set (client_ring sample_env weighted_client 100)) 0)"
proof -
  let ?m = "weighted_client\<lparr>mc_hashkit := first_byte_kit n\<rparr>"
  have start: "set_weighted_ketama True (sample_client False\<lparr>mc_hashkit := first_byte_kit n\<rparr>)
      \<lparr>mc_distribution := MEMCACHED_DISTRIBUTION_CONSISTENT_WEIGHTED\<rparr> = ?m"
    by (rule memcached_st.equality) (simp_all add: weighted_client_def set_weighted_ketama_def)
  have wf: "client_wf ?m"
    using sample_client_wf [of False] by (simp add: client_wf_def)
  have al: "alive ?m 100 \<noteq> []" using sample_client_alive [of False] by (simp add: alive_def host_live_def)
  obtain m1 where run: "run_distribution sample_env ?m = Done (MEMCACHED_SUCCESS, m1)"
    using run_distribution_succeeds [OF wf sample_env_simps(1) al] by auto
  obtain k where k: "m1 = (ordered ?m)\<lparr>mc_ketama := k\<rparr>" "kt_weighted k = kt_weighted (mc_ketama ?m)"
      "holds_ring k (client_ring sample_env m1 100)" "client_ring sample_env m1 100 \<noteq> []"
    by (rule run_distribution_ring [OF wf _ sample_env_simps(1) al run]) simp_all
  have m1: "m1 = ?m\<lparr>mc_ketama := k\<rparr>" using k(1) by (simp add: ordered_def)
  have "client_ring sample_env m1 100 = client_ring sample_env ?m 100" using ring_update(5) [OF k(2)] by (simp add: m1)
  also have "\<dots> = client_ring sample_env weighted_client 100" by (rule weighted_ring_kit) simp
  finally have ring: "client_ring sample_env m1 100 = client_ring sample_env weighted_client 100" .
  have "memcached_generate_hash sample_env m1 sample_key = Done (ring_owner (set (client_ring sample_env m1 100)) 0)"
    by (rule sample_key_owner [of m1 n]) (use k in \<open>simp_all add: m1 sample_client_def\<close>)
  with that [of m1 k] run start k(2) m1 ring show thesis by (simp add: memcached_behavior_set_distribution_def Let_def)
qed

lemma first_byte_clone:
  assumes "mc_distribution c = MEMCACHED_DISTRIBUTION_CONSISTENT_WEIGHTED"
    and "mc_flags c = mc_flags (sample_client False)" and kit: "base_hash (mc_hashkit c) = base_hash (first_byte_kit n)"
    and "sample_servers c" and "holds_ring (mc_ketama c) (client_ring sample_env c 100)" and "\<not> kt_weighted (mc_ketama c)"
  shows "memcached_generate_hash sample_env c sample_key = Done (if n = 1 then 1 else 0)"
proof -
  have points: "set (client_ring sample_env c 100) =
      {\<lparr>ci_index = 0, ci_value = if n = 1 then 1 else 0\<rparr>, \<lparr>ci_index = 1, ci_value = 0\<rparr>}"
    using first_byte_ring [OF assms(6,1) _ assms(4) first_byte_digest [OF kit], of 100] assms(2) by simp
  then have "client_ring sample_env c 100 \<noteq> []" by auto
  moreover have "length (mc_servers c) = 2" using assms(4) arg_cong [of _ _ length] by (fastforce simp: sample_servers_def)
  ultimately have "memcached_generate_hash sample_env c sample_key = Done (ring_owner (set (client_ring sample_env c 100)) 0)"
    using assms by (intro sample_key_owner [OF kit]) simp_all
  then show ?thesis unfolding points ring_owner_pair by (simp add: continuum_item_cmp_def min_def)
qed

text \<open>
  C39: A client that is set to the weighted distribution and its clone have the same servers, the same distribution and
  the same hash function, but there are such clients (with a hash function of the user) that look for the same key on
  different servers: the clone has lost the weighting.
\<close>

theorem memcached_clone_moves_keys:
  "\<exists>env m m1 c i j.
     memcached_behavior_set_distribution env MEMCACHED_DISTRIBUTION_CONSISTENT_WEIGHTED m = Done (MEMCACHED_SUCCESS, m1) \<and>
     memcached_clone env m1 = Done (Some c) \<and>
     mc_distribution c = mc_distribution m1 \<and> base_hash (mc_hashkit c) = base_hash (mc_hashkit m1) \<and>
     map host_text (mc_servers c) = map host_text (mc_servers m1) \<and> map ins_port (mc_servers c) = map ins_port (mc_servers m1) \<and>
     map ins_weight (mc_servers c) = map ins_weight (mc_servers m1) \<and>
     kt_weighted (mc_ketama m1) \<and> \<not> kt_weighted (mc_ketama c) \<and>
     memcached_generate_hash env m1 sample_key = Done i \<and> memcached_generate_hash env c sample_key = Done j \<and> i \<noteq> j"
proof -
  let ?i = "ring_owner (set (client_ring sample_env weighted_client 100)) 0"
  define n :: nat where "n = (if ?i = 0 then 1 else 0)"
  then have differ: "?i \<noteq> (if n = 1 then 1 else 0)" by simp
  obtain m1 k where m1: "memcached_behavior_set_distribution sample_env MEMCACHED_DISTRIBUTION_CONSISTENT_WEIGHTED
        (sample_client False\<lparr>mc_hashkit := first_byte_kit n\<rparr>) = Done (MEMCACHED_SUCCESS, m1)"
      and rec: "m1 = weighted_client\<lparr>mc_hashkit := first_byte_kit n, mc_ketama := k\<rparr>" and weighted: "kt_weighted k"
      and i: "memcached_generate_hash sample_env m1 sample_key = Done ?i"
    by (rule first_byte_original [of n])
  obtain c where c: "memcached_clone sample_env m1 = Done (Some c)" "mc_distribution c = mc_distribution m1"
      "mc_flags c = mc_flags m1" "base_hash (mc_hashkit c) = base_hash (mc_hashkit m1)" "client_wf c" "sample_servers c"
      "holds_ring (mc_ketama c) (client_ring sample_env c 100)" "\<not> kt_weighted (mc_ketama c)"
    by (rule sample_clone [of m1]) (simp_all add: rec)
  have "memcached_generate_hash sample_env c sample_key = Done (if n = 1 then 1 else 0)"
    using first_byte_clone [OF _ _ _ c(6,7,8), of n] c(2,3,4) by (simp add: rec)
  moreover have "sample_servers m1" by (simp add: sample_servers_def rec sample_defs host_text_def lit_def)
  ultimately show ?thesis
    using m1 c weighted i differ unfolding sample_servers_def
    by (intro exI [of _ sample_env] exI [of _ "sample_client False\<lparr>mc_hashkit := first_byte_kit n\<rparr>"] exI [of _ m1] exI [of _ c]) (simp add: rec)
qed

end
