(* ===== verification/Example_Storage.thy ===== *)
theory Example_Storage
  imports Memory
begin

text \<open>
  The storage of the example server, \<open>example/storage.cc\<close>: items in a circular doubly linked list.  The list is
  modelled with its pointers: a store maps the addresses of live entries to entries, and an access to any
  other address is a \<open>Fault\<close>.  Addresses are never reused.  Each creation of an item gets the allocator for its
  allocations from a script; when the script has run out they fail.  A loop that does not end is \<^const>\<open>None\<close>.

  The lemmas show that the pointer operations keep a circular list, and that the storage behaves as a finite map.
\<close>

subsection \<open>Runs that may fault or not return\<close>

type_synonym 'a run = "'a outcome option"

definition rbind :: "'a run \<Rightarrow> ('a \<Rightarrow> 'b run) \<Rightarrow> 'b run" where
  "rbind m f = (case m of None \<Rightarrow> None | Some Fault \<Rightarrow> Some Fault | Some (Done x) \<Rightarrow> f x)"

abbreviation returns :: "'a \<Rightarrow> 'a run" where
  "returns x \<equiv> Some (Done x)"

lemma rbind_simps [simp]:
  "rbind None f = None" "rbind (Some Fault) f = Some Fault" "rbind (Some (Done x)) f = f x"
  by (simp_all add: rbind_def)


subsection \<open>Entries\<close>

record item =
  item_cas :: u64
  item_key :: bytes
  item_nkey :: u64
  item_data :: "bytes option"
  item_size :: u64
  item_flags :: u32
  item_exp :: u64

record list_entry =
  le_item :: item
  le_next :: "nat option"
  le_prev :: "nat option"

record storage =
  st_entries :: "nat \<Rightarrow> list_entry option"
  st_fresh :: nat
  st_root :: "nat option"
  st_cas :: u64
  st_mallocs :: "heap list"

text \<open>Reading and writing through a pointer.\<close>

definition entry_at :: "nat option \<Rightarrow> storage \<Rightarrow> list_entry outcome" where
  "entry_at p s = (case p of None \<Rightarrow> Fault | Some a \<Rightarrow> (case st_entries s a of None \<Rightarrow> Fault | Some e \<Rightarrow> Done e))"

definition write_entry :: "nat option \<Rightarrow> (list_entry \<Rightarrow> list_entry) \<Rightarrow> storage \<Rightarrow> storage outcome" where
  "write_entry p f s =
     (case p of
        None \<Rightarrow> Fault
      | Some a \<Rightarrow> (case st_entries s a of None \<Rightarrow> Fault | Some e \<Rightarrow> Done (s\<lparr>st_entries := (st_entries s)(a := Some (f e))\<rparr>)))"

definition free_entry :: "nat \<Rightarrow> storage \<Rightarrow> storage outcome" where
  "free_entry a s = (case st_entries s a of None \<Rightarrow> Fault | Some _ \<Rightarrow> Done (s\<lparr>st_entries := (st_entries s)(a := None)\<rparr>))"


subsection \<open>Operations\<close>

definition initial_storage :: "heap list \<Rightarrow> storage" where
  "initial_storage mallocs = \<lparr>st_entries = (\<lambda>_. None), st_fresh = 0, st_root = None, st_cas = 0, st_mallocs = mallocs\<rparr>"

definition initialize_storage :: "storage \<Rightarrow> bool \<times> storage" where
  "initialize_storage s = (True, s)"

definition shutdown_storage :: "storage \<Rightarrow> storage" where
  "shutdown_storage s = s"

definition release_item :: "nat \<Rightarrow> storage \<Rightarrow> storage" where
  "release_item item s = s"

definition update_cas :: "nat \<Rightarrow> storage \<Rightarrow> storage outcome" where
  "update_cas item s =
     (let s1 = s\<lparr>st_cas := st_cas s + 1\<rparr>
      in write_entry (Some item) (\<lambda>e. e\<lparr>le_item := (le_item e)\<lparr>item_cas := st_cas s1\<rparr>\<rparr>) s1)"

definition put_item :: "nat \<Rightarrow> storage \<Rightarrow> storage outcome" where
  "put_item item s =
     obind (update_cas item s) (\<lambda>s1.
       obind
         (case st_root s1 of
            None \<Rightarrow> write_entry (Some item) (\<lambda>e. e\<lparr>le_next := Some item, le_prev := Some item\<rparr>) s1
          | Some root \<Rightarrow>
              obind (entry_at (Some root) s1) (\<lambda>r.
              obind (write_entry (Some item) (\<lambda>e. e\<lparr>le_prev := le_prev r, le_next := Some root\<rparr>) s1) (\<lambda>s2.
              obind (write_entry (le_prev r) (\<lambda>e. e\<lparr>le_next := Some item\<rparr>) s2)
                (write_entry (Some root) (\<lambda>e. e\<lparr>le_prev := Some item\<rparr>)))))
         (\<lambda>s2. Done (s2\<lparr>st_root := Some item\<rparr>)))"

text \<open>The comparison of an item with a key, by length first.\<close>

definition same_key :: "bytes \<Rightarrow> item \<Rightarrow> bool outcome" where
  "same_key key it =
     (if item_nkey it = word_of_nat (length key)
      then if length (item_key it) < length key then Fault else Done (take (length key) (item_key it) = key)
      else Done False)"

partial_function (option) get_item_loop ::
  "bytes \<Rightarrow> storage \<Rightarrow> nat option \<Rightarrow> nat option run" where
  "get_item_loop key s walker =
     (case entry_at walker s of
        Fault \<Rightarrow> Some Fault
      | Done e \<Rightarrow>
          (case same_key key (le_item e) of
             Fault \<Rightarrow> Some Fault
           | Done found \<Rightarrow>
               if found then returns walker
               else if le_next e = st_root s then returns None
               else get_item_loop key s (le_next e)))"

definition get_item :: "bytes \<Rightarrow> storage \<Rightarrow> nat option run" where
  "get_item key s = (if st_root s = None then returns None else get_item_loop key s (st_root s))"

definition item_heap :: "storage \<Rightarrow> heap" where
  "item_heap s = (case st_mallocs s of [] \<Rightarrow> (\<lambda>_. None) | h # _ \<Rightarrow> h)"

definition list_entry_size :: nat where "list_entry_size = 72"

text \<open>
  The data is absent when the caller fills it in later; the bytes of the object are then what the allocator left.
\<close>

definition create_item :: "bytes \<Rightarrow> bytes option \<Rightarrow> u64 \<Rightarrow> u32 \<Rightarrow> u64 \<Rightarrow> storage \<Rightarrow> (nat option \<times> storage) outcome" where
  "create_item key data len flags exp s =
     (let heap = item_heap s; s1 = s\<lparr>st_mallocs := tl (st_mallocs s)\<rparr>; n = unat len
      in if heap list_entry_size = None then Done (None, s1)
         else
           (case (heap (length key), if len > 0 then heap n else None) of
              (Some _, obj) \<Rightarrow>
                if len > 0 \<and> obj = None then Done (None, s1)
                else
                  obind (case data of None \<Rightarrow> Done obj
                         | Some d \<Rightarrow> if length d < n then Fault else store_at obj 0 (take n d)) (\<lambda>obj'.
                    Done (Some (st_fresh s1), s1\<lparr>st_fresh := Suc (st_fresh s1),
                      st_entries := (st_entries s1)(st_fresh s1 := Some
                        \<lparr>le_item = \<lparr>item_cas = 0, item_key = key, item_nkey = word_of_nat (length key), item_data = obj',
                           item_size = len, item_flags = flags, item_exp = exp\<rparr>,
                         le_next = None, le_prev = None\<rparr>)\<rparr>))
            | (None, _) \<Rightarrow> Done (None, s1)))"

definition delete_item :: "bytes \<Rightarrow> storage \<Rightarrow> (bool \<times> storage) run" where
  "delete_item key s =
     rbind (get_item key s) (\<lambda>found.
       case found of
         None \<Rightarrow> returns (False, s)
       | Some entry \<Rightarrow>
           Some (obind (entry_at (Some entry) s) (\<lambda>e.
             obind
               (if le_next e = Some entry then Done (s\<lparr>st_root := None\<rparr>)
                else
                  obind (write_entry (le_prev e) (\<lambda>p. p\<lparr>le_next := le_next e\<rparr>) (s\<lparr>st_root := le_next e\<rparr>))
                    (write_entry (le_next e) (\<lambda>n. n\<lparr>le_prev := le_prev e\<rparr>)))
               (\<lambda>s1. obind (free_entry entry s1) (\<lambda>s2. Done (True, s2))))))"

partial_function (option) flush_loop :: "storage \<Rightarrow> storage run" where
  "flush_loop s =
     (case st_root s of
        None \<Rightarrow> returns s
      | Some tmp \<Rightarrow>
          (case entry_at (Some tmp) s of
             Fault \<Rightarrow> Some Fault
           | Done e \<Rightarrow>
               (case free_entry tmp (s\<lparr>st_root := le_next e\<rparr>) of Fault \<Rightarrow> Some Fault | Done s1 \<Rightarrow> flush_loop s1)))"

definition flush :: "u32 \<Rightarrow> storage \<Rightarrow> storage run" where
  "flush when s =
     (case st_root s of
        None \<Rightarrow> returns s
      | Some root \<Rightarrow>
          rbind (Some (entry_at (Some root) s)) (\<lambda>r.
          rbind (Some (write_entry (le_prev r) (\<lambda>p. p\<lparr>le_next := None\<rparr>) s)) flush_loop))"


subsection \<open>The circular list\<close>

text \<open>
  \<open>seg m p xs q\<close>: the entries at \<open>xs\<close> are linked one after the other, the first one back to \<open>p\<close> and the last one
  forward to \<open>q\<close>.
\<close>

fun seg :: "(nat \<Rightarrow> list_entry option) \<Rightarrow> nat \<Rightarrow> nat list \<Rightarrow> nat option \<Rightarrow> bool" where
  "seg m p [] q \<longleftrightarrow> True"
| "seg m p (x # xs) q \<longleftrightarrow>
     (case m x of None \<Rightarrow> False
      | Some e \<Rightarrow> le_prev e = Some p \<and> le_next e = (case xs of [] \<Rightarrow> q | y # _ \<Rightarrow> Some y)) \<and> seg m x xs q"

definition ring :: "storage \<Rightarrow> nat list \<Rightarrow> bool" where
  "ring s xs \<longleftrightarrow> distinct xs \<and>
     (if xs = [] then st_root s = None
      else st_root s = Some (hd xs) \<and> seg (st_entries s) (last xs) xs (Some (hd xs)))"

lemma seg_append:
  "seg m p (xs @ ys) q \<longleftrightarrow> seg m p xs (case ys of [] \<Rightarrow> q | y # _ \<Rightarrow> Some y) \<and> seg m (last (p # xs)) ys q"
proof (induction xs arbitrary: p)
  case (Cons x xs)
  then show ?case by (cases xs) (simp_all split: option.split)
qed simp

lemma seg_cong:
  assumes "\<And>x. x \<in> set xs \<Longrightarrow> m' x = m x"
  shows "seg m' p xs q = seg m p xs q"
  using assms by (induction xs arbitrary: p) auto

lemma seg_entry: "seg m p xs q \<Longrightarrow> x \<in> set xs \<Longrightarrow> \<exists>e. m x = Some e"
  by (induction xs arbitrary: p) (auto split: option.splits)

lemma seg_other [simp]: "x \<notin> set xs \<Longrightarrow> seg (m(x := e)) p xs q = seg m p xs q"
  by (rule seg_cong) auto

text \<open>Relinking the two ends of a segment.\<close>

lemma seg_relink_first:
  assumes "seg m p (x # xs) q" and "distinct (x # xs)" and "m x = Some e"
  shows "seg (m(x := Some (e\<lparr>le_prev := Some p'\<rparr>))) p' (x # xs) q"
  using assms by auto

lemma seg_relink_last:
  assumes "seg m p (xs @ [x]) q" and "distinct (xs @ [x])" and "m x = Some e"
  shows "seg (m(x := Some (e\<lparr>le_next := q'\<rparr>))) p (xs @ [x]) q'"
  using assms by (auto simp: seg_append)

lemma ring_rotate:
  assumes "ring s (ys @ x # zs)"
  shows "ring (s\<lparr>st_root := Some x\<rparr>) (x # zs @ ys)"
proof (cases "ys = []")
  case True
  with assms show ?thesis by (simp add: ring_def)
next
  case False
  then obtain y ys' where ys: "ys = y # ys'" by (cases ys) auto
  have "seg (st_entries s) (last (x # zs)) (ys @ x # zs) (Some y)" using assms by (simp add: ring_def ys)
  then have "seg (st_entries s) (last (x # zs)) ys (Some x)" "seg (st_entries s) (last ys) (x # zs) (Some y)"
    using False unfolding seg_append by (auto simp: ys)
  then have "seg (st_entries s) (last ys) ((x # zs) @ ys) (Some x)"
    unfolding seg_append by (simp add: ys)
  with assms False show ?thesis by (auto simp: ring_def)
qed

text \<open>The items of the entries, which the pointer operations keep.\<close>

definition items :: "storage \<Rightarrow> nat \<Rightarrow> item option" where
  "items s x = map_option le_item (st_entries s x)"

lemma write_entry_Some:
  "st_entries s a = Some e \<Longrightarrow> write_entry (Some a) f s = Done (s\<lparr>st_entries := (st_entries s)(a := Some (f e))\<rparr>)"
  by (simp add: write_entry_def)

lemma entry_at_Some: "st_entries s a = Some e \<Longrightarrow> entry_at (Some a) s = Done e"
  by (simp add: entry_at_def)

lemma ring_insert:
  assumes ring: "ring s xs" and a: "st_entries s a = Some e" "a \<notin> set xs"
  obtains s' where "put_item a s = Done s'" "ring s' (a # xs)" "st_cas s' = st_cas s + 1"
    "items s' = (items s)(a := Some ((le_item e)\<lparr>item_cas := st_cas s + 1\<rparr>))"
    "st_fresh s' = st_fresh s" "st_mallocs s' = st_mallocs s"
    "\<And>x. st_entries s' x = None \<longleftrightarrow> st_entries s x = None"
proof (cases xs)
  case Nil
  with ring a show ?thesis
    by (intro that [of "s\<lparr>st_cas := st_cas s + 1, st_entries := (st_entries s)(a := Some (e\<lparr>le_item := (le_item e)\<lparr>item_cas := st_cas s + 1\<rparr>,
          le_next := Some a, le_prev := Some a\<rparr>)), st_root := Some a\<rparr>"])
      (auto simp: put_item_def update_cas_def Let_def write_entry_def ring_def items_def fun_eq_iff)
next
  case (Cons r rs)
  define l where "l = last xs"
  define e1 where "e1 = e\<lparr>le_item := (le_item e)\<lparr>item_cas := st_cas s + 1\<rparr>, le_prev := Some l, le_next := Some r\<rparr>"
  define m1 where "m1 = (st_entries s)(a := Some e1)"
  have sg: "seg (st_entries s) l xs (Some r)" and root: "st_root s = Some r" and d: "distinct xs"
    using ring Cons by (auto simp: ring_def l_def)
  obtain er where er: "st_entries s r = Some er" "le_prev er = Some l" using sg Cons by (auto split: option.splits)
  have mem: "r \<in> set xs" "l \<in> set xs" "r \<noteq> a" "l \<noteq> a" using a(2) Cons by (auto simp: l_def)
  have xs: "xs = butlast xs @ [l]" using Cons by (simp add: l_def)
  have s1: "seg m1 l xs (Some r)" using sg a(2) by (simp add: m1_def)
  obtain el where el: "m1 l = Some el" using seg_entry [OF s1 mem(2)] by blast
  define m2 where "m2 = m1(l := Some (el\<lparr>le_next := Some a\<rparr>))"
  have s2: "seg m2 l xs (Some a)"
    using seg_relink_last [of m1 l "butlast xs" l "Some r" el "Some a"] s1 d el by (simp add: m2_def flip: xs)
  obtain e2 where e2: "m2 r = Some e2" using seg_entry [OF s2 mem(1)] by blast
  define m3 where "m3 = m2(r := Some (e2\<lparr>le_prev := Some a\<rparr>))"
  have s3: "seg m3 a xs (Some a)" using seg_relink_first [of m2 l r rs "Some a" e2] s2 d e2 by (simp add: m3_def Cons)
  have m3a: "m3 a = Some e1" using mem by (auto simp: m3_def m2_def m1_def)
  let ?s = "s\<lparr>st_cas := st_cas s + 1, st_entries := m3, st_root := Some a\<rparr>"
  have "put_item a s = Done ?s"
    using a er root mem el e2
    by (simp add: put_item_def update_cas_def Let_def write_entry_def entry_at_def m1_def m2_def m3_def e1_def)
  moreover have "ring ?s (a # xs)" using s3 m3a a(2) d by (auto simp: ring_def Cons e1_def l_def)
  moreover have "items ?s = (items s)(a := Some ((le_item e)\<lparr>item_cas := st_cas s + 1\<rparr>))"
    using el e2 mem by (auto simp: items_def fun_eq_iff m3_def m2_def m1_def e1_def split: if_splits)
  moreover have "m3 x = None \<longleftrightarrow> st_entries s x = None" for x
    using el e2 mem a(1) by (auto simp: m3_def m2_def m1_def split: if_splits)
  ultimately show ?thesis by (intro that [of ?s]) auto
qed

lemma ring_remove:
  assumes ring: "ring s (ys @ a # zs)"
  obtains s' where "obind (entry_at (Some a) s) (\<lambda>e.
      obind (if le_next e = Some a then Done (s\<lparr>st_root := None\<rparr>)
        else obind (write_entry (le_prev e) (\<lambda>p. p\<lparr>le_next := le_next e\<rparr>) (s\<lparr>st_root := le_next e\<rparr>))
               (write_entry (le_next e) (\<lambda>n. n\<lparr>le_prev := le_prev e\<rparr>)))
        (\<lambda>s1. obind (free_entry a s1) (\<lambda>s2. Done (True, s2)))) = Done (True, s')"
    "ring s' (zs @ ys)" "st_cas s' = st_cas s" "items s' = (items s)(a := None)"
    "st_fresh s' = st_fresh s" "st_mallocs s' = st_mallocs s"
proof (cases "zs @ ys")
  case Nil
  with ring obtain e where "st_entries s a = Some e" "le_next e = Some a" by (auto simp: ring_def split: option.splits)
  with Nil show ?thesis
    by (intro that [of "s\<lparr>st_root := None, st_entries := (st_entries s)(a := None)\<rparr>"])
      (auto simp: entry_at_def free_entry_def ring_def items_def fun_eq_iff)
next
  case (Cons y ws)
  define xs where "xs = zs @ ys"
  define l where "l = last xs"
  have "ring (s\<lparr>st_root := Some a\<rparr>) (a # xs)" using ring_rotate [OF ring] by (simp add: xs_def)
  then have sg: "seg (st_entries s) l (a # xs) (Some a)" and d: "distinct (a # xs)"
    using Cons by (simp_all add: ring_def l_def xs_def)
  obtain e where e: "st_entries s a = Some e" "le_prev e = Some l" "le_next e = Some y"
    using sg Cons by (auto simp: xs_def split: option.splits)
  have mem: "y \<in> set xs" "l \<in> set xs" "y \<noteq> a" "l \<noteq> a" and xs: "xs = butlast xs @ [l]" "xs = y # ws"
    using d Cons by (auto simp: l_def xs_def)
  have s0: "seg (st_entries s) a xs (Some a)" using sg by simp
  obtain el where el: "st_entries s l = Some el" using seg_entry [OF s0 mem(2)] by blast
  define m1 where "m1 = (st_entries s)(l := Some (el\<lparr>le_next := Some y\<rparr>))"
  have s1: "seg m1 a xs (Some y)"
    using seg_relink_last [of "st_entries s" a "butlast xs" l "Some a" el "Some y"] s0 d el by (simp add: m1_def flip: xs(1))
  obtain ey where ey: "m1 y = Some ey" using seg_entry [OF s1 mem(1)] by blast
  define m2 where "m2 = m1(y := Some (ey\<lparr>le_prev := Some l\<rparr>))"
  have s2: "seg m2 l xs (Some y)" using seg_relink_first [of m1 a y ws "Some y" ey] s1 d ey by (simp add: m2_def xs(2))
  let ?s = "s\<lparr>st_root := Some y, st_entries := m2(a := None)\<rparr>"
  have m2a: "m2 a = Some e" using e mem by (auto simp: m2_def m1_def)
  have "ring ?s xs" using s2 d by (auto simp: ring_def xs(2) l_def)
  moreover have "items ?s = (items s)(a := None)"
    using el ey mem by (auto simp: items_def fun_eq_iff m2_def m1_def split: if_splits)
  ultimately show ?thesis
    using e el ey mem m2a
    by (intro that [of ?s]) (auto simp: entry_at_def write_entry_def free_entry_def m1_def m2_def xs_def)
qed


subsection \<open>Search\<close>

definition item_ok :: "item \<Rightarrow> bool" where
  "item_ok it \<longleftrightarrow> length (item_key it) < 2 ^ 64 \<and> item_nkey it = word_of_nat (length (item_key it)) \<and>
     (case item_data it of None \<Rightarrow> item_size it = 0
      | Some d \<Rightarrow> item_size it \<noteq> 0 \<and> length d = unat (item_size it) \<and> length d < 2 ^ 63)"

lemma item_ok_cas [simp]: "item_ok (it\<lparr>item_cas := c\<rparr>) = item_ok it"
  by (simp add: item_ok_def split: option.split)

lemma same_key_ok:
  assumes "item_ok it" and "length key < 2 ^ 64"
  shows "same_key key it = Done (item_key it = key)"
proof -
  have "item_nkey it = word_of_nat (length key) \<longleftrightarrow> length (item_key it) = length key"
    using assms by (auto simp: item_ok_def word_of_nat_eq_iff take_bit_eq_mod)
  then show ?thesis by (auto simp: same_key_def)
qed

definition found_key :: "storage \<Rightarrow> bytes \<Rightarrow> nat \<Rightarrow> bool" where
  "found_key s key x \<longleftrightarrow> (case items s x of None \<Rightarrow> False | Some it \<Rightarrow> item_key it = key)"

lemma get_item_loop_find:
  assumes "seg (st_entries s) p ys (st_root s)" and "ys \<noteq> []" and "\<forall>y\<in>set (tl ys). Some y \<noteq> st_root s"
    and "\<forall>y\<in>set ys. \<exists>it. items s y = Some it \<and> item_ok it" and "length key < 2 ^ 64"
  shows "get_item_loop key s (Some (hd ys)) = returns (find (found_key s key) ys)"
  using assms(1-4)
proof (induction ys arbitrary: p)
  case (Cons y ys)
  from Cons.prems(1) obtain e where e: "st_entries s y = Some e" "le_next e = (case ys of [] \<Rightarrow> st_root s | z # _ \<Rightarrow> Some z)"
    and sg: "seg (st_entries s) y ys (st_root s)" by (auto split: option.splits)
  have "item_ok (le_item e)" using Cons.prems(4) e by (auto simp: items_def)
  then have same: "same_key key (le_item e) = Done (found_key s key y)"
    using assms(5) e by (simp add: same_key_ok found_key_def items_def)
  show ?case
  proof (cases ys)
    case Nil
    then show ?thesis using e same by (subst get_item_loop.simps) (simp add: entry_at_def)
  next
    case (Cons z zs)
    have "get_item_loop key s (Some (hd ys)) = returns (find (found_key s key) ys)"
      using Cons.IH [OF sg] Cons Cons.prems by auto
    then show ?thesis using e same Cons Cons.prems by (subst get_item_loop.simps) (simp add: entry_at_def)
  qed
qed simp

lemma get_item_find:
  assumes "ring s xs" and "\<forall>x\<in>set xs. \<exists>it. items s x = Some it \<and> item_ok it" and "length key < 2 ^ 64"
  shows "get_item key s = returns (find (found_key s key) xs)"
proof (cases xs)
  case Nil
  with assms show ?thesis by (simp add: get_item_def ring_def)
next
  case (Cons x ys)
  with assms have "seg (st_entries s) (last xs) xs (st_root s)" "\<forall>y\<in>set (tl xs). Some y \<noteq> st_root s" "st_root s = Some (hd xs)"
    by (auto simp: ring_def)
  with get_item_loop_find [of s "last xs" xs key] assms(2,3) Cons show ?thesis by (simp add: get_item_def)
qed

lemma flush_loop_frees:
  assumes "seg (st_entries s) p xs None" and "distinct xs" and "st_root s = (case xs of [] \<Rightarrow> None | x # _ \<Rightarrow> Some x)"
  shows "flush_loop s = returns (s\<lparr>st_root := None, st_entries := (\<lambda>x. if x \<in> set xs then None else st_entries s x)\<rparr>)"
  using assms
proof (induction xs arbitrary: s p)
  case Nil
  then show ?case by (subst flush_loop.simps) simp
next
  case (Cons x xs)
  then obtain e where e: "st_entries s x = Some e" "le_next e = (case xs of [] \<Rightarrow> None | y # _ \<Rightarrow> Some y)"
    by (auto split: option.splits)
  let ?s = "s\<lparr>st_root := le_next e, st_entries := (st_entries s)(x := None)\<rparr>"
  have sg: "seg ((st_entries s)(x := None)) x xs None" using Cons.prems by (subst seg_other) simp_all
  have "flush_loop s = flush_loop ?s"
    using Cons.prems e by (subst flush_loop.simps) (simp add: entry_at_def free_entry_def)
  also have "\<dots> = returns (?s\<lparr>st_root := None, st_entries := (\<lambda>y. if y \<in> set xs then None else st_entries ?s y)\<rparr>)"
  proof (rule Cons.IH [of ?s x])
    show "seg (st_entries ?s) x xs None" using sg by (cases s) (simp del: seg_other)
  qed (use Cons.prems(2) e(2) in simp_all)
  also have "\<dots> = returns (s\<lparr>st_root := None, st_entries := (\<lambda>y. if y \<in> set (x # xs) then None else st_entries s y)\<rparr>)"
    by (auto intro!: arg_cong [where f = "\<lambda>m. s\<lparr>st_root := None, st_entries := m\<rparr>"] simp: fun_eq_iff)
  finally show ?case .
qed

lemma flush_empties:
  assumes "ring s xs"
  obtains s' where "flush t s = returns s'" "ring s' []" "st_cas s' = st_cas s" "st_fresh s' = st_fresh s"
    "st_mallocs s' = st_mallocs s" "\<And>x. st_entries s x = None \<Longrightarrow> st_entries s' x = None"
proof (cases xs)
  case Nil
  with assms show ?thesis by (intro that [of s]) (auto simp: flush_def ring_def)
next
  case (Cons r rs)
  define l where "l = last xs"
  have sg: "seg (st_entries s) l xs (Some r)" and root: "st_root s = Some r" and d: "distinct xs"
    using assms Cons by (auto simp: ring_def l_def)
  have xs: "xs = butlast xs @ [l]" "l \<in> set xs" using Cons by (simp_all add: l_def)
  obtain er el where er: "st_entries s r = Some er" "le_prev er = Some l" and el: "st_entries s l = Some el"
    using sg Cons seg_entry [OF sg xs(2)] by (auto split: option.splits)
  let ?s = "s\<lparr>st_entries := (st_entries s)(l := Some (el\<lparr>le_next := None\<rparr>))\<rparr>"
  have "seg (st_entries ?s) l xs None"
    using seg_relink_last [of "st_entries s" l "butlast xs" l "Some r" el None] sg d el by (simp flip: xs(1))
  then have "flush_loop ?s = returns (?s\<lparr>st_root := None, st_entries := (\<lambda>x. if x \<in> set xs then None else st_entries ?s x)\<rparr>)"
    using d root Cons by (intro flush_loop_frees) auto
  then have "flush t s = returns (?s\<lparr>st_root := None, st_entries := (\<lambda>x. if x \<in> set xs then None else st_entries ?s x)\<rparr>)"
    using root er el by (simp add: flush_def entry_at_def write_entry_def)
  then show ?thesis by (rule that) (use xs(2) in \<open>auto simp: ring_def\<close>)
qed


subsection \<open>The storage as a map\<close>

text \<open>\<open>represents s m\<close>: the storage is a circular list of well-formed items with different keys, and \<open>m\<close> is the map of them.\<close>

definition holds :: "storage \<Rightarrow> nat list \<Rightarrow> (bytes \<rightharpoonup> item) \<Rightarrow> bool" where
  "holds s xs m \<longleftrightarrow> ring s xs \<and> (\<forall>x\<in>set xs. \<exists>it. items s x = Some it \<and> item_ok it \<and> m (item_key it) = Some it) \<and>
     (\<forall>x\<in>set xs. \<forall>y\<in>set xs. map_option item_key (items s x) = map_option item_key (items s y) \<longrightarrow> x = y) \<and>
     (\<forall>k it. m k = Some it \<longrightarrow> (\<exists>x\<in>set xs. items s x = Some it \<and> item_key it = k)) \<and>
     (\<forall>a\<ge>st_fresh s. st_entries s a = None) \<and> (\<forall>h\<in>set (st_mallocs s). heap_ok h)"

definition represents :: "storage \<Rightarrow> (bytes \<rightharpoonup> item) \<Rightarrow> bool" where
  "represents s m \<longleftrightarrow> (\<exists>xs. holds s xs m)"

lemma initial_storage_represents: "\<forall>h\<in>set mallocs. heap_ok h \<Longrightarrow> represents (initial_storage mallocs) Map.empty"
  by (auto simp: represents_def holds_def ring_def initial_storage_def items_def intro!: exI [of _ "[]"])

lemma holdsD:
  assumes "holds s xs m"
  shows "ring s xs" and "x \<in> set xs \<Longrightarrow> \<exists>it. items s x = Some it \<and> item_ok it \<and> m (item_key it) = Some it"
    and "x \<in> set xs \<Longrightarrow> y \<in> set xs \<Longrightarrow> map_option item_key (items s x) = map_option item_key (items s y) \<Longrightarrow> x = y"
    and "m k = Some it \<Longrightarrow> \<exists>x\<in>set xs. items s x = Some it \<and> item_key it = k"
    and "st_fresh s \<le> a \<Longrightarrow> st_entries s a = None" and "h \<in> set (st_mallocs s) \<Longrightarrow> heap_ok h"
  using assms unfolding holds_def by blast+

lemma holds_frame:
  assumes "holds s xs m" and "ring s' xs" and "\<And>x. x \<in> set xs \<Longrightarrow> items s' x = items s x"
    and "\<And>a. st_fresh s' \<le> a \<Longrightarrow> st_entries s' a = None" and "\<And>h. h \<in> set (st_mallocs s') \<Longrightarrow> heap_ok h"
  shows "holds s' xs m"
  using assms unfolding holds_def by simp

lemma holds_get:
  assumes "holds s xs m" and "length key < 2 ^ 64"
  shows "case m key of
      None \<Rightarrow> get_item key s = returns None
    | Some it \<Rightarrow> \<exists>a\<in>set xs. get_item key s = returns (Some a) \<and> items s a = Some it"
proof -
  have get: "get_item key s = returns (find (found_key s key) xs)"
    using assms by (intro get_item_find) (auto simp: holds_def)
  show ?thesis
  proof (cases "find (found_key s key) xs")
    case None
    have "m key \<noteq> Some it" for it
    proof
      assume "m key = Some it"
      then obtain x where "x \<in> set xs" "items s x = Some it" "item_key it = key" using holdsD(4) [OF assms(1)] by blast
      moreover have "\<not> found_key s key x" using None \<open>x \<in> set xs\<close> by (simp add: find_None_iff)
      ultimately show False by (simp add: found_key_def)
    qed
    then have "m key = None" by (metis option.exhaust)
    with get None show ?thesis by simp
  next
    case (Some a)
    then have a: "a \<in> set xs" "found_key s key a" by (auto simp: find_Some_iff)
    then obtain it where "items s a = Some it" "m (item_key it) = Some it" using holdsD(2) [OF assms(1)] by blast
    with get Some a show ?thesis by (auto simp: found_key_def)
  qed
qed

lemma get_item_represents:
  assumes "represents s m" and "length key < 2 ^ 64"
  shows "case m key of
      None \<Rightarrow> get_item key s = returns None
    | Some it \<Rightarrow> \<exists>a e. get_item key s = returns (Some a) \<and> st_entries s a = Some e \<and> le_item e = it"
proof -
  obtain xs where "holds s xs m" using assms(1) by (auto simp: represents_def)
  from holds_get [OF this assms(2)] show ?thesis by (cases "m key") (auto simp: items_def)
qed

lemma holds_delete:
  assumes h: "holds s xs m" and len: "length key < 2 ^ 64"
  obtains s' xs' where "delete_item key s = returns (m key \<noteq> None, s')" "holds s' xs' (m(key := None))" "set xs' \<subseteq> set xs"
    "\<And>x. x \<notin> set xs \<Longrightarrow> items s' x = items s x" "st_cas s' = st_cas s" "st_mallocs s' = st_mallocs s"
proof -
  show ?thesis
  proof (cases "m key")
    case None
    with holds_get [OF h len] have "delete_item key s = returns (False, s)" by (simp add: delete_item_def)
    with None h show ?thesis by (intro that [of s xs]) (auto simp: fun_upd_idem)
  next
    case (Some it)
    then obtain a where a: "a \<in> set xs" "get_item key s = returns (Some a)" "items s a = Some it"
      using holds_get [OF h len] by auto
    obtain ys zs where xs: "xs = ys @ a # zs" using a(1) by (metis split_list)
    have "ring s (ys @ a # zs)" using h xs by (simp add: holds_def)
    then obtain s' where s': "delete_item key s = returns (True, s')" "ring s' (zs @ ys)" "st_cas s' = st_cas s"
        "items s' = (items s)(a := None)" "st_fresh s' = st_fresh s" "st_mallocs s' = st_mallocs s"
      by (rule ring_remove) (auto simp: delete_item_def a(2))
    have key: "item_key it = key" using holdsD(4) [OF h Some] by blast
    have d: "distinct xs" using h by (simp add: holds_def ring_def)
    have "holds s' (zs @ ys) (m(key := None))"
      unfolding holds_def
    proof (intro conjI ballI allI impI)
      show "ring s' (zs @ ys)" by (rule s'(2))
    next
      fix x assume x: "x \<in> set (zs @ ys)"
      then have "x \<noteq> a" "x \<in> set xs" using d by (auto simp: xs)
      then obtain i where i: "items s x = Some i" "item_ok i" "m (item_key i) = Some i" using holdsD(2) [OF h] by blast
      have "item_key i \<noteq> key" using holdsD(3) [OF h \<open>x \<in> set xs\<close> a(1)] i(1) a(3) key \<open>x \<noteq> a\<close> by auto
      with i \<open>x \<noteq> a\<close> show "\<exists>it. items s' x = Some it \<and> item_ok it \<and> (m(key := None)) (item_key it) = Some it"
        by (simp add: s'(4))
    next
      fix x y assume "x \<in> set (zs @ ys)" "y \<in> set (zs @ ys)" "map_option item_key (items s' x) = map_option item_key (items s' y)"
      then show "x = y" using holdsD(3) [OF h, of x y] d by (auto simp: xs s'(4) split: if_splits)
    next
      fix k i assume "(m(key := None)) k = Some i"
      then obtain x where "x \<in> set xs" "items s x = Some i" "item_key i = k" "k \<noteq> key"
        using holdsD(4) [OF h, of k i] by (auto split: if_splits)
      moreover have "x \<noteq> a" using calculation a(3) key by auto
      ultimately show "\<exists>x\<in>set (zs @ ys). items s' x = Some i \<and> item_key i = k" by (intro bexI [of _ x]) (auto simp: xs s'(4))
    next
      fix b assume "st_fresh s' \<le> b"
      then have "items s' b = None" using holdsD(5) [OF h, of b] s'(5) by (simp add: s'(4)) (simp add: items_def)
      then show "st_entries s' b = None" by (simp add: items_def)
    next
      fix h' assume "h' \<in> set (st_mallocs s')"
      then show "heap_ok h'" using holdsD(6) [OF h] s'(6) by simp
    qed
    with s' Some show ?thesis by (intro that [of s' "zs @ ys"]) (auto simp: xs)
  qed
qed

lemma delete_item_represents:
  assumes "represents s m" and "length key < 2 ^ 64"
  obtains s' where "delete_item key s = returns (m key \<noteq> None, s')" "represents s' (m(key := None))"
    "st_cas s' = st_cas s" "st_mallocs s' = st_mallocs s"
proof -
  obtain xs where "holds s xs m" using assms(1) by (auto simp: represents_def)
  then show ?thesis by (rule holds_delete [OF _ assms(2)]) (rule that, assumption, auto simp: represents_def)
qed

lemma flush_represents:
  assumes "represents s m"
  obtains s' where "flush t s = returns s'" "represents s' Map.empty" "st_cas s' = st_cas s"
proof -
  obtain xs where h: "holds s xs m" using assms by (auto simp: represents_def)
  from flush_empties [OF holdsD(1) [OF this], of t] obtain s' where s': "flush t s = returns s'" "ring s' []" "st_cas s' = st_cas s" "st_fresh s' = st_fresh s"
      "st_mallocs s' = st_mallocs s" "\<And>x. st_entries s x = None \<Longrightarrow> st_entries s' x = None"
    by blast
  then have "holds s' [] Map.empty" using h by (auto simp: holds_def)
  with s' show ?thesis by (intro that [of s']) (auto simp: represents_def)
qed


text \<open>An item that has been created and is not in the list yet.\<close>

definition aside :: "storage \<Rightarrow> nat \<Rightarrow> item \<Rightarrow> (bytes \<rightharpoonup> item) \<Rightarrow> bool" where
  "aside s a it m \<longleftrightarrow> (\<exists>xs. holds s xs m \<and> a \<notin> set xs \<and> items s a = Some it)"

lemma create_item_cases:
  assumes "represents s m" and "\<And>d. data = Some d \<Longrightarrow> length d = unat len"
  obtains (failed) s' where "create_item key data len flags exp s = Done (None, s')" "represents s' m" "st_cas s' = st_cas s"
      "st_mallocs s' = tl (st_mallocs s)" "item_heap s list_entry_size = None \<or> item_heap s (length key) = None \<or> len \<noteq> 0 \<and> item_heap s (unat len) = None"
    | (created) s' a obj where "create_item key data len flags exp s = Done (Some a, s')" "st_cas s' = st_cas s"
      "aside s' a \<lparr>item_cas = 0, item_key = key, item_nkey = word_of_nat (length key), item_data = obj, item_size = len,
         item_flags = flags, item_exp = exp\<rparr> m"
      "case obj of None \<Rightarrow> len = 0 | Some b \<Rightarrow> len \<noteq> 0 \<and> length b = unat len \<and> length b < 2 ^ 63"
      "item_heap s list_entry_size \<noteq> None" "item_heap s (length key) \<noteq> None" "len \<noteq> 0 \<Longrightarrow> item_heap s (unat len) \<noteq> None"
      "st_mallocs s' = tl (st_mallocs s)"
      "\<And>d. data = Some d \<Longrightarrow> obj = (if d = [] then None else Some d)"
proof -
  obtain xs where h: "holds s xs m" using assms(1) by (auto simp: represents_def)
  let ?s = "s\<lparr>st_mallocs := tl (st_mallocs s)\<rparr>"
  have heap: "heap_ok (item_heap s)"
    using holdsD(6) [OF h] by (cases "st_mallocs s") (auto simp: item_heap_def heap_ok_def)
  have s1: "holds ?s xs m"
    using h by (cases "st_mallocs s") (auto simp: holds_def ring_def items_def)
  show ?thesis
  proof (cases "item_heap s list_entry_size = None \<or> item_heap s (length key) = None \<or> len \<noteq> 0 \<and> item_heap s (unat len) = None")
    case True
    then have "create_item key data len flags exp s = Done (None, ?s)"
      by (auto simp: create_item_def Let_def word_gt_0 split: option.splits)
    with True s1 show ?thesis by (intro failed [of ?s]) (auto simp: represents_def)
  next
    case False
    define obj where "obj = (if len = 0 then None else case data of None \<Rightarrow> item_heap s (unat len) | Some d \<Rightarrow> Some d)"
    define e where "e = \<lparr>le_item = \<lparr>item_cas = 0, item_key = key, item_nkey = word_of_nat (length key), item_data = obj, item_size = len,
         item_flags = flags, item_exp = exp\<rparr>, le_next = None, le_prev = None\<rparr>"
    let ?s' = "?s\<lparr>st_fresh := Suc (st_fresh s), st_entries := (st_entries s)(st_fresh s := Some e)\<rparr>"
    have len: "item_heap s (unat len) = Some b \<Longrightarrow> length b = unat len" "item_heap s (unat len) = Some b \<Longrightarrow> unat len < 2 ^ 63" for b
      using heap by (auto simp: heap_ok_def)
    have "create_item key data len flags exp s = Done (Some (st_fresh s), ?s')"
      using False assms(2) len
      by (auto simp: create_item_def Let_def word_gt_0 obj_def e_def store_at_def memcpy_at_full split: option.splits)
    moreover have "aside ?s' (st_fresh s) (le_item e) m"
    proof -
      have new: "st_fresh s \<notin> set xs" using holdsD(2,5) [OF h] by (force simp: items_def)
      have "items ?s' = (items s)(st_fresh s := Some (le_item e))" by (auto simp: items_def fun_eq_iff)
      moreover have "ring ?s' xs" using holdsD(1) [OF h] new by (simp add: ring_def)
      ultimately have "holds ?s' xs m"
        using new holdsD(5,6) [OF s1] by (intro holds_frame [OF s1]) (auto simp: items_def)
      with new show ?thesis by (auto simp: aside_def items_def)
    qed
    moreover have "case obj of None \<Rightarrow> len = 0 | Some b \<Rightarrow> len \<noteq> 0 \<and> length b = unat len \<and> length b < 2 ^ 63"
      using False assms(2) len by (auto simp: obj_def split: option.splits)
    moreover have "data = Some d \<Longrightarrow> obj = (if d = [] then None else Some d)" for d
      using assms(2) [of d] by (auto simp: obj_def unat_eq_0)
    ultimately show ?thesis by (intro created [of "st_fresh s" ?s' obj]) (use False in \<open>simp_all add: e_def\<close>)
  qed
qed

lemma aside_write:
  assumes "aside s a it m"
  obtains s' where "write_entry (Some a) (\<lambda>e. e\<lparr>le_item := g (le_item e)\<rparr>) s = Done s'" "aside s' a (g it) m" "st_cas s' = st_cas s"
    "st_mallocs s' = st_mallocs s"
proof -
  obtain xs e where h: "holds s xs m" "a \<notin> set xs" "st_entries s a = Some e" "le_item e = it"
    using assms by (auto simp: aside_def items_def)
  let ?s = "s\<lparr>st_entries := (st_entries s)(a := Some (e\<lparr>le_item := g it\<rparr>))\<rparr>"
  have "items ?s = (items s)(a := Some (g it))" by (auto simp: items_def fun_eq_iff)
  moreover have "ring ?s xs" using holdsD(1) [OF h(1)] h(2) by (simp add: ring_def)
  moreover have "st_fresh s \<le> b \<Longrightarrow> b \<noteq> a" for b using holdsD(5) [OF h(1)] h(3) by force
  ultimately have "holds ?s xs m" using h(2) holdsD(5,6) [OF h(1)] by (intro holds_frame [OF h(1)]) auto
  then have "aside ?s a (g it) m" using h(2) unfolding aside_def by (intro exI [of _ xs]) (simp add: items_def)
  moreover have "write_entry (Some a) (\<lambda>e. e\<lparr>le_item := g (le_item e)\<rparr>) s = Done ?s" using h by (simp add: write_entry_def)
  ultimately show ?thesis by (intro that [of ?s]) simp_all
qed

lemma aside_delete:
  assumes "aside s a it m" and "length key < 2 ^ 64"
  obtains s' where "delete_item key s = returns (m key \<noteq> None, s')" "aside s' a it (m(key := None))"
    "st_cas s' = st_cas s" "st_mallocs s' = st_mallocs s"
proof -
  obtain xs where h: "holds s xs m" "a \<notin> set xs" "items s a = Some it" using assms by (auto simp: aside_def)
  from holds_delete [OF h(1) assms(2)] obtain s' xs' where s': "delete_item key s = returns (m key \<noteq> None, s')"
    "holds s' xs' (m(key := None))" "set xs' \<subseteq> set xs" "\<And>x. x \<notin> set xs \<Longrightarrow> items s' x = items s x"
    "st_cas s' = st_cas s" "st_mallocs s' = st_mallocs s" by blast
  moreover have "aside s' a it (m(key := None))" using s' h unfolding aside_def by (intro exI [of _ xs']) auto
  ultimately show ?thesis by (intro that)
qed

lemma aside_put:
  assumes "aside s a it m" and "item_ok it" and "m (item_key it) = None"
  obtains s' where "put_item a s = Done s'" "represents s' (m(item_key it := Some (it\<lparr>item_cas := st_cas s + 1\<rparr>)))"
    "st_cas s' = st_cas s + 1" "st_mallocs s' = st_mallocs s" "\<exists>e. st_entries s' a = Some e \<and> le_item e = it\<lparr>item_cas := st_cas s + 1\<rparr>"
proof -
  obtain xs e where h: "holds s xs m" "a \<notin> set xs" "st_entries s a = Some e" "le_item e = it"
    using assms by (auto simp: aside_def items_def)
  let ?it = "it\<lparr>item_cas := st_cas s + 1\<rparr>" and ?m = "m(item_key it := Some (it\<lparr>item_cas := st_cas s + 1\<rparr>))"
  obtain s' where s': "put_item a s = Done s'" "ring s' (a # xs)" "st_cas s' = st_cas s + 1" "items s' = (items s)(a := Some ?it)"
    "st_fresh s' = st_fresh s" "st_mallocs s' = st_mallocs s" "\<And>x. st_entries s' x = None \<longleftrightarrow> st_entries s x = None"
    by (rule ring_insert [OF holdsD(1) [OF h(1)] h(3,2)]) (simp add: h(4))
  have other: "\<exists>i. items s x = Some i \<and> item_ok i \<and> m (item_key i) = Some i \<and> item_key i \<noteq> item_key it" if "x \<in> set xs" for x
    using holdsD(2) [OF h(1) that] assms(3) by force
  have "holds s' (a # xs) ?m"
    unfolding holds_def
  proof (intro conjI ballI allI impI)
    fix x assume "x \<in> set (a # xs)"
    then show "\<exists>i. items s' x = Some i \<and> item_ok i \<and> ?m (item_key i) = Some i"
      using other [of x] assms(2) h(2) by (auto simp: s'(4))
  next
    fix x y assume "x \<in> set (a # xs)" "y \<in> set (a # xs)" "map_option item_key (items s' x) = map_option item_key (items s' y)"
    then show "x = y" using other [of x] other [of y] holdsD(3) [OF h(1), of x y] h(2) by (auto simp: s'(4) split: if_splits)
  next
    fix k i assume "?m k = Some i"
    then show "\<exists>x\<in>set (a # xs). items s' x = Some i \<and> item_key i = k"
      using holdsD(4) [OF h(1), of k i] h(2) by (auto simp: s'(4) split: if_splits)
  next
    fix b assume "st_fresh s' \<le> b"
    then show "st_entries s' b = None" using holdsD(5) [OF h(1)] s'(5,7) by simp
  next
    fix h' assume "h' \<in> set (st_mallocs s')"
    then show "heap_ok h'" using holdsD(6) [OF h(1)] s'(6) by simp
  qed (rule s'(2))
  moreover have "\<exists>e. st_entries s' a = Some e \<and> le_item e = ?it"
    using fun_cong [OF s'(4), of a] by (auto simp: items_def)
  ultimately show ?thesis using s' by (intro that [of s']) (auto simp: represents_def)
qed

end
