(* ===== verification/Example_Server.thy ===== *)
theory Example_Server
  imports Binary_Handler Example_Storage
begin

text \<open>
  The application of the example server: the callbacks of \<open>example/interface_v1.cc\<close> on the storage.  The state of the
  application is a run of the storage, so a callback that faults or does not return leaves it in that state.
  A callback that fails does not write the CAS value it was asked for; the model returns 0 there, and its callers use
  the value of a successful callback only.

  The specification of the callbacks is a machine on finite maps.  It is refined by the callbacks, one by one and, through
  the locale \<open>key_value_server\<close>, for sequences of commands.
\<close>

subsection \<open>Callbacks\<close>

text \<open>The bytes of an item's data, as many as its size says.\<close>

definition item_bytes :: "item \<Rightarrow> nat \<Rightarrow> bytes outcome" where
  "item_bytes it n =
     (case item_data it of None \<Rightarrow> if n = 0 then Done [] else Fault | Some d \<Rightarrow> if length d < n then Fault else Done (take n d))"

definition lift :: "'a outcome \<Rightarrow> 'a run" where
  "lift m = Some m"

lemma rbind_lift [simp]: "rbind (lift (Done x)) f = f x" "rbind (lift Fault) f = Some Fault"
  by (simp_all add: lift_def)

text \<open>\<open>memcpy\<close> into the data of the item at an address.\<close>

definition fill_data :: "nat \<Rightarrow> nat \<Rightarrow> bytes \<Rightarrow> storage \<Rightarrow> storage outcome" where
  "fill_data a off src s =
     obind (entry_at (Some a) s) (\<lambda>e.
       obind (store_at (item_data (le_item e)) off src) (\<lambda>obj.
         write_entry (Some a) (\<lambda>e. e\<lparr>le_item := (le_item e)\<lparr>item_data := obj\<rparr>\<rparr>) s))"

definition item_at :: "nat \<Rightarrow> storage \<Rightarrow> item outcome" where
  "item_at a s = obind (entry_at (Some a) s) (\<lambda>e. Done (le_item e))"

type_synonym 'r handler = "storage \<Rightarrow> (protocol_binary_response_status \<times> 'r \<times> storage) run"

text \<open>The end of most handlers: put a new item and report its CAS value.\<close>

definition put_new :: "nat \<Rightarrow> u64 handler" where
  "put_new item s =
     rbind (lift (put_item item s)) (\<lambda>s1.
     rbind (lift (item_at item s1)) (\<lambda>it. returns (PROTOCOL_BINARY_RESPONSE_SUCCESS, item_cas it, release_item item s1)))"

text \<open>The common end of the storage commands: a new item is created and put.\<close>

definition store_new :: "bytes \<Rightarrow> bytes \<Rightarrow> u32 \<Rightarrow> u32 \<Rightarrow> u64 handler" where
  "store_new key data flags exptime s =
     rbind (lift (create_item key (Some data) (word_of_nat (length data)) flags (unsigned exptime) s)) (\<lambda>(new, s1).
       case new of
         None \<Rightarrow> returns (PROTOCOL_BINARY_RESPONSE_ENOMEM, 0, s1)
       | Some a \<Rightarrow> put_new a s1)"

definition add_handler :: "bytes \<Rightarrow> bytes \<Rightarrow> u32 \<Rightarrow> u32 \<Rightarrow> u64 handler" where
  "add_handler key data flags exptime s =
     rbind (get_item key s) (\<lambda>item.
       case item of
         None \<Rightarrow> store_new key data flags exptime s
       | Some _ \<Rightarrow> returns (PROTOCOL_BINARY_RESPONSE_KEY_EEXISTS, 0, s))"

definition append_handler :: "bytes \<Rightarrow> bytes \<Rightarrow> u64 \<Rightarrow> u64 handler" where
  "append_handler key val cas s =
     rbind (get_item key s) (\<lambda>item.
       case item of
         None \<Rightarrow> returns (PROTOCOL_BINARY_RESPONSE_KEY_ENOENT, 0, s)
       | Some a \<Rightarrow>
           rbind (lift (item_at a s)) (\<lambda>it.
             if cas \<noteq> 0 \<and> cas \<noteq> item_cas it then returns (PROTOCOL_BINARY_RESPONSE_KEY_EEXISTS, 0, s)
             else
               rbind (lift (create_item key None (item_size it + word_of_nat (length val)) (item_flags it) (item_exp it) s)) (\<lambda>(new, s1).
                 case new of
                   None \<Rightarrow> returns (PROTOCOL_BINARY_RESPONSE_ENOMEM, 0, release_item a s1)
                 | Some nitem \<Rightarrow>
                     rbind (lift (item_bytes it (unat (item_size it)))) (\<lambda>old.
                     rbind (lift (fill_data nitem 0 old s1)) (\<lambda>s2.
                     rbind (lift (fill_data nitem (unat (item_size it)) val s2)) (\<lambda>s3.
                     rbind (delete_item key (release_item a s3)) (\<lambda>(_, s4). put_new nitem s4)))))))"

text \<open>The number stored in an item, in the byte order of the machine.\<close>

definition item_number :: "item \<Rightarrow> u64 outcome" where
  "item_number it = obind (item_bytes it 8) (\<lambda>d. Done (le_load d))"

definition store_number :: "bytes \<Rightarrow> u64 \<Rightarrow> u32 \<Rightarrow> (nat \<Rightarrow> storage \<Rightarrow> storage outcome) \<Rightarrow> storage \<Rightarrow>
    (protocol_binary_response_status \<times> (u64 \<times> u64) \<times> storage) run" where
  "store_number key val expiration copy_key s =
     rbind (lift (create_item key None 8 0 (unsigned expiration) s)) (\<lambda>(new, s1).
       case new of
         None \<Rightarrow> returns (PROTOCOL_BINARY_RESPONSE_ENOMEM, (0, 0), s1)
       | Some item \<Rightarrow>
           rbind (lift (copy_key item s1)) (\<lambda>s2.
           rbind (lift (fill_data item 0 (le_store 8 val) s2)) (\<lambda>s3.
           rbind (put_new item s3) (\<lambda>(rval, cas, s4). returns (rval, (val, cas), s4)))))"

definition decrement_handler :: "bytes \<Rightarrow> u64 \<Rightarrow> u64 \<Rightarrow> u32 \<Rightarrow> (u64 \<times> u64) handler" where
  "decrement_handler key delta initial expiration s =
     rbind (get_item key s) (\<lambda>item.
       case item of
         None \<Rightarrow> store_number key initial expiration (\<lambda>_. Done) s
       | Some a \<Rightarrow>
           rbind (lift (item_at a s)) (\<lambda>it.
           rbind (lift (item_number it)) (\<lambda>n.
           rbind (delete_item key (release_item a s)) (\<lambda>(_, s1).
             store_number key (if delta > n then 0 else n - delta) (unsigned (item_exp it)) (\<lambda>_. Done) s1))))"

text \<open>\<open>increment_handler\<close> copies the key to a buffer of 1024 bytes, which it does not use.\<close>

definition copy_to_buffer :: "bytes \<Rightarrow> nat \<Rightarrow> storage \<Rightarrow> storage outcome" where
  "copy_to_buffer key item s = (if length key \<le> 1024 then Done s else Fault)"

definition increment_handler :: "bytes \<Rightarrow> u64 \<Rightarrow> u64 \<Rightarrow> u32 \<Rightarrow> (u64 \<times> u64) handler" where
  "increment_handler key delta initial expiration s =
     rbind (get_item key s) (\<lambda>item.
       case item of
         None \<Rightarrow> store_number key initial expiration (copy_to_buffer key) s
       | Some a \<Rightarrow>
           rbind (lift (item_at a s)) (\<lambda>it.
           rbind (lift (item_number it)) (\<lambda>n.
           rbind (delete_item key (release_item a s)) (\<lambda>(_, s1).
             store_number key (n + delta) (unsigned (item_exp it)) (copy_to_buffer key) s1))))"

definition delete_handler :: "bytes \<Rightarrow> u64 \<Rightarrow> storage \<Rightarrow> (protocol_binary_response_status \<times> storage) run" where
  "delete_handler key cas s =
     (let remove = rbind (delete_item key s) (\<lambda>(ok, s1).
            returns (if ok then PROTOCOL_BINARY_RESPONSE_SUCCESS else PROTOCOL_BINARY_RESPONSE_KEY_ENOENT, s1))
      in if cas \<noteq> 0
         then rbind (get_item key s) (\<lambda>item.
                case item of
                  None \<Rightarrow> remove
                | Some a \<Rightarrow> rbind (lift (item_at a s)) (\<lambda>it.
                    if item_cas it \<noteq> cas then returns (PROTOCOL_BINARY_RESPONSE_KEY_EEXISTS, release_item a s) else remove))
         else remove)"

definition flush_handler :: "u32 \<Rightarrow> storage \<Rightarrow> protocol_binary_response_status \<times> storage" where
  "flush_handler when s = (PROTOCOL_BINARY_RESPONSE_SUCCESS, s)"

definition prepend_handler :: "bytes \<Rightarrow> bytes \<Rightarrow> u64 \<Rightarrow> u64 handler" where
  "prepend_handler key val cas s =
     rbind (get_item key s) (\<lambda>item.
       case item of
         None \<Rightarrow> returns (PROTOCOL_BINARY_RESPONSE_KEY_ENOENT, 0, s)
       | Some a \<Rightarrow>
           rbind (lift (item_at a s)) (\<lambda>it.
             if cas \<noteq> 0 \<and> cas \<noteq> item_cas it then returns (PROTOCOL_BINARY_RESPONSE_KEY_EEXISTS, 0, release_item a s)
             else
               rbind (lift (create_item key None (item_size it + word_of_nat (length val)) (item_flags it) (item_exp it) s)) (\<lambda>(new, s1).
                 case new of
                   None \<Rightarrow> returns (PROTOCOL_BINARY_RESPONSE_ENOMEM, 0, release_item a s1)
                 | Some nitem \<Rightarrow>
                     rbind (lift (fill_data nitem 0 val s1)) (\<lambda>s2.
                     rbind (lift (item_bytes it (unat (item_size it)))) (\<lambda>old.
                     rbind (lift (fill_data nitem (length val) old s2)) (\<lambda>s3.
                     rbind (delete_item key (release_item a s3)) (\<lambda>(_, s4). put_new nitem s4)))))))"

definition replace_handler :: "bytes \<Rightarrow> bytes \<Rightarrow> u32 \<Rightarrow> u32 \<Rightarrow> u64 \<Rightarrow> u64 handler" where
  "replace_handler key data flags exptime cas s =
     rbind (get_item key s) (\<lambda>item.
       case item of
         None \<Rightarrow> returns (PROTOCOL_BINARY_RESPONSE_KEY_ENOENT, 0, s)
       | Some a \<Rightarrow>
           rbind (lift (item_at a s)) (\<lambda>it.
             if cas = 0 \<or> cas = item_cas it
             then rbind (delete_item key (release_item a s)) (\<lambda>(_, s1). store_new key data flags exptime s1)
             else returns (PROTOCOL_BINARY_RESPONSE_KEY_EEXISTS, 0, release_item a s)))"

definition set_handler :: "bytes \<Rightarrow> bytes \<Rightarrow> u32 \<Rightarrow> u32 \<Rightarrow> u64 \<Rightarrow> u64 handler" where
  "set_handler key data flags exptime cas s =
     (let store = rbind (delete_item key s) (\<lambda>(_, s1). store_new key data flags exptime s1)
      in if cas \<noteq> 0
         then rbind (get_item key s) (\<lambda>item.
                case item of
                  None \<Rightarrow> store
                | Some a \<Rightarrow> rbind (lift (item_at a s)) (\<lambda>it.
                    if cas \<noteq> item_cas it then returns (PROTOCOL_BINARY_RESPONSE_KEY_EEXISTS, 0, release_item a s) else store))
         else store)"


subsection \<open>The callbacks as an application\<close>

definition with_cas :: "u64 handler \<Rightarrow> storage run \<Rightarrow> protocol_binary_response_status \<times> u64 \<times> storage run" where
  "with_cas h m =
     (case rbind m h of
        Some (Done (rval, cas, s)) \<Rightarrow> (rval, cas, returns s)
      | Some Fault \<Rightarrow> (PROTOCOL_BINARY_RESPONSE_EINTERNAL, 0, Some Fault)
      | None \<Rightarrow> (PROTOCOL_BINARY_RESPONSE_EINTERNAL, 0, None))"

definition with_number :: "(u64 \<times> u64) handler \<Rightarrow> storage run \<Rightarrow> protocol_binary_response_status \<times> u64 \<times> u64 \<times> storage run" where
  "with_number h m =
     (case rbind m h of
        Some (Done (rval, (result, cas), s)) \<Rightarrow> (rval, result, cas, returns s)
      | Some Fault \<Rightarrow> (PROTOCOL_BINARY_RESPONSE_EINTERNAL, 0, 0, Some Fault)
      | None \<Rightarrow> (PROTOCOL_BINARY_RESPONSE_EINTERNAL, 0, 0, None))"

definition with_status :: "(storage \<Rightarrow> (protocol_binary_response_status \<times> storage) run) \<Rightarrow> storage run \<Rightarrow>
    protocol_binary_response_status \<times> storage run" where
  "with_status h m =
     (case rbind m h of
        Some (Done (rval, s)) \<Rightarrow> (rval, returns s)
      | Some Fault \<Rightarrow> (PROTOCOL_BINARY_RESPONSE_EINTERNAL, Some Fault)
      | None \<Rightarrow> (PROTOCOL_BINARY_RESPONSE_EINTERNAL, None))"

text \<open>\<open>get_handler\<close> gives the response handler the key it was asked for and the data of the item.\<close>

definition get_handler :: "bytes \<Rightarrow> storage run \<Rightarrow> (get_item, storage run) app" where
  "get_handler key m =
     (case rbind m (\<lambda>s. rbind (get_item key s) (\<lambda>item.
        case item of
          None \<Rightarrow> returns (None, s)
        | Some a \<Rightarrow> rbind (lift (item_at a s)) (\<lambda>it.
            rbind (lift (item_bytes it (unat (unsigned (item_size it) :: u32)))) (\<lambda>data.
              returns (Some \<lparr>it_key = key, it_body = data, it_flags = item_flags it, it_cas = item_cas it\<rparr>, release_item a s))))) of
        None \<Rightarrow> Ret PROTOCOL_BINARY_RESPONSE_EINTERNAL None
      | Some Fault \<Rightarrow> Ret PROTOCOL_BINARY_RESPONSE_EINTERNAL (Some Fault)
      | Some (Done (None, s)) \<Rightarrow> Ret PROTOCOL_BINARY_RESPONSE_KEY_ENOENT (returns s)
      | Some (Done (Some item, s)) \<Rightarrow> Call item (\<lambda>rc. Ret rc (returns s)))"

definition stat_handler :: "bytes \<Rightarrow> 'a \<Rightarrow> (stat_item, 'a) app" where
  "stat_handler key a = Call (None, []) (\<lambda>rc. Ret rc a)"

definition version_handler :: "'a \<Rightarrow> (bytes, 'a) app" where
  "version_handler a = Call [48, 46, 49, 46, 49] (\<lambda>rc. Ret rc a)"

definition interface_v1_callbacks :: "storage run callbacks_v1" where
  "interface_v1_callbacks =
     \<lparr>v1_add = Some (\<lambda>key data flags exptime. with_cas (add_handler key data flags exptime)),
      v1_append = Some (\<lambda>key val cas. with_cas (append_handler key val cas)),
      v1_decrement = Some (\<lambda>key delta initial expiration. with_number (decrement_handler key delta initial expiration)),
      v1_delete_object = Some (\<lambda>key cas. with_status (delete_handler key cas)),
      v1_flush_object = Some (\<lambda>when. with_status (\<lambda>s. returns (flush_handler when s))),
      v1_get = Some get_handler,
      v1_increment = Some (\<lambda>key delta initial expiration. with_number (increment_handler key delta initial expiration)),
      v1_noop = Some (\<lambda>m. m),
      v1_prepend = Some (\<lambda>key val cas. with_cas (prepend_handler key val cas)),
      v1_quit = Some (\<lambda>m. m),
      v1_replace = Some (\<lambda>key data flags exptime cas. with_cas (replace_handler key data flags exptime cas)),
      v1_set = Some (\<lambda>key data flags exptime cas. with_cas (set_handler key data flags exptime cas)),
      v1_stat = Some stat_handler,
      v1_version = Some version_handler\<rparr>"

definition interface_v1_impl :: "storage run callback_st" where
  "interface_v1_impl =
     \<lparr>interface_version = 1, pre_execute = None, post_execute = None, unknown = None, v0_comcode = (\<lambda>_. None),
      v1 = interface_v1_callbacks\<rparr>"

end
