(* ===== verification/Example_Refinement.thy ===== *)
theory Example_Refinement
  imports Example_Server
begin

text \<open>
  The example server refines a machine on finite maps.  The locale \<open>key_value_server\<close> is the contract of a server that
  executes commands one at a time; the callbacks of \<open>interface_v1.cc\<close> fulfil it.
\<close>

subsection \<open>Specification\<close>

datatype command =
    Set bytes bytes u32 u32 u64
  | Add bytes bytes u32 u32
  | Replace bytes bytes u32 u32 u64
  | Append bytes bytes u64
  | Prepend bytes bytes u64
  | Delete bytes u64
  | Increment bytes u64 u64 u32
  | Decrement bytes u64 u64 u32
  | Get bytes
  | Flush u32

datatype reply = Nothing | Cas u64 | Number u64 u64 | Found get_item

text \<open>The state of the specification: the map, the last CAS value and the script of the allocator.\<close>

type_synonym spec = "(bytes \<rightharpoonup> item) \<times> u64 \<times> heap list"

definition new_item :: "bytes \<Rightarrow> bytes \<Rightarrow> u32 \<Rightarrow> u64 \<Rightarrow> u64 \<Rightarrow> item" where
  "new_item key data flags exp cas =
     \<lparr>item_cas = cas, item_key = key, item_nkey = word_of_nat (length key),
      item_data = (if data = [] then None else Some data), item_size = word_of_nat (length data), item_flags = flags, item_exp = exp\<rparr>"

definition item_value :: "item \<Rightarrow> bytes" where
  "item_value it = (case item_data it of None \<Rightarrow> [] | Some d \<Rightarrow> d)"

definition room :: "heap list \<Rightarrow> bytes \<Rightarrow> nat \<Rightarrow> bool" where
  "room hs key n =
     (case hs of [] \<Rightarrow> False | h # _ \<Rightarrow> h list_entry_size \<noteq> None \<and> h (length key) \<noteq> None \<and> (n \<noteq> 0 \<longrightarrow> h n \<noteq> None))"

definition spec_store :: "bytes \<Rightarrow> bytes \<Rightarrow> u32 \<Rightarrow> u64 \<Rightarrow> spec \<Rightarrow> (protocol_binary_response_status \<times> u64) \<times> spec" where
  "spec_store key data flags exp \<sigma> =
     (case \<sigma> of (m, n, hs) \<Rightarrow>
        if room hs key (length data)
        then ((PROTOCOL_BINARY_RESPONSE_SUCCESS, n + 1), (m(key := Some (new_item key data flags exp (n + 1))), n + 1, tl hs))
        else ((PROTOCOL_BINARY_RESPONSE_ENOMEM, 0), (m, n, tl hs)))"

text \<open>Forgetting a key.\<close>

definition drop_key :: "bytes \<Rightarrow> spec \<Rightarrow> spec" where
  "drop_key key \<sigma> = (case \<sigma> of (m, n, hs) \<Rightarrow> (m(key := None), n, hs))"

definition spec_item :: "bytes \<Rightarrow> spec \<Rightarrow> item option" where
  "spec_item key \<sigma> = fst \<sigma> key"

definition with_cas_reply :: "(protocol_binary_response_status \<times> u64) \<times> spec \<Rightarrow> (protocol_binary_response_status \<times> reply) \<times> spec" where
  "with_cas_reply r = (case r of ((rval, cas), \<sigma>) \<Rightarrow> ((rval, Cas cas), \<sigma>))"

text \<open>A number is stored as eight bytes with flags 0; the old expiration stays.\<close>

definition spec_number :: "(u64 \<Rightarrow> u64) \<Rightarrow> bytes \<Rightarrow> u64 \<Rightarrow> u32 \<Rightarrow> spec \<Rightarrow> ((protocol_binary_response_status \<times> reply) \<times> spec) option" where
  "spec_number f key initial exp \<sigma> =
     (let store = (\<lambda>n exp' \<sigma>'. case spec_store key (le_store 8 n) 0 exp' \<sigma>' of ((rval, cas), \<sigma>'') \<Rightarrow>
            ((rval, if rval = PROTOCOL_BINARY_RESPONSE_SUCCESS then Number n cas else Number 0 0), \<sigma>''))
      in case spec_item key \<sigma> of
           None \<Rightarrow> Some (store initial (unsigned exp) \<sigma>)
         | Some it \<Rightarrow>
             if length (item_value it) < 8 then None
             else Some (store (f (le_load (take 8 (item_value it)))) (unsigned (unsigned (item_exp it) :: u32)) (drop_key key \<sigma>)))"

text \<open>The commands; \<^const>\<open>None\<close> where the code may do anything.\<close>

fun spec_step :: "command \<Rightarrow> spec \<Rightarrow> ((protocol_binary_response_status \<times> reply) \<times> spec) option" where
  "spec_step (Set key data flags exp cas) \<sigma> =
     Some (if cas \<noteq> 0 \<and> (case spec_item key \<sigma> of None \<Rightarrow> False | Some it \<Rightarrow> cas \<noteq> item_cas it)
           then ((PROTOCOL_BINARY_RESPONSE_KEY_EEXISTS, Cas 0), \<sigma>)
           else with_cas_reply (spec_store key data flags (unsigned exp) (drop_key key \<sigma>)))"
| "spec_step (Add key data flags exp) \<sigma> =
     Some (if spec_item key \<sigma> \<noteq> None then ((PROTOCOL_BINARY_RESPONSE_KEY_EEXISTS, Cas 0), \<sigma>)
           else with_cas_reply (spec_store key data flags (unsigned exp) \<sigma>))"
| "spec_step (Replace key data flags exp cas) \<sigma> =
     Some (case spec_item key \<sigma> of
             None \<Rightarrow> ((PROTOCOL_BINARY_RESPONSE_KEY_ENOENT, Cas 0), \<sigma>)
           | Some it \<Rightarrow>
               if cas = 0 \<or> cas = item_cas it then with_cas_reply (spec_store key data flags (unsigned exp) (drop_key key \<sigma>))
               else ((PROTOCOL_BINARY_RESPONSE_KEY_EEXISTS, Cas 0), \<sigma>))"
| "spec_step (Append key val cas) \<sigma> =
     Some (case spec_item key \<sigma> of
             None \<Rightarrow> ((PROTOCOL_BINARY_RESPONSE_KEY_ENOENT, Cas 0), \<sigma>)
           | Some it \<Rightarrow>
               if cas \<noteq> 0 \<and> cas \<noteq> item_cas it then ((PROTOCOL_BINARY_RESPONSE_KEY_EEXISTS, Cas 0), \<sigma>)
               else with_cas_reply (spec_store key (item_value it @ val) (item_flags it) (item_exp it) \<sigma>))"
| "spec_step (Prepend key val cas) \<sigma> =
     Some (case spec_item key \<sigma> of
             None \<Rightarrow> ((PROTOCOL_BINARY_RESPONSE_KEY_ENOENT, Cas 0), \<sigma>)
           | Some it \<Rightarrow>
               if cas \<noteq> 0 \<and> cas \<noteq> item_cas it then ((PROTOCOL_BINARY_RESPONSE_KEY_EEXISTS, Cas 0), \<sigma>)
               else with_cas_reply (spec_store key (val @ item_value it) (item_flags it) (item_exp it) \<sigma>))"
| "spec_step (Delete key cas) \<sigma> =
     Some (case spec_item key \<sigma> of
             None \<Rightarrow> ((PROTOCOL_BINARY_RESPONSE_KEY_ENOENT, Nothing), \<sigma>)
           | Some it \<Rightarrow>
               if cas \<noteq> 0 \<and> item_cas it \<noteq> cas then ((PROTOCOL_BINARY_RESPONSE_KEY_EEXISTS, Nothing), \<sigma>)
               else ((PROTOCOL_BINARY_RESPONSE_SUCCESS, Nothing), drop_key key \<sigma>))"
| "spec_step (Increment key delta initial exp) \<sigma> =
     (if length key > 1024 then None else spec_number (\<lambda>n. n + delta) key initial exp \<sigma>)"
| "spec_step (Decrement key delta initial exp) \<sigma> =
     spec_number (\<lambda>n. if delta > n then 0 else n - delta) key initial exp \<sigma>"
| "spec_step (Get key) \<sigma> =
     Some (case spec_item key \<sigma> of
             None \<Rightarrow> ((PROTOCOL_BINARY_RESPONSE_KEY_ENOENT, Nothing), \<sigma>)
           | Some it \<Rightarrow> ((PROTOCOL_BINARY_RESPONSE_SUCCESS,
               Found \<lparr>it_key = key, it_body = take (length (item_value it) mod 2 ^ 32) (item_value it),
                 it_flags = item_flags it, it_cas = item_cas it\<rparr>), \<sigma>))"
| "spec_step (Flush when) \<sigma> = Some ((PROTOCOL_BINARY_RESPONSE_SUCCESS, Nothing), \<sigma>)"

text \<open>The lengths the protocol can express.\<close>

fun command_ok :: "command \<Rightarrow> bool" where
  "command_ok (Set key data _ _ _) \<longleftrightarrow> length key < 2 ^ 16 \<and> length data < 2 ^ 32"
| "command_ok (Add key data _ _) \<longleftrightarrow> length key < 2 ^ 16 \<and> length data < 2 ^ 32"
| "command_ok (Replace key data _ _ _) \<longleftrightarrow> length key < 2 ^ 16 \<and> length data < 2 ^ 32"
| "command_ok (Append key val _) \<longleftrightarrow> length key < 2 ^ 16 \<and> length val < 2 ^ 32"
| "command_ok (Prepend key val _) \<longleftrightarrow> length key < 2 ^ 16 \<and> length val < 2 ^ 32"
| "command_ok (Delete key _) \<longleftrightarrow> length key < 2 ^ 16"
| "command_ok (Increment key _ _ _) \<longleftrightarrow> length key < 2 ^ 16"
| "command_ok (Decrement key _ _ _) \<longleftrightarrow> length key < 2 ^ 16"
| "command_ok (Get key) \<longleftrightarrow> length key < 2 ^ 16"
| "command_ok (Flush _) \<longleftrightarrow> True"


subsection \<open>The callbacks of the server\<close>

definition cas_step :: "u64 handler \<Rightarrow> storage \<Rightarrow> ((protocol_binary_response_status \<times> reply) \<times> storage) run" where
  "cas_step h s = rbind (h s) (\<lambda>(rval, cas, s'). returns ((rval, Cas cas), s'))"

definition number_step :: "(u64 \<times> u64) handler \<Rightarrow> storage \<Rightarrow> ((protocol_binary_response_status \<times> reply) \<times> storage) run" where
  "number_step h s = rbind (h s) (\<lambda>(rval, (n, cas), s'). returns ((rval, Number n cas), s'))"

fun v1_step :: "command \<Rightarrow> storage \<Rightarrow> ((protocol_binary_response_status \<times> reply) \<times> storage) run" where
  "v1_step (Set key data flags exp cas) s = cas_step (set_handler key data flags exp cas) s"
| "v1_step (Add key data flags exp) s = cas_step (add_handler key data flags exp) s"
| "v1_step (Replace key data flags exp cas) s = cas_step (replace_handler key data flags exp cas) s"
| "v1_step (Append key val cas) s = cas_step (append_handler key val cas) s"
| "v1_step (Prepend key val cas) s = cas_step (prepend_handler key val cas) s"
| "v1_step (Delete key cas) s = rbind (delete_handler key cas s) (\<lambda>(rval, s'). returns ((rval, Nothing), s'))"
| "v1_step (Increment key delta initial exp) s = number_step (increment_handler key delta initial exp) s"
| "v1_step (Decrement key delta initial exp) s = number_step (decrement_handler key delta initial exp) s"
| "v1_step (Get key) s =
     (case get_handler key (returns s) of
        Call item k \<Rightarrow> (case k PROTOCOL_BINARY_RESPONSE_SUCCESS of
            Ret rval m \<Rightarrow> rbind m (\<lambda>s'. returns ((rval, Found item), s')) | Call _ _ \<Rightarrow> Some Fault)
      | Ret rval m \<Rightarrow> rbind m (\<lambda>s'. returns ((rval, Nothing), s')))"
| "v1_step (Flush when) s = (case flush_handler when s of (rval, s') \<Rightarrow> returns ((rval, Nothing), s'))"

definition simulates :: "storage \<Rightarrow> spec \<Rightarrow> bool" where
  "simulates s \<sigma> \<longleftrightarrow> (case \<sigma> of (m, n, hs) \<Rightarrow> represents s m \<and> st_cas s = n \<and> st_mallocs s = hs)"

lemma item_heap_room:
  "item_heap s list_entry_size \<noteq> None \<and> item_heap s (length key) \<noteq> None \<and> (n \<noteq> 0 \<longrightarrow> item_heap s n \<noteq> None) \<longleftrightarrow>
   room (st_mallocs s) key n"
  by (simp add: item_heap_def room_def split: list.split)

lemma unat_length [simp]: "length xs < 2 ^ 64 \<Longrightarrow> unat (word_of_nat (length xs) :: u64) = length xs"
  by (rule unat_u64_of_nat)

lemma length_word_eq_0: "length xs < 2 ^ 64 \<Longrightarrow> (word_of_nat (length xs) :: u64) = 0 \<longleftrightarrow> xs = []"
  by (metis unat_eq_0 unat_u64_of_nat length_0_conv)

lemma item_ok_new: "length key < 2 ^ 64 \<Longrightarrow> length data < 2 ^ 63 \<Longrightarrow> item_ok (new_item key data flags exp cas)"
  by (auto simp: item_ok_def new_item_def length_word_eq_0)

lemma put_new_aside:
  assumes "aside s a it m" and "item_ok it" and "m (item_key it) = None"
  obtains s' where "put_new a s = returns (PROTOCOL_BINARY_RESPONSE_SUCCESS, st_cas s + 1, s')"
    "represents s' (m(item_key it := Some (it\<lparr>item_cas := st_cas s + 1\<rparr>)))" "st_cas s' = st_cas s + 1" "st_mallocs s' = st_mallocs s"
proof -
  obtain s' e where "put_item a s = Done s'" "represents s' (m(item_key it := Some (it\<lparr>item_cas := st_cas s + 1\<rparr>)))"
    "st_cas s' = st_cas s + 1" "st_mallocs s' = st_mallocs s" "st_entries s' a = Some e" "le_item e = it\<lparr>item_cas := st_cas s + 1\<rparr>"
    by (rule aside_put [OF assms]) blast
  then show ?thesis
    by (intro that [of s']) (simp_all add: put_new_def item_at_def entry_at_def release_item_def)
qed

text \<open>Creating an item with its data and storing it.\<close>

lemma store_simulates:
  assumes "simulates s \<sigma>" and "spec_item key \<sigma> = None" and "length key < 2 ^ 16" and "length data < 2 ^ 32"
  obtains s' where "cas_step (store_new key data flags exp) s = returns (fst (with_cas_reply (spec_store key data flags (unsigned exp) \<sigma>)), s')"
    "simulates s' (snd (with_cas_reply (spec_store key data flags (unsigned exp) \<sigma>)))"
proof -
  obtain m n hs where \<sigma>: "\<sigma> = (m, n, hs)" by (cases \<sigma>)
  have s: "represents s m" "st_cas s = n" "st_mallocs s = hs" using assms(1) by (auto simp: simulates_def \<sigma>)
  have room: "room hs key (length data) \<longleftrightarrow> item_heap s list_entry_size \<noteq> None \<and> item_heap s (length key) \<noteq> None \<and>
      ((word_of_nat (length data) :: u64) \<noteq> 0 \<longrightarrow> item_heap s (unat (word_of_nat (length data) :: u64)) \<noteq> None)"
    using assms(4) item_heap_room [of s key "length data"] by (simp add: s length_word_eq_0)
  show ?thesis
  proof (cases rule: create_item_cases [OF s(1), where data = "Some data" and len = "word_of_nat (length data)" and key = key
        and flags = flags and exp = "unsigned exp"])
    case 1
    with assms(4) show ?case by simp
  next
    case (2 s')
    then have "\<not> room hs key (length data)" by (auto simp: room)
    with 2 s show ?thesis
      by (intro that [of s']) (simp_all add: cas_step_def with_cas_reply_def store_new_def spec_store_def \<sigma> simulates_def)
  next
    case (3 s1 a obj)
    let ?it = "new_item key data flags (unsigned exp) 0"
    have room': "room hs key (length data)" using 3 by (simp add: room)
    have ok: "item_ok ?it" using assms by (intro item_ok_new) simp_all
    have a: "aside s1 a ?it m" using 3 by (simp add: new_item_def)
    have none: "m (item_key ?it) = None" using assms(2) by (simp add: \<sigma> spec_item_def new_item_def)
    obtain s' where "put_new a s1 = returns (PROTOCOL_BINARY_RESPONSE_SUCCESS, st_cas s1 + 1, s')"
      "represents s' (m(item_key ?it := Some (?it\<lparr>item_cas := st_cas s1 + 1\<rparr>)))" "st_cas s' = st_cas s1 + 1" "st_mallocs s' = st_mallocs s1"
      by (rule put_new_aside [OF a ok none])
    with 3 s room' show ?thesis
      by (intro that [of s'])
        (simp_all add: cas_step_def with_cas_reply_def store_new_def spec_store_def \<sigma> simulates_def new_item_def)
  qed
qed

text \<open>Lookup and deletion.\<close>

lemma represents_item: "represents s m \<Longrightarrow> m key = Some it \<Longrightarrow> item_ok it \<and> item_key it = key"
  unfolding represents_def using holdsD(2,4) by (metis option.inject)

lemma simulates_get:
  assumes "simulates s \<sigma>" and "length key < 2 ^ 16"
  shows "spec_item key \<sigma> = None \<Longrightarrow> get_item key s = returns None"
    and "spec_item key \<sigma> = Some it \<Longrightarrow> \<exists>a. get_item key s = returns (Some a) \<and> item_at a s = Done it"
    and "spec_item key \<sigma> = Some it \<Longrightarrow> item_ok it"
proof -
  obtain m n hs where \<sigma>: "\<sigma> = (m, n, hs)" by (cases \<sigma>)
  have s: "represents s m" using assms(1) by (auto simp: simulates_def \<sigma>)
  have get: "case m key of None \<Rightarrow> get_item key s = returns None
    | Some it \<Rightarrow> \<exists>a e. get_item key s = returns (Some a) \<and> st_entries s a = Some e \<and> le_item e = it"
    using assms(2) by (intro get_item_represents [OF s]) simp
  show "spec_item key \<sigma> = None \<Longrightarrow> get_item key s = returns None" using get by (simp add: spec_item_def \<sigma>)
  show "spec_item key \<sigma> = Some it \<Longrightarrow> \<exists>a. get_item key s = returns (Some a) \<and> item_at a s = Done it"
    using get by (auto simp: spec_item_def \<sigma> item_at_def entry_at_def)
  show "spec_item key \<sigma> = Some it \<Longrightarrow> item_ok it" using represents_item [OF s] by (simp add: spec_item_def \<sigma>)
qed

lemma simulates_delete:
  assumes "simulates s \<sigma>" and "length key < 2 ^ 16"
  obtains s' where "delete_item key s = returns (spec_item key \<sigma> \<noteq> None, s')" "simulates s' (drop_key key \<sigma>)"
proof -
  obtain m n hs where \<sigma>: "\<sigma> = (m, n, hs)" by (cases \<sigma>)
  have s: "represents s m" "st_cas s = n" "st_mallocs s = hs" using assms(1) by (auto simp: simulates_def \<sigma>)
  have "length key < 2 ^ 64" using assms(2) by simp
  from delete_item_represents [OF s(1) this] obtain s' where s': "delete_item key s = returns (m key \<noteq> None, s')"
    "represents s' (m(key := None))" "st_cas s' = st_cas s" "st_mallocs s' = st_mallocs s" by metis
  show ?thesis
    by (rule that [of s']) (use s s' in \<open>simp_all add: \<sigma> spec_item_def drop_key_def simulates_def\<close>)
qed

lemma spec_item_drop_key [simp]: "spec_item key (drop_key key \<sigma>) = None"
  by (simp add: spec_item_def drop_key_def split: prod.split)

lemma item_value_ok:
  assumes "item_ok it"
  shows "length (item_value it) = unat (item_size it)" and "length (item_value it) < 2 ^ 63"
    and "n \<le> unat (item_size it) \<Longrightarrow> item_bytes it n = Done (take n (item_value it))"
  using assms by (auto simp: item_ok_def item_value_def item_bytes_def split: option.splits)

text \<open>Filling the data of a new item.\<close>

lemma fill_data_aside:
  assumes "aside s a it m" and "store_at (item_data it) off src = Done obj"
  obtains s' where "fill_data a off src s = Done s'" "aside s' a (it\<lparr>item_data := obj\<rparr>) m" "st_cas s' = st_cas s" "st_mallocs s' = st_mallocs s"
proof -
  obtain e where e: "st_entries s a = Some e" "le_item e = it" using assms(1) by (auto simp: aside_def items_def)
  obtain s' where s': "write_entry (Some a) (\<lambda>e. e\<lparr>le_item := (le_item e)\<lparr>item_data := obj\<rparr>\<rparr>) s = Done s'"
    "aside s' a (it\<lparr>item_data := obj\<rparr>) m" "st_cas s' = st_cas s" "st_mallocs s' = st_mallocs s"
    by (rule aside_write [OF assms(1), where g = "item_data_update (\<lambda>_. obj)"]) simp
  then show ?thesis
    by (intro that [of s']) (simp_all add: fill_data_def entry_at_def e assms(2))
qed

definition blank :: "bytes option \<Rightarrow> nat \<Rightarrow> bool" where
  "blank obj n \<longleftrightarrow> (case obj of None \<Rightarrow> n = 0 | Some b \<Rightarrow> n \<noteq> 0 \<and> length b = n)"

lemma store_at_first: "blank obj (length xs + k) \<Longrightarrow> \<exists>obj'. store_at obj 0 xs = Done obj' \<and> blank obj' (length xs + k) \<and>
    (obj' = None \<or> (\<exists>r. obj' = Some (xs @ r) \<and> length r = k))"
  by (auto simp: blank_def store_at_def memcpy_at_def split: option.splits)

lemma store_at_second:
  assumes "blank obj (length xs + length ys)" and "obj = None \<or> (\<exists>r. obj = Some (xs @ r) \<and> length r = length ys)"
  shows "store_at obj (length xs) ys = Done (if xs @ ys = [] then None else Some (xs @ ys))"
  using assms by (auto simp: blank_def store_at_def memcpy_at_def)

lemma create_blank:
  assumes "simulates s \<sigma>" and "n < 2 ^ 64"
  obtains (failed) s1 where "create_item key None (word_of_nat n) flags exp s = Done (None, s1)"
      "\<not> room (snd (snd \<sigma>)) key n" "simulates s1 (fst \<sigma>, fst (snd \<sigma>), tl (snd (snd \<sigma>)))"
    | (created) s1 a obj where "create_item key None (word_of_nat n) flags exp s = Done (Some a, s1)"
      "room (snd (snd \<sigma>)) key n" "blank obj n" "n < 2 ^ 63" "st_cas s1 = fst (snd \<sigma>)" "st_mallocs s1 = tl (snd (snd \<sigma>))"
      "aside s1 a \<lparr>item_cas = 0, item_key = key, item_nkey = word_of_nat (length key), item_data = obj,
         item_size = word_of_nat n, item_flags = flags, item_exp = exp\<rparr> (fst \<sigma>)"
proof -
  obtain m c hs where \<sigma>: "\<sigma> = (m, c, hs)" by (cases \<sigma>)
  have s: "represents s m" "st_cas s = c" "st_mallocs s = hs" using assms(1) by (auto simp: simulates_def \<sigma>)
  have n: "unat (word_of_nat n :: u64) = n" using assms(2) by (rule unat_u64_of_nat)
  then have n0: "(word_of_nat n :: u64) = 0 \<longleftrightarrow> n = 0" by (metis unat_eq_0)
  have room: "room hs key n \<longleftrightarrow> item_heap s list_entry_size \<noteq> None \<and> item_heap s (length key) \<noteq> None \<and>
      ((word_of_nat n :: u64) \<noteq> 0 \<longrightarrow> item_heap s (unat (word_of_nat n :: u64)) \<noteq> None)"
    using item_heap_room [of s key n] by (simp add: s n n0)
  show ?thesis
  proof (cases rule: create_item_cases [OF s(1), where data = None and len = "word_of_nat n" and key = key
        and flags = flags and exp = exp])
    case 1
    then show ?case by simp
  next
    case (2 s1)
    then show ?thesis by (intro failed [of s1]) (auto simp: room \<sigma> simulates_def s)
  next
    case (3 s1 a obj)
    then show ?thesis
      by (intro created [of a s1 obj]) (auto simp: room \<sigma> s n n0 blank_def split: option.splits)
  qed
qed


subsection \<open>Refinement\<close>

text \<open>What \<open>append_handler\<close> and \<open>prepend_handler\<close> share: a new item with two parts replaces the old one.\<close>

definition concat_items :: "bytes \<Rightarrow> bytes \<Rightarrow> bytes \<Rightarrow> u32 \<Rightarrow> u64 \<Rightarrow> storage \<Rightarrow>
    ((protocol_binary_response_status \<times> reply) \<times> storage) run" where
  "concat_items key xs ys flags exp = cas_step (\<lambda>s.
     rbind (lift (create_item key None (word_of_nat (length (xs @ ys))) flags exp s)) (\<lambda>(new, s1).
       case new of
         None \<Rightarrow> returns (PROTOCOL_BINARY_RESPONSE_ENOMEM, 0, s1)
       | Some a \<Rightarrow> rbind (lift (fill_data a 0 xs s1)) (\<lambda>s2. rbind (lift (fill_data a (length xs) ys s2)) (\<lambda>s3.
           rbind (delete_item key s3) (\<lambda>(_, s4). put_new a s4)))))"

lemma concat_simulates:
  assumes "simulates s \<sigma>" and "length key < 2 ^ 16" and "length (xs @ ys) < 2 ^ 64"
  obtains s' where "concat_items key xs ys flags exp s = returns (fst (with_cas_reply (spec_store key (xs @ ys) flags exp \<sigma>)), s')"
    "simulates s' (snd (with_cas_reply (spec_store key (xs @ ys) flags exp \<sigma>)))"
proof (cases rule: create_blank [OF assms(1,3), where key = key and flags = flags and exp = exp])
  case (1 s1)
  then show ?thesis
    by (intro that [of s1]; cases \<sigma>) (simp_all add: concat_items_def cas_step_def with_cas_reply_def spec_store_def)
next
  case (2 s1 a obj)
  obtain m c hs where \<sigma>: "\<sigma> = (m, c, hs)" by (cases \<sigma>)
  obtain obj1 where obj1: "store_at obj 0 xs = Done obj1" "blank obj1 (length xs + length ys)"
      "obj1 = None \<or> (\<exists>r. obj1 = Some (xs @ r) \<and> length r = length ys)"
    using store_at_first [of obj xs "length ys"] 2(3) by auto
  let ?it = "\<lparr>item_cas = 0, item_key = key, item_nkey = word_of_nat (length key), item_data = obj,
      item_size = word_of_nat (length (xs @ ys)), item_flags = flags, item_exp = exp\<rparr>"
  let ?new = "?it\<lparr>item_data := if xs @ ys = [] then None else Some (xs @ ys)\<rparr>"
  from fill_data_aside [OF 2(7), of 0 xs obj1] obj1(1) obtain s2 where s2: "fill_data a 0 xs s1 = Done s2"
    "aside s2 a (?it\<lparr>item_data := obj1\<rparr>) (fst \<sigma>)" "st_cas s2 = st_cas s1" "st_mallocs s2 = st_mallocs s1" by auto
  from fill_data_aside [OF s2(2), of "length xs" ys "if xs @ ys = [] then None else Some (xs @ ys)"] store_at_second [OF obj1(2,3)]
  obtain s3 where s3: "fill_data a (length xs) ys s2 = Done s3" "aside s3 a ?new (fst \<sigma>)" "st_cas s3 = st_cas s2" "st_mallocs s3 = st_mallocs s2"
    by auto
  have "length key < 2 ^ 64" using assms(2) by simp
  from aside_delete [OF s3(2) this] obtain s4 where s4: "delete_item key s3 = returns (fst \<sigma> key \<noteq> None, s4)"
    "aside s4 a ?new ((fst \<sigma>)(key := None))" "st_cas s4 = st_cas s3" "st_mallocs s4 = st_mallocs s3" by metis
  have ok: "item_ok ?new"
    using item_ok_new [of key "xs @ ys" flags exp 0] assms(2) 2(4) by (simp add: new_item_def)
  from put_new_aside [OF s4(2) ok] obtain s5 where "put_new a s4 = returns (PROTOCOL_BINARY_RESPONSE_SUCCESS, st_cas s4 + 1, s5)"
    "represents s5 (((fst \<sigma>)(key := None))(key := Some (?new\<lparr>item_cas := st_cas s4 + 1\<rparr>)))" "st_cas s5 = st_cas s4 + 1"
    "st_mallocs s5 = st_mallocs s4" by auto
  with 2 s2 s3 s4 show ?thesis
    by (intro that [of s5])
      (simp_all add: concat_items_def cas_step_def with_cas_reply_def \<sigma> spec_store_def simulates_def new_item_def)
qed

lemma number_simulates:
  assumes "simulates s \<sigma>" and "spec_item key \<sigma> = None" and "length key < 2 ^ 16" and "\<And>a t. copy a t = Done t"
  shows "\<exists>s'. number_step (store_number key n exp copy) s =
      returns ((fst (fst (spec_store key (le_store 8 n) 0 (unsigned exp) \<sigma>)),
        case spec_store key (le_store 8 n) 0 (unsigned exp) \<sigma> of ((rval, cas), _) \<Rightarrow>
          if rval = PROTOCOL_BINARY_RESPONSE_SUCCESS then Number n cas else Number 0 0), s') \<and>
    simulates s' (snd (spec_store key (le_store 8 n) 0 (unsigned exp) \<sigma>))"
proof -
  obtain m c hs where \<sigma>: "\<sigma> = (m, c, hs)" by (cases \<sigma>)
  have 8: "(8 :: u64) = word_of_nat 8" "(8::nat) < 2 ^ 64" by simp_all
  show ?thesis
  proof (cases rule: create_blank [OF assms(1) 8(2), where key = key and flags = 0 and exp = "unsigned exp"])
    case (1 s1)
    then show ?thesis
      by (intro exI [of _ s1]) (simp add: number_step_def store_number_def spec_store_def \<sigma>)
  next
    case (2 s1 a obj)
    let ?it = "\<lparr>item_cas = 0, item_key = key, item_nkey = word_of_nat (length key), item_data = obj,
        item_size = word_of_nat 8, item_flags = 0, item_exp = unsigned exp\<rparr>"
    let ?new = "?it\<lparr>item_data := Some (le_store 8 n)\<rparr>"
    have ne: "le_store 8 n \<noteq> []" by (simp add: le_store_def)
    have "store_at obj 0 (le_store 8 n) = Done (Some (le_store 8 n))"
      using 2(3) ne by (auto simp: blank_def store_at_def memcpy_at_def split: option.splits)
    then obtain s2 where s2: "fill_data a 0 (le_store 8 n) s1 = Done s2" "aside s2 a ?new m" "st_cas s2 = st_cas s1" "st_mallocs s2 = st_mallocs s1"
      using fill_data_aside [OF 2(7), of 0 "le_store 8 n" "Some (le_store 8 n)"] by (auto simp: \<sigma>)
    have ok: "item_ok ?new" using assms(3) by (simp add: item_ok_def)
    have none: "m (item_key ?new) = None" using assms(2) by (simp add: \<sigma> spec_item_def)
    from put_new_aside [OF s2(2) ok none] obtain s3 where "put_new a s2 = returns (PROTOCOL_BINARY_RESPONSE_SUCCESS, st_cas s2 + 1, s3)"
      "represents s3 (m(key := Some (?new\<lparr>item_cas := st_cas s2 + 1\<rparr>)))" "st_cas s3 = st_cas s2 + 1" "st_mallocs s3 = st_mallocs s2" by auto
    then show ?thesis using 2 s2 assms(4) ne
      by (intro exI [of _ s3]) (simp add: number_step_def store_number_def spec_store_def \<sigma> simulates_def new_item_def)
  qed
qed


lemma cas_step_simps [simp]:
  "cas_step (\<lambda>s. returns (rval, cas, f s)) s = returns ((rval, Cas cas), f s)"
  by (simp add: cas_step_def)

lemma set_simulates:
  assumes "simulates s \<sigma>" and "length key < 2 ^ 16" and "length data < 2 ^ 32"
  shows "\<exists>s'. v1_step (Set key data flags exp cas) s = returns (fst (the (spec_step (Set key data flags exp cas) \<sigma>)), s') \<and>
    simulates s' (snd (the (spec_step (Set key data flags exp cas) \<sigma>)))"
proof -
  obtain s1 where s1: "delete_item key s = returns (spec_item key \<sigma> \<noteq> None, s1)" "simulates s1 (drop_key key \<sigma>)"
    using simulates_delete [OF assms(1,2)] by metis
  obtain s2 where "cas_step (store_new key data flags exp) s1 =
      returns (fst (with_cas_reply (spec_store key data flags (unsigned exp) (drop_key key \<sigma>))), s2)"
    and s2: "simulates s2 (snd (with_cas_reply (spec_store key data flags (unsigned exp) (drop_key key \<sigma>))))"
    by (rule store_simulates [OF s1(2) spec_item_drop_key assms(2,3)])
  then have store: "cas_step (\<lambda>s. rbind (delete_item key s) (\<lambda>(_, s1). store_new key data flags exp s1)) s =
      returns (fst (with_cas_reply (spec_store key data flags (unsigned exp) (drop_key key \<sigma>))), s2)"
    using s1(1) by (simp add: cas_step_def)
  show ?thesis
  proof (cases "cas \<noteq> 0 \<and> (case spec_item key \<sigma> of None \<Rightarrow> False | Some it \<Rightarrow> cas \<noteq> item_cas it)")
    case True
    then obtain it where it: "spec_item key \<sigma> = Some it" "cas \<noteq> 0" "cas \<noteq> item_cas it" by (auto split: option.splits)
    obtain a where "get_item key s = returns (Some a)" "item_at a s = Done it"
      using simulates_get(2) [OF assms(1,2) it(1)] by metis
    with it assms(1) show ?thesis by (intro exI [of _ s]) (simp add: set_handler_def cas_step_def release_item_def)
  next
    case False
    then have "cas_step (set_handler key data flags exp cas) s = 
        cas_step (\<lambda>s. rbind (delete_item key s) (\<lambda>(_, s1). store_new key data flags exp s1)) s"
    proof (cases "spec_item key \<sigma>")
      case None
      with simulates_get(1) [OF assms(1,2)] show ?thesis by (simp add: set_handler_def cas_step_def Let_def)
    next
      case (Some it)
      then obtain a where "get_item key s = returns (Some a)" "item_at a s = Done it"
        using simulates_get(2) [OF assms(1,2)] by metis
      with False Some show ?thesis by (auto simp: set_handler_def cas_step_def Let_def)
    qed
    with False store s2 show ?thesis by (intro exI [of _ s2]) auto
  qed
qed

lemma add_simulates:
  assumes "simulates s \<sigma>" and "length key < 2 ^ 16" and "length data < 2 ^ 32"
  shows "\<exists>s'. v1_step (Add key data flags exp) s = returns (fst (the (spec_step (Add key data flags exp) \<sigma>)), s') \<and>
    simulates s' (snd (the (spec_step (Add key data flags exp) \<sigma>)))"
proof (cases "spec_item key \<sigma>")
  case None
  obtain s2 where "cas_step (store_new key data flags exp) s =
      returns (fst (with_cas_reply (spec_store key data flags (unsigned exp) \<sigma>)), s2)"
    "simulates s2 (snd (with_cas_reply (spec_store key data flags (unsigned exp) \<sigma>)))"
    by (rule store_simulates [OF assms(1) None assms(2,3)])
  with None simulates_get(1) [OF assms(1,2)] show ?thesis
    by (intro exI [of _ s2]) (simp add: add_handler_def cas_step_def)
next
  case (Some it)
  then obtain a where a: "get_item key s = returns (Some a)" using simulates_get(2) [OF assms(1,2)] by metis
  with assms(1) Some show ?thesis by (intro exI [of _ s]) (simp add: add_handler_def cas_step_def)
qed

lemma replace_simulates:
  assumes "simulates s \<sigma>" and "length key < 2 ^ 16" and "length data < 2 ^ 32"
  shows "\<exists>s'. v1_step (Replace key data flags exp cas) s = returns (fst (the (spec_step (Replace key data flags exp cas) \<sigma>)), s') \<and>
    simulates s' (snd (the (spec_step (Replace key data flags exp cas) \<sigma>)))"
proof (cases "spec_item key \<sigma>")
  case None
  with simulates_get(1) [OF assms(1,2)] assms(1) show ?thesis by (intro exI [of _ s]) (simp add: replace_handler_def cas_step_def)
next
  case (Some it)
  obtain s1 where s1: "delete_item key s = returns (spec_item key \<sigma> \<noteq> None, s1)" "simulates s1 (drop_key key \<sigma>)"
    using simulates_delete [OF assms(1,2)] by metis
  obtain s2 where s2: "cas_step (store_new key data flags exp) s1 =
      returns (fst (with_cas_reply (spec_store key data flags (unsigned exp) (drop_key key \<sigma>))), s2)"
    "simulates s2 (snd (with_cas_reply (spec_store key data flags (unsigned exp) (drop_key key \<sigma>))))"
    by (rule store_simulates [OF s1(2) spec_item_drop_key assms(2,3)])
  obtain a where a: "get_item key s = returns (Some a)" "item_at a s = Done it"
    using simulates_get(2) [OF assms(1,2) Some] by metis
  show ?thesis
  proof (cases "cas = 0 \<or> cas = item_cas it")
    case True
    with a s1 s2 Some show ?thesis
      by (intro exI [of _ s2]) (auto simp: replace_handler_def cas_step_def release_item_def)
  next
    case False
    with a assms(1) Some show ?thesis by (intro exI [of _ s]) (simp add: replace_handler_def cas_step_def release_item_def)
  qed
qed


lemma append_simulates:
  assumes "simulates s \<sigma>" and "length key < 2 ^ 16" and "length val < 2 ^ 32"
  shows "\<exists>s'. v1_step (Append key val cas) s = returns (fst (the (spec_step (Append key val cas) \<sigma>)), s') \<and>
    simulates s' (snd (the (spec_step (Append key val cas) \<sigma>)))"
proof (cases "spec_item key \<sigma>")
  case None
  with simulates_get(1) [OF assms(1,2)] assms(1) show ?thesis by (intro exI [of _ s]) (simp add: append_handler_def cas_step_def)
next
  case (Some it)
  obtain a where a: "get_item key s = returns (Some a)" "item_at a s = Done it"
    using simulates_get(2) [OF assms(1,2) Some] by metis
  note v = item_value_ok [OF simulates_get(3) [OF assms(1,2) Some]]
  have len: "length (item_value it @ val) < 2 ^ 64" using v(2) assms(3) by simp
  obtain s' where s': "concat_items key (item_value it) val (item_flags it) (item_exp it) s =
      returns (fst (with_cas_reply (spec_store key (item_value it @ val) (item_flags it) (item_exp it) \<sigma>)), s')"
    "simulates s' (snd (with_cas_reply (spec_store key (item_value it @ val) (item_flags it) (item_exp it) \<sigma>)))"
    by (rule concat_simulates [OF assms(1,2) len])
  show ?thesis
  proof (cases "cas \<noteq> 0 \<and> cas \<noteq> item_cas it")
    case True
    with a assms(1) Some show ?thesis by (intro exI [of _ s]) (simp add: append_handler_def cas_step_def)
  next
    case False
    then have "cas_step (append_handler key val cas) s = concat_items key (item_value it) val (item_flags it) (item_exp it) s"
      using a v(1,3) by (auto simp: append_handler_def concat_items_def cas_step_def release_item_def cong: option.case_cong)
    with False Some s' show ?thesis by (intro exI [of _ s']) auto
  qed
qed

lemma prepend_simulates:
  assumes "simulates s \<sigma>" and "length key < 2 ^ 16" and "length val < 2 ^ 32"
  shows "\<exists>s'. v1_step (Prepend key val cas) s = returns (fst (the (spec_step (Prepend key val cas) \<sigma>)), s') \<and>
    simulates s' (snd (the (spec_step (Prepend key val cas) \<sigma>)))"
proof (cases "spec_item key \<sigma>")
  case None
  with simulates_get(1) [OF assms(1,2)] assms(1) show ?thesis by (intro exI [of _ s]) (simp add: prepend_handler_def cas_step_def release_item_def)
next
  case (Some it)
  obtain a where a: "get_item key s = returns (Some a)" "item_at a s = Done it"
    using simulates_get(2) [OF assms(1,2) Some] by metis
  note v = item_value_ok [OF simulates_get(3) [OF assms(1,2) Some]]
  have len: "length (val @ item_value it) < 2 ^ 64" using v(2) assms(3) by simp
  obtain s' where s': "concat_items key val (item_value it) (item_flags it) (item_exp it) s =
      returns (fst (with_cas_reply (spec_store key (val @ item_value it) (item_flags it) (item_exp it) \<sigma>)), s')"
    "simulates s' (snd (with_cas_reply (spec_store key (val @ item_value it) (item_flags it) (item_exp it) \<sigma>)))"
    by (rule concat_simulates [OF assms(1,2) len])
  show ?thesis
  proof (cases "cas \<noteq> 0 \<and> cas \<noteq> item_cas it")
    case True
    with a assms(1) Some show ?thesis by (intro exI [of _ s]) (simp add: prepend_handler_def cas_step_def release_item_def)
  next
    case False
    then have "cas_step (prepend_handler key val cas) s = concat_items key val (item_value it) (item_flags it) (item_exp it) s"
      using a v(1,3) by (auto simp: prepend_handler_def concat_items_def cas_step_def release_item_def add.commute cong: option.case_cong)
    with False Some s' show ?thesis by (intro exI [of _ s']) auto
  qed
qed


lemma delete_simulates:
  assumes "simulates s \<sigma>" and "length key < 2 ^ 16"
  shows "\<exists>s'. v1_step (Delete key cas) s = returns (fst (the (spec_step (Delete key cas) \<sigma>)), s') \<and>
    simulates s' (snd (the (spec_step (Delete key cas) \<sigma>)))"
proof -
  obtain s1 where s1: "delete_item key s = returns (spec_item key \<sigma> \<noteq> None, s1)" "simulates s1 (drop_key key \<sigma>)"
    using simulates_delete [OF assms] by metis
  show ?thesis
  proof (cases "spec_item key \<sigma>")
    case None
    then have "drop_key key \<sigma> = \<sigma>" by (auto simp: drop_key_def spec_item_def fun_upd_idem split: prod.split)
    with None s1 simulates_get(1) [OF assms None] show ?thesis by (intro exI [of _ s1]) (simp add: delete_handler_def Let_def)
  next
    case (Some it)
    obtain a where "get_item key s = returns (Some a)" "item_at a s = Done it"
      using simulates_get(2) [OF assms Some] by metis
    with s1 Some assms(1) show ?thesis by (simp add: delete_handler_def Let_def release_item_def)
  qed
qed

lemma number_handler_simulates:
  assumes "simulates s \<sigma>" and "length key < 2 ^ 16" and "\<And>a t. copy a t = Done t"
    and "spec_number f key initial exp \<sigma> = Some (r, \<sigma>')"
  shows "\<exists>s'. number_step (\<lambda>s. rbind (get_item key s) (\<lambda>item.
       case item of
         None \<Rightarrow> store_number key initial exp copy s
       | Some a \<Rightarrow>
           rbind (lift (item_at a s)) (\<lambda>it.
           rbind (lift (item_number it)) (\<lambda>n.
           rbind (delete_item key s) (\<lambda>(_, s1). store_number key (f n) (unsigned (item_exp it)) copy s1))))) s = returns (r, s') \<and>
    simulates s' \<sigma>'"
proof (cases "spec_item key \<sigma>")
  case None
  with number_simulates [OF assms(1) None assms(2,3), of initial exp] simulates_get(1) [OF assms(1,2) None] assms(4)
  show ?thesis by (auto simp: number_step_def spec_number_def Let_def split: prod.splits)
next
  case (Some it)
  then have len: "8 \<le> length (item_value it)" using assms(4) by (auto simp: spec_number_def Let_def split: if_splits)
  obtain a where a: "get_item key s = returns (Some a)" "item_at a s = Done it"
    using simulates_get(2) [OF assms(1,2) Some] by metis
  obtain s1 where s1: "delete_item key s = returns (True, s1)" "simulates s1 (drop_key key \<sigma>)"
    using simulates_delete [OF assms(1,2)] Some by (metis option.distinct(1))
  note v = item_value_ok [OF simulates_get(3) [OF assms(1,2) Some]]
  have n: "item_number it = Done (le_load (take 8 (item_value it)))" using v(1) v(3) [of 8] len by (simp add: item_number_def)
  from number_simulates [OF s1(2) spec_item_drop_key assms(2,3), of "f (le_load (take 8 (item_value it)))" "unsigned (item_exp it)"]
  show ?thesis using a s1(1) n Some len assms(4)
    by (auto simp: number_step_def spec_number_def Let_def split: prod.splits)
qed

lemma get_simulates:
  assumes "simulates s \<sigma>" and "length key < 2 ^ 16"
  shows "\<exists>s'. v1_step (Get key) s = returns (fst (the (spec_step (Get key) \<sigma>)), s') \<and> simulates s' (snd (the (spec_step (Get key) \<sigma>)))"
proof (cases "spec_item key \<sigma>")
  case None
  with simulates_get(1) [OF assms None] assms(1) show ?thesis by (intro exI [of _ s]) (simp add: get_handler_def)
next
  case (Some it)
  obtain a where a: "get_item key s = returns (Some a)" "item_at a s = Done it"
    using simulates_get(2) [OF assms Some] by metis
  note v = item_value_ok [OF simulates_get(3) [OF assms Some]]
  have size: "unat (unsigned (item_size it) :: u32) = length (item_value it) mod 2 ^ 32"
    by (simp add: v(1) unsigned_ucast_eq take_bit_eq_mod)
  then have "item_bytes it (unat (unsigned (item_size it) :: u32)) = Done (take (length (item_value it) mod 2 ^ 32) (item_value it))"
    using v(1) v(3) [of "length (item_value it) mod 2 ^ 32"] by simp
  with a assms(1) Some show ?thesis by (intro exI [of _ s]) (simp add: get_handler_def release_item_def)
qed

lemma v1_step_simulates:
  assumes "simulates s \<sigma>" and "command_ok cmd" and "spec_step cmd \<sigma> = Some (r, \<sigma>')"
  shows "\<exists>s'. v1_step cmd s = returns (r, s') \<and> simulates s' \<sigma>'"
proof (cases cmd)
  case (Increment key delta initial exp)
  then have "spec_number (\<lambda>n. n + delta) key initial exp \<sigma> = Some (r, \<sigma>')" "length key \<le> 1024" "length key < 2 ^ 16"
    using assms(2,3) by (auto split: if_splits)
  with number_handler_simulates [OF assms(1), of key "copy_to_buffer key"] Increment show ?thesis
    by (simp add: increment_handler_def [abs_def] release_item_def copy_to_buffer_def)
next
  case (Decrement key delta initial exp)
  then have "spec_number (\<lambda>n. if delta > n then 0 else n - delta) key initial exp \<sigma> = Some (r, \<sigma>')" "length key < 2 ^ 16"
    using assms(2,3) by auto
  with number_handler_simulates [OF assms(1), of key "\<lambda>_. Done"] Decrement show ?thesis
    by (simp add: decrement_handler_def [abs_def] release_item_def)
next
  case (Set key data flags exp cas)
  with set_simulates [OF assms(1), of key data flags exp cas] assms(2,3) show ?thesis by auto
next
  case (Add key data flags exp)
  with add_simulates [OF assms(1), of key data flags exp] assms(2,3) show ?thesis by auto
next
  case (Replace key data flags exp cas)
  with replace_simulates [OF assms(1), of key data flags exp cas] assms(2,3) show ?thesis by auto
next
  case (Append key val cas)
  with append_simulates [OF assms(1), of key val cas] assms(2,3) show ?thesis by auto
next
  case (Prepend key val cas)
  with prepend_simulates [OF assms(1), of key val cas] assms(2,3) show ?thesis by auto
next
  case (Delete key cas)
  with delete_simulates [OF assms(1), of key cas] assms(2,3) show ?thesis by auto
next
  case (Get key)
  with get_simulates [OF assms(1), of key] assms(2,3) show ?thesis by auto
next
  case (Flush t)
  with assms show ?thesis by (intro exI [of _ s]) (simp add: flush_handler_def)
qed


subsection \<open>Sequences of commands\<close>

primrec run_commands :: "(command \<Rightarrow> 's \<Rightarrow> ('r \<times> 's) run) \<Rightarrow> command list \<Rightarrow> 's \<Rightarrow> ('r list \<times> 's) run" where
  "run_commands step [] s = returns ([], s)"
| "run_commands step (cmd # cmds) s =
     rbind (step cmd s) (\<lambda>(r, s1). rbind (run_commands step cmds s1) (\<lambda>(rs, s2). returns (r # rs, s2)))"

primrec spec_run :: "command list \<Rightarrow> spec \<Rightarrow> ((protocol_binary_response_status \<times> reply) list \<times> spec) option" where
  "spec_run [] \<sigma> = Some ([], \<sigma>)"
| "spec_run (cmd # cmds) \<sigma> =
     (case spec_step cmd \<sigma> of None \<Rightarrow> None
      | Some (r, \<sigma>1) \<Rightarrow> (case spec_run cmds \<sigma>1 of None \<Rightarrow> None | Some (rs, \<sigma>2) \<Rightarrow> Some (r # rs, \<sigma>2)))"

text \<open>
  The contract of a server: every command whose effect is specified returns, answers as the specification and leads to a
  state that corresponds to the specified one.
\<close>

locale key_value_server =
  fixes step :: "command \<Rightarrow> 's \<Rightarrow> ((protocol_binary_response_status \<times> reply) \<times> 's) run" and rel :: "'s \<Rightarrow> spec \<Rightarrow> bool"
  assumes step_simulates:
    "rel s \<sigma> \<Longrightarrow> command_ok cmd \<Longrightarrow> spec_step cmd \<sigma> = Some (r, \<sigma>') \<Longrightarrow> \<exists>s'. step cmd s = returns (r, s') \<and> rel s' \<sigma>'"
begin

lemma run_simulates:
  assumes "rel s \<sigma>" and "\<forall>cmd\<in>set cmds. command_ok cmd" and "spec_run cmds \<sigma> = Some (rs, \<sigma>')"
  shows "\<exists>s'. run_commands step cmds s = returns (rs, s') \<and> rel s' \<sigma>'"
  using assms
proof (induction cmds arbitrary: s \<sigma> rs)
  case (Cons cmd cmds)
  then obtain r \<sigma>1 rs1 where r: "spec_step cmd \<sigma> = Some (r, \<sigma>1)" "spec_run cmds \<sigma>1 = Some (rs1, \<sigma>')" "rs = r # rs1"
    by (auto split: option.splits)
  obtain s1 where s1: "step cmd s = returns (r, s1)" "rel s1 \<sigma>1"
    using step_simulates [OF Cons.prems(1) _ r(1)] Cons.prems(2) by auto
  from Cons.IH [OF s1(2) _ r(2)] Cons.prems(2) s1(1) r(3) show ?case by auto
qed simp

end

interpretation example: key_value_server v1_step simulates
  by unfold_locales (rule v1_step_simulates)

text \<open>
  C2: The example server refines a machine on finite maps.  From corresponding states, a sequence of commands of the lengths
  the protocol can express terminates, answers every command as the map does, status, CAS value, numbers and items included,
  and ends in corresponding states.  The linked list with its pointers, and where memory is allocated and released, do
  not show.
\<close>

theorem example_server_refines_map:
  assumes "simulates s \<sigma>" and "\<forall>cmd\<in>set cmds. command_ok cmd" and "spec_run cmds \<sigma> = Some (rs, \<sigma>')"
  shows "\<exists>s'. run_commands v1_step cmds s = returns (rs, s') \<and> simulates s' \<sigma>'"
  by (rule example.run_simulates [OF assms])

definition any_heap :: heap where
  "any_heap n = (if n < 2 ^ 63 then Some (replicate n 0) else None)"

lemma initial_simulates: "simulates (initial_storage (replicate k any_heap)) (Map.empty, 0, replicate k any_heap)"
  using initial_storage_represents [of "replicate k any_heap"]
  by (auto simp: simulates_def heap_ok_def any_heap_def initial_storage_def split: if_splits)

definition sample_commands :: "command list" where
  "sample_commands = [Set [107] [1, 2] 7 0 0, Append [107] [3] 0, Set [107] [9] 0 0 1, Get [107], Delete [107] 0, Get [107]]"

theorem example_server_refines_map_witness:
  "\<exists>s'. run_commands v1_step sample_commands (initial_storage [any_heap, any_heap]) =
     returns ([(PROTOCOL_BINARY_RESPONSE_SUCCESS, Cas 1), (PROTOCOL_BINARY_RESPONSE_SUCCESS, Cas 2),
       (PROTOCOL_BINARY_RESPONSE_KEY_EEXISTS, Cas 0),
       (PROTOCOL_BINARY_RESPONSE_SUCCESS, Found \<lparr>it_key = [107], it_body = [1, 2, 3], it_flags = 7, it_cas = 2\<rparr>),
       (PROTOCOL_BINARY_RESPONSE_SUCCESS, Nothing), (PROTOCOL_BINARY_RESPONSE_KEY_ENOENT, Nothing)], s')"
proof -
  have "\<exists>\<sigma>'. spec_run sample_commands (Map.empty, 0, [any_heap, any_heap]) =
     Some ([(PROTOCOL_BINARY_RESPONSE_SUCCESS, Cas 1), (PROTOCOL_BINARY_RESPONSE_SUCCESS, Cas 2),
       (PROTOCOL_BINARY_RESPONSE_KEY_EEXISTS, Cas 0),
       (PROTOCOL_BINARY_RESPONSE_SUCCESS, Found \<lparr>it_key = [107], it_body = [1, 2, 3], it_flags = 7, it_cas = 2\<rparr>),
       (PROTOCOL_BINARY_RESPONSE_SUCCESS, Nothing), (PROTOCOL_BINARY_RESPONSE_KEY_ENOENT, Nothing)], \<sigma>')"
    by (simp add: sample_commands_def spec_item_def spec_store_def with_cas_reply_def drop_key_def room_def any_heap_def
        list_entry_size_def new_item_def item_value_def)
  moreover have "\<forall>cmd\<in>set sample_commands. command_ok cmd" by (simp add: sample_commands_def)
  ultimately show ?thesis using example_server_refines_map [OF initial_simulates [of "Suc (Suc 0)", simplified]] by blast
qed

text \<open>
  C40: Counting on a value shorter than eight bytes reads outside of it: after a client has stored such a value, an increment or
  a decrement of its key faults.
\<close>

theorem counter_on_short_value_faults:
  assumes "simulates s \<sigma>" and "length key < 2 ^ 16" and "spec_item key \<sigma> = Some it" and "length (item_value it) < 8"
  shows "v1_step (Increment key delta initial exp) s = Some Fault \<and> v1_step (Decrement key delta initial exp) s = Some Fault"
proof -
  obtain a where a: "get_item key s = returns (Some a)" "item_at a s = Done it"
    using simulates_get(2) [OF assms(1-3)] by metis
  have "item_number it = Fault"
    using assms(4) by (auto simp: item_number_def item_bytes_def item_value_def split: option.splits)
  with a show ?thesis by (simp add: increment_handler_def decrement_handler_def number_step_def)
qed

theorem counter_on_short_value_faults_witness:
  "\<exists>s. run_commands v1_step [Set [107] [49] 0 0 0] (initial_storage [any_heap]) = returns ([(PROTOCOL_BINARY_RESPONSE_SUCCESS, Cas 1)], s) \<and>
     v1_step (Increment [107] 1 0 0) s = Some Fault"
proof -
  let ?\<sigma> = "(Map.empty([107] := Some (new_item [107] [49] 0 0 1)), 1, []) :: spec"
  have "spec_step (Set [107] [49] 0 0 0) (Map.empty, 0, [any_heap]) = Some ((PROTOCOL_BINARY_RESPONSE_SUCCESS, Cas 1), ?\<sigma>)"
    by (simp add: spec_item_def spec_store_def with_cas_reply_def drop_key_def room_def any_heap_def list_entry_size_def)
  from v1_step_simulates [OF initial_simulates [of 1, simplified] _ this] obtain s where
    s: "v1_step (Set [107] [49] 0 0 0) (initial_storage [any_heap]) = returns ((PROTOCOL_BINARY_RESPONSE_SUCCESS, Cas 1), s)" "simulates s ?\<sigma>"
    by auto
  have "v1_step (Increment [107] 1 0 0) s = Some Fault"
    using counter_on_short_value_faults [OF s(2), of "[107]" "new_item [107] [49] 0 0 1"]
    by (simp add: spec_item_def item_value_def new_item_def del: v1_step.simps)
  with s(1) show ?thesis by (intro exI [of _ s]) simp
qed

end
