(* ===== verification/Spec2Isabelle.thy ===== *)
theory Spec2Isabelle
  imports Hashkit Binary_Framing Ascii_Storage Protocol_Handler Server_Selection Example_Refinement
begin

text \<open>
  \<^bold>\<open>libmemcached: a verification development.\<close>

  \<^bold>\<open>The program.\<close>  libmemcached is a client library for the memcached cache server.  Its parts, from the bottom:

  \<^item> \<open>src/src/libhashkit\<close>: hash functions, hash kits (which function hashes keys, which one hashes servers) and
    the encryption of values.
  \<^item> \<open>src/src/libmemcached\<close>: the client.  A \<open>memcached_st\<close> holds one instance per server, the continuum (points of
    the servers on a ring of hashes) and the configuration.  A request hashes its key with the hash kit, finds the
    server of the hash in the continuum and talks to that instance.
  \<^item> \<open>src/src/libmemcachedprotocol\<close>: the server side of both memcached protocols.  It reads from a socket, decides
    between text and binary, calls the callbacks of the application and queues the responses.
  \<^item> \<open>src/src/libmemcachedutil\<close>, \<open>src/src/bin\<close>, \<open>src/contrib\<close>, \<open>src/example\<close>: a connection pool, command-line
    tools, a load generator and an example server built on the libraries.

  \<^bold>\<open>Conventions.\<close>  The target is x86-64: little-endian, two's complement, signed plain \<open>char\<close>, 64-bit \<open>size_t\<close>.
  Machine integers are words of their width, so all arithmetic wraps as in the code.  An operation that can read
  or write outside its memory, or abort, returns an \<open>outcome\<close>, with \<open>Fault\<close> for that case; error codes are ordinary
  values.  The system (allocator, clock, random numbers, sockets) and the application's callbacks are arguments of the
  definitions: functions for the allocator and the clock, scripts of results for sockets.  The client library
  is modelled as the release build, in which assertions are empty; for \<open>libmemcachedprotocol\<close>, the object cache
  and the dynamic string of \<open>libhashkit\<close> the macro \<open>NDEBUG\<close> is an argument.

  \<^bold>\<open>Theories.\<close>

  \<^item> \<open>Prelude\<close>, \<open>Memory\<close>, \<open>C_Strings\<close>: words and bytes, faulting memory accesses, the locale \<open>growable_string\<close>,
    the parts of the C library the sources use on text (\<open>strtoul\<close>, \<open>isspace\<close>, \<open>snprintf\<close> of numbers).
  \<^item> \<open>Hash_Steps\<close>, \<open>Hash_Bytewise\<close>, \<open>Hash_CRC32\<close>, \<open>Hash_Blockwise\<close>, \<open>Hash_Jenkins\<close>, \<open>Hash_MD5\<close>: the hash functions
    of \<open>one_at_a_time.cc\<close>, \<open>fnv_32.cc\<close>, \<open>fnv_64.cc\<close>, \<open>crc32.cc\<close>, \<open>hsieh.cc\<close>, \<open>murmur.cc\<close>, \<open>murmur3.cc\<close>,
    \<open>jenkins.cc\<close>, \<open>md5.cc\<close>.  Locales \<open>injective_step\<close>, \<open>injective_hash\<close> and \<open>block_hash\<close> give that keys which differ
    in one byte do not collide (for MurmurHash3, whose length is an \<open>int\<close>, keys below \<open>2 ^ 31\<close> bytes); the table-driven CRC equals the bitwise one, streaming MD5 equals MD5 of the padded
    message, the three alignment branches of the Jenkins hash agree.
  \<^item> \<open>Rijndael_Tables\<close>, \<open>Rijndael\<close>, \<open>Hashkit_String\<close>, \<open>Aes\<close>: \<open>rijndael.cc\<close>, \<open>string.cc\<close>, \<open>aes.cc\<close>, \<open>encrypt.cc\<close>.  The
    decryption rounds invert the encryption rounds for every key size, and decrypting an encrypted value gives it back
    (locale \<open>block_cipher\<close>).  Encrypting an empty value faults.  Appending to the dynamic string stays in its buffer; with
    assertions an empty value appended to a string without buffer stops the program.
  \<^item> \<open>Hashkit\<close>: \<open>has.cc\<close>, \<open>function.cc\<close>, \<open>digest.cc\<close>, \<open>algorithm.cc\<close>, \<open>hashkit.cc\<close>, \<open>str_algorithm.cc\<close>.
  \<^item> \<open>Protocol_Binary\<close>, \<open>Pedantic\<close>: packet formats, byte order and packet checks.
  \<^item> \<open>Object_Cache\<close>, \<open>Protocol_Output\<close>: \<open>cache.c\<close> and the output queue of \<open>handler.c\<close> (locale \<open>spooler\<close>).  Draining
    keeps the stream of bytes; spooling does so only within one chunk, and the theorems show what goes wrong beyond.
  \<^item> \<open>Binary_Handler\<close>, \<open>Binary_Framing\<close>: \<open>binary_handler.c\<close>.  The loop over the input buffer refines cutting the
    received bytes into packets.
  \<^item> \<open>Ascii_Handler\<close>, \<open>Ascii_Tokens\<close>, \<open>Ascii_Storage\<close>: \<open>ascii_handler.c\<close>.  The tokeniser finds the words of a line; a
    complete storage request leads to exactly one callback.
  \<^item> \<open>Protocol_Invariant\<close>, \<open>Protocol_Handler\<close>: the rest of \<open>handler.c\<close>.  Locale \<open>client_invariant\<close> carries an invariant
    from the elementary operations to \<open>memcached_protocol_client_work\<close>.
  \<^item> \<open>Return_Codes\<close>, \<open>Memcached\<close>: return codes, the client object, instances and recorded errors (\<open>strerror.cc\<close>,
    \<open>memcached.cc\<close>, \<open>instance.cc\<close>, \<open>error.cc\<close>, \<open>initialize_query.cc\<close>).
  \<^item> \<open>Distribution\<close>: \<open>hosts.cc\<close>, \<open>hash.cc\<close>, \<open>virtual_bucket.cc\<close>, \<open>server.cc\<close>, \<open>server_list.cc\<close>, the setters of
    \<open>behavior.cc\<close> that change the distribution, cloning.  \<open>Float_Points\<close>, \<open>Continuum\<close>, \<open>Key_Distribution\<close> and
    \<open>Server_Selection\<close> hold the theorems: the float arithmetic never gives more points than the array holds, the server
    of a key is the owner of its hash on the ring, without weights and sorting adding or ejecting a server moves
    no other keys, and every selected index is in range (locale \<open>server_selection\<close>).  A clone of a weighted client can
    look for a key on another server than the client.
  \<^item> \<open>Example_Storage\<close>, \<open>Example_Server\<close>, \<open>Example_Refinement\<close>: the storage and the high-level callbacks of the example server
    (\<open>example/storage.cc\<close>, \<open>example/interface_v1.cc\<close>).  The storage is a circular list of pointers; the callbacks refine
    a machine on finite maps, for sequences of commands through the locale \<open>key_value_server\<close>.  Counting on a value of
    fewer than eight bytes faults.

  \<^bold>\<open>Bounds and fuel.\<close>  Single-precision numbers are rationals rounded to 24 bits; finding their exponent takes at
  most 256 steps, more than the range of exponents of the type.  The theorems on the continuum are for up to 10000 servers,
  far above the 100 servers at which an assertion of \<open>hosts.cc\<close> stops a debug build.  The two loops over the pointers of the
  example storage need not end on an arbitrary heap, so they are partial functions, and the theorems show that they return
  on a circular list.  Every other loop is a total function by structural recursion, by a measure, or by recursion over
  a script of system call results.

  \<^bold>\<open>Not modelled.\<close>

  \<^item> Of \<open>libmemcached\<close>: connecting (\<open>connect.cc\<close>, \<open>udp.cc\<close>), the buffered input and output of the client (\<open>io.cc\<close>, \<open>do.cc\<close>,
    \<open>purge.cc\<close>, \<open>quit.cc\<close>), the parsing of responses (\<open>response.cc\<close>, \<open>fetch.cc\<close>, \<open>result.cc\<close>, \<open>string.cc\<close>) and with them the
    requests (\<open>storage.cc\<close>, \<open>get.cc\<close>, \<open>delete.cc\<close>, \<open>auto.cc\<close>, \<open>stats.cc\<close> and others).  Requests write to and read from
    a socket in the same loop in which they poll it; what precedes this, the choice of the server for a key, is
    modelled.  The texts of error records contain addresses and source positions and are left out.
  \<^item> The configuration parser, which the build generates from \<open>parser.yy\<close> and \<open>scanner.l\<close>; SASL, which is another library.
  \<^item> The C++ wrapper, whose methods call the C interface; its assertions and traces, and those of the client library, which are
    empty in a release build.
  \<^item> \<open>libmemcachedutil\<close>, the tools in \<open>src/src/bin\<close>, the load generator \<open>memaslap\<close>, the main program and the low-level
    interface of the example server: threads, sockets, options and files around the libraries.
  \<^item> Replacements for missing library functions (\<open>p9y\<close>, \<open>win32\<close>), which are not compiled on the modelled platform.
\<close>

end
